(* ===== verification/Prelude.thy ===== *)
theory Prelude
  imports Main "HOL-Library.Sublist" "HOL-Library.AList"
begin

text \<open>
  Shared vocabulary of the development: the theorem collections, the generic lemmas on lists, and
  the operations of the C++ standard library on strings that the sources call.

  \<^item> \<open>trim_left\<close>, \<open>trim_right\<close>, \<open>trim\<close> are the two \<open>erase\<close>/\<open>find_first_not_of\<close> idioms on
    spaces and tabs; \<open>read_word\<close> is \<open>stream >> word\<close>; \<open>getline_fields\<close> is the loop
    \<open>while (std::getline(stream, token, sep))\<close>; \<open>to_upper\<close>/\<open>to_lower\<close> are the
    \<open>std::transform\<close> calls in the C locale.
  \<^item> \<open>stoi\<close>, \<open>stoul\<close> and \<open>stoull\<close> skip white space, accept a sign, read the longest run of
    digits and ignore the rest; \<open>None\<close> is the thrown \<open>invalid_argument\<close>/\<open>out_of_range\<close>.
    The unsigned ones negate modulo \<open>2 ^ 64\<close>, as \<open>strtoul\<close> does on a \<open>long\<close> of 64 bits.
  \<^item> \<open>split_on\<close> and \<open>join\<close> cut and glue at a character.
\<close>

named_theorems guards \<open>facts that discharge the guard chains of the handlers\<close>
named_theorems frames \<open>which components of a state an operation leaves alone\<close>

subsection \<open>Lists\<close>

lemma prefix_butlast_mono: "prefix h c \<Longrightarrow> length h < length c \<Longrightarrow> prefix h (butlast c)"
  by (cases c rule: rev_cases) (auto simp: prefix_snoc)

lemma butlast_snoc_cases: "c \<noteq> [] \<Longrightarrow> c = butlast c @ [last c]"
  by simp

lemma prefix_not_longer: "prefix h (c @ [x]) \<Longrightarrow> h \<noteq> c @ [x] \<Longrightarrow> prefix h c"
  by (simp add: prefix_snoc)

subsection \<open>Cutting and gluing\<close>

fun split_on :: "'a \<Rightarrow> 'a list \<Rightarrow> 'a list list" where
  "split_on c [] = [[]]"
| "split_on c (x # xs) =
     (if x = c then [] # split_on c xs
      else (case split_on c xs of [] \<Rightarrow> [[x]] | y # ys \<Rightarrow> (x # y) # ys))"

fun join :: "'a \<Rightarrow> 'a list list \<Rightarrow> 'a list" where
  "join c [] = []"
| "join c [x] = x"
| "join c (x # y # ys) = x @ c # join c (y # ys)"

lemma split_on_neq_Nil [simp]: "split_on c xs \<noteq> []"
  by (induction xs) (auto split: list.splits)

lemma join_split_on: "join c (split_on c xs) = xs"
proof (induction xs)
  case (Cons x xs)
  obtain y ys where s: "split_on c xs = y # ys"
    by (cases "split_on c xs") auto
  then show ?case
    using Cons by (cases ys) auto
qed simp

lemma split_on_append:
  "c \<notin> set x \<Longrightarrow> split_on c (x @ c # rest) = x # split_on c rest"
  by (induction x) auto

lemma split_on_app: "split_on c (xs @ c # ys) = split_on c xs @ split_on c ys"
  by (induction xs) (auto split: list.splits)

lemma join_snoc: "xs \<noteq> [] \<Longrightarrow> join c (xs @ [x]) = join c xs @ c # x"
  by (induction c xs rule: join.induct) auto

lemma split_on_free: "c \<notin> set x \<Longrightarrow> split_on c x = [x]"
  by (induction x) auto

lemma split_on_join:
  "xs \<noteq> [] \<Longrightarrow> (\<And>x. x \<in> set xs \<Longrightarrow> c \<notin> set x) \<Longrightarrow> split_on c (join c xs) = xs"
  by (induction c xs rule: join.induct) (auto simp: split_on_append split_on_free)

lemma split_on_parts_free: "x \<in> set (split_on c xs) \<Longrightarrow> c \<notin> set x"
  by (induction xs arbitrary: x) (fastforce split: list.splits if_splits)+

subsection \<open>White space\<close>

definition is_blank :: "char \<Rightarrow> bool" where
  "is_blank c = (c = CHR '' '' \<or> c = CHR 0x09)"

definition is_space :: "char \<Rightarrow> bool" where
  "is_space c = (c \<in> {CHR '' '', CHR 0x09, CHR 0x0A, CHR 0x0B, CHR 0x0C, CHR 0x0D})"

definition trim_left :: "string \<Rightarrow> string" where
  "trim_left s = dropWhile is_blank s"

definition trim_right :: "string \<Rightarrow> string" where
  "trim_right s = rev (dropWhile is_blank (rev s))"

definition trim :: "string \<Rightarrow> string" where
  "trim s = trim_right (trim_left s)"

text \<open>\<open>stream >> word\<close>: the word and what is left of the stream.\<close>

definition read_word :: "string \<Rightarrow> string \<times> string" where
  "read_word s =
     (let t = dropWhile is_space s
      in (takeWhile (\<lambda>c. \<not> is_space c) t, dropWhile (\<lambda>c. \<not> is_space c) t))"

text \<open>The tokens of \<open>while (std::getline(stream, token, sep))\<close>: an empty last field is not read.\<close>

definition getline_fields :: "char \<Rightarrow> string \<Rightarrow> string list" where
  "getline_fields sep s =
     (let fs = split_on sep s in if last fs = [] then butlast fs else fs)"

lemma trim_right_Nil_iff: "trim_right s = [] \<longleftrightarrow> (\<forall>c\<in>set s. is_blank c)"
  by (simp add: trim_right_def dropWhile_eq_Nil_conv)

lemma trim_left_no_blank_head: "trim_left s = c # cs \<Longrightarrow> \<not> is_blank c"
  unfolding trim_left_def using hd_dropWhile[of is_blank s] by auto

lemma trim_right_no_blank_last: "trim_right s \<noteq> [] \<Longrightarrow> \<not> is_blank (last (trim_right s))"
  unfolding trim_right_def using hd_dropWhile[of is_blank "rev s"] by (simp add: last_rev)

lemma trim_right_prefix: "prefix (trim_right s) s"
proof -
  have "suffix (dropWhile is_blank (rev s)) (rev s)"
    by (rule suffix_dropWhile)
  then show ?thesis
    by (simp add: trim_right_def suffix_to_prefix)
qed

lemma trim_ends:
  assumes "trim s \<noteq> []"
  shows "\<not> is_blank (hd (trim s)) \<and> \<not> is_blank (last (trim s))"
proof -
  obtain c cs where c: "trim_left s = c # cs"
    using assms by (cases "trim_left s") (auto simp: trim_def trim_right_def)
  have "hd (trim s) = c"
    using trim_right_prefix[of "trim_left s"] assms
    by (cases "trim s") (auto simp: trim_def c prefix_Cons)
  then show ?thesis
    using trim_left_no_blank_head[OF c] trim_right_no_blank_last assms by (simp add: trim_def)
qed

subsection \<open>Case\<close>

definition to_upper_char :: "char \<Rightarrow> char" where
  "to_upper_char c =
     (let n = of_char c :: nat in if 97 \<le> n \<and> n \<le> 122 then char_of (n - 32) else c)"

definition to_lower_char :: "char \<Rightarrow> char" where
  "to_lower_char c =
     (let n = of_char c :: nat in if 65 \<le> n \<and> n \<le> 90 then char_of (n + 32) else c)"

definition to_upper :: "string \<Rightarrow> string" where
  "to_upper s = map to_upper_char s"

definition to_lower :: "string \<Rightarrow> string" where
  "to_lower s = map to_lower_char s"

lemma to_upper_Nil_iff [simp]: "to_upper s = [] \<longleftrightarrow> s = []"
  by (simp add: to_upper_def)

subsection \<open>Numbers\<close>

fun dec_of_nat :: "nat \<Rightarrow> string" where
  "dec_of_nat n =
     (if n < 10 then [char_of (48 + n)]
      else dec_of_nat (n div 10) @ [char_of (48 + n mod 10)])"

declare dec_of_nat.simps [simp del]

definition to_string :: "int \<Rightarrow> string" where
  "to_string i = (if i < 0 then CHR ''-'' # dec_of_nat (nat (- i)) else dec_of_nat (nat i))"

definition digit_val :: "nat \<Rightarrow> char \<Rightarrow> nat option" where
  "digit_val base c =
     (let n = of_char c :: nat
      in if 48 \<le> n \<and> n < 48 + base then Some (n - 48) else None)"

fun read_digits :: "nat \<Rightarrow> nat \<Rightarrow> string \<Rightarrow> nat" where
  "read_digits base acc [] = acc"
| "read_digits base acc (c # cs) =
     (case digit_val base c of None \<Rightarrow> acc | Some d \<Rightarrow> read_digits base (acc * base + d) cs)"

definition strto :: "nat \<Rightarrow> string \<Rightarrow> (bool \<times> nat) option" where
  "strto base s =
     (let t = dropWhile is_space s;
          (neg, u) = (case t of
             c # cs \<Rightarrow> if c = CHR ''-'' then (True, cs) else if c = CHR ''+'' then (False, cs)
                       else (False, t)
           | [] \<Rightarrow> (False, t))
      in (case u of
            [] \<Rightarrow> None
          | c # cs \<Rightarrow> (case digit_val base c of
                         None \<Rightarrow> None
                       | Some d \<Rightarrow> Some (neg, read_digits base 0 u))))"

definition stoi :: "string \<Rightarrow> int option" where
  "stoi s = (case strto 10 s of
     None \<Rightarrow> None
   | Some (neg, n) \<Rightarrow>
       (let v = (if neg then - int n else int n)
        in if - (2 ^ 31) \<le> v \<and> v < 2 ^ 31 then Some v else None))"

definition stoull_base :: "nat \<Rightarrow> string \<Rightarrow> nat option" where
  "stoull_base base s = (case strto base s of
     None \<Rightarrow> None
   | Some (neg, n) \<Rightarrow>
       if n < 2 ^ 64 then Some (if neg then (2 ^ 64 - n) mod 2 ^ 64 else n) else None)"

abbreviation stoul :: "string \<Rightarrow> nat option" where
  "stoul \<equiv> stoull_base 10"

abbreviation stoull :: "string \<Rightarrow> nat option" where
  "stoull \<equiv> stoull_base 10"

lemma stoi_range: "stoi s = Some v \<Longrightarrow> - (2 ^ 31) \<le> v \<and> v < 2 ^ 31"
  by (auto simp: stoi_def Let_def split: option.splits prod.splits if_splits)

lemma stoull_range: "stoull_base b s = Some n \<Longrightarrow> n < 2 ^ 64"
  by (auto simp: stoull_base_def split: option.splits prod.splits if_splits)

text \<open>Reading back what \<open>std::to_string\<close> printed.\<close>

lemma digit_val_dec: "d < 10 \<Longrightarrow> digit_val 10 (char_of (48 + d)) = Some d"
  by (simp add: digit_val_def)

lemma read_digits_append:
  "(\<And>c. c \<in> set xs \<Longrightarrow> digit_val b c \<noteq> None) \<Longrightarrow>
   read_digits b acc (xs @ ys) = read_digits b (read_digits b acc xs) ys"
  by (induction xs arbitrary: acc) (fastforce split: option.splits)+

lemma dec_of_nat_digits: "c \<in> set (dec_of_nat n) \<Longrightarrow> digit_val 10 c \<noteq> None"
proof (induction n rule: dec_of_nat.induct)
  case (1 n)
  show ?case
  proof (cases "n < 10")
    case True
    then show ?thesis
      using "1.prems" digit_val_dec[of n] by (auto simp: dec_of_nat.simps[of n])
  next
    case False
    then show ?thesis
      using "1.prems" "1.IH" digit_val_dec[of "n mod 10"]
      by (auto simp: dec_of_nat.simps[of n])
  qed
qed

lemma dec_of_nat_not_Nil [simp]: "dec_of_nat n \<noteq> []"
  by (subst dec_of_nat.simps) simp

lemma read_digits_dec: "read_digits 10 0 (dec_of_nat n) = n"
proof (induction n rule: dec_of_nat.induct)
  case (1 n)
  show ?case
  proof (cases "n < 10")
    case True
    then show ?thesis
      using digit_val_dec[of n] by (simp add: dec_of_nat.simps[of n])
  next
    case False
    have "read_digits 10 0 (dec_of_nat n) =
          read_digits 10 (n div 10) [char_of (48 + n mod 10)]"
      using False "1.IH" dec_of_nat_digits
      by (subst dec_of_nat.simps) (simp add: read_digits_append)
    also have "\<dots> = n"
      using digit_val_dec[of "n mod 10"] by simp
    finally show ?thesis .
  qed
qed

text \<open>\<open>find\<close> of a character: what stands before and after it.\<close>

definition cut_at :: "char \<Rightarrow> string \<Rightarrow> (string \<times> string) option" where
  "cut_at c s =
     (if c \<in> set s then Some (takeWhile (\<lambda>x. x \<noteq> c) s, tl (dropWhile (\<lambda>x. x \<noteq> c) s)) else None)"

lemma cut_at_append: "c \<notin> set a \<Longrightarrow> cut_at c (a @ c # b) = Some (a, b)"
  by (induction a) (auto simp: cut_at_def split: if_splits)

lemma strto_dec: "strto 10 (dec_of_nat n) = Some (False, n)"
proof -
  obtain c cs where c: "dec_of_nat n = c # cs"
    by (cases "dec_of_nat n") auto
  then have d: "digit_val 10 c \<noteq> None"
    using dec_of_nat_digits[of c n] by simp
  then have "\<not> is_space c" "c \<noteq> CHR ''-''" "c \<noteq> CHR ''+''"
    by (auto simp: digit_val_def is_space_def)
  then have "strto 10 (c # cs) = Some (False, read_digits 10 0 (c # cs))"
    using d by (auto simp: strto_def split: option.splits)
  then show ?thesis
    using read_digits_dec[of n] by (simp add: c)
qed

lemma stoul_dec: "n < 2 ^ 64 \<Longrightarrow> stoul (dec_of_nat n) = Some n"
  by (simp add: stoull_base_def strto_dec)

lemma stoi_dec: "n < 2 ^ 31 \<Longrightarrow> stoi (dec_of_nat n) = Some (int n)"
  by (simp add: stoi_def strto_dec)

lemma dec_digits_only: "digit_val 10 c = None \<Longrightarrow> c \<notin> set (dec_of_nat n)"
  using dec_of_nat_digits[of c n] by auto

end
