(* ===== verification/Config.thy ===== *)
theory Config
  imports Prelude
begin

text \<open>
  The configuration record of \<open>config/server_config.hpp\<close> with its defaults, one record per
  section.
\<close>

record connection_config =
  bind_address :: string
  bind_port :: int
  max_connections :: int
  timeout_seconds :: int
  passive_mode :: bool
  passive_port_range_start :: int
  passive_port_range_end :: int

record logging_config =
  log_file :: string
  log_level :: string
  log_format :: string
  log_to_console :: bool
  log_to_file :: bool

record security_config =
  max_sessions_per_user :: int
  require_ssl :: bool
  ssl_cert_file :: string
  ssl_key_file :: string
  ssl_ca_file :: string
  require_client_cert :: bool
  ssl_client_ca_file :: string
  allow_anonymous :: bool
  anonymous_user :: string
  anonymous_password :: string
  chroot_enabled :: bool
  chroot_directory :: string
  drop_privileges :: bool
  run_as_user :: string
  run_as_group :: string
  enable_pam :: bool
  user_file :: string
  virtual_hosts_file :: string

record rate_limit_config =
  rate_limit_enabled :: bool
  max_requests_per_minute :: int
  max_connections_per_ip :: int
  max_transfer_rate :: int
  max_transfer_rate_per_user :: int

record transfer_config =
  use_sendfile :: bool
  use_mmap :: bool
  enable_compression :: bool
  buffer_size :: nat

record server_config =
  connection :: connection_config
  logging :: logging_config
  security :: security_config
  rate_limit :: rate_limit_config
  transfer :: transfer_config
  errors :: "string list"
  warnings :: "string list"

definition default_config :: server_config where
  "default_config =
     \<lparr>connection =
        \<lparr>bind_address = ''0.0.0.0'', bind_port = 21, max_connections = 100, timeout_seconds = 300,
         passive_mode = True, passive_port_range_start = 49152, passive_port_range_end = 65535\<rparr>,
      logging =
        \<lparr>log_file = ''/var/log/simple-sftpd/simple-sftpd.log'', log_level = ''INFO'',
         log_format = ''STANDARD'', log_to_console = True, log_to_file = True\<rparr>,
      security =
        \<lparr>max_sessions_per_user = 0, require_ssl = False, ssl_cert_file = [], ssl_key_file = [],
         ssl_ca_file = [], require_client_cert = False, ssl_client_ca_file = [],
         allow_anonymous = False, anonymous_user = ''anonymous'',
         anonymous_password = ''anonymous@'', chroot_enabled = False,
         chroot_directory = ''/var/ftp'', drop_privileges = False, run_as_user = ''ftp'',
         run_as_group = ''ftp'', enable_pam = False, user_file = [], virtual_hosts_file = []\<rparr>,
      rate_limit =
        \<lparr>rate_limit_enabled = False, max_requests_per_minute = 60, max_connections_per_ip = 10,
         max_transfer_rate = 0, max_transfer_rate_per_user = 0\<rparr>,
      transfer =
        \<lparr>use_sendfile = False, use_mmap = False, enable_compression = False,
         buffer_size = 32768\<rparr>,
      errors = [], warnings = []\<rparr>"

end
