(* ===== verification/Paths.thy ===== *)
theory Paths
  imports Prelude
begin

text \<open>
  \<open>std::filesystem::path\<close> on POSIX, as the sources use it: a path is its string; \<open>path_elems\<close> is
  the sequence its iterators visit (root directory, file names, an empty last element for a
  trailing slash); \<open>path_append\<close> is \<open>operator/\<close>; \<open>lexically_normal\<close> follows the eight steps of
  the standard, with a stack of the names kept so far. \<open>isWithin\<close> is the helper that
  \<open>core/connection.cpp\<close> and \<open>user/user.cpp\<close> both define.
\<close>

subsection \<open>Elements\<close>

definition root_dir :: string where
  "root_dir = ''/''"

definition is_absolute :: "string \<Rightarrow> bool" where
  "is_absolute p = (case p of [] \<Rightarrow> False | c # _ \<Rightarrow> c = CHR ''/'')"

definition segments :: "string \<Rightarrow> string list" where
  "segments p = filter (\<lambda>x. x \<noteq> []) (split_on CHR ''/'' p)"

definition trailing_slash :: "string \<Rightarrow> bool" where
  "trailing_slash p = (p \<noteq> [] \<and> last p = CHR ''/'')"

definition path_elems :: "string \<Rightarrow> string list" where
  "path_elems p =
     (if is_absolute p then [root_dir] else []) @ segments p @
     (if segments p \<noteq> [] \<and> trailing_slash p then [[]] else [])"

definition path_append :: "string \<Rightarrow> string \<Rightarrow> string" where
  "path_append p q =
     (if is_absolute q then q
      else if p \<noteq> [] \<and> \<not> trailing_slash p then p @ root_dir @ q
      else p @ q)"

definition relative_path :: "string \<Rightarrow> string" where
  "relative_path p = dropWhile (\<lambda>c. c = CHR ''/'') p"

definition filename :: "string \<Rightarrow> string" where
  "filename p = last (split_on CHR ''/'' p)"

definition parent_path :: "string \<Rightarrow> string" where
  "parent_path p =
     (if relative_path p = [] then p
      else let d = rev (dropWhile (\<lambda>c. c \<noteq> CHR ''/'') (rev p));
               e = rev (dropWhile (\<lambda>c. c = CHR ''/'') (rev d))
           in if e = [] \<and> d \<noteq> [] then root_dir else e)"

text \<open>\<open>path::extension()\<close>: from the last dot of the file name, unless it is its first character
  or the name is \<open>..\<close>.\<close>

definition extension :: "string \<Rightarrow> string" where
  "extension p =
     (let f = filename p; e = takeWhile (\<lambda>c. c \<noteq> CHR ''.'') (rev f)
      in if f = ''..'' \<or> length e = length f \<or> Suc (length e) = length f then []
         else CHR ''.'' # rev e)"

subsection \<open>Lexical normal form\<close>

fun norm_push :: "bool \<Rightarrow> string list \<Rightarrow> string \<Rightarrow> string list" where
  "norm_push ab st x =
     (if x = [] \<or> x = ''.'' then st
      else if x = ''..'' then
        (case st of
           [] \<Rightarrow> if ab then [] else [x]
         | y # ys \<Rightarrow> if y = ''..'' then x # st else ys)
      else x # st)"

definition norm_stack :: "bool \<Rightarrow> string list \<Rightarrow> string list" where
  "norm_stack ab xs = foldl (norm_push ab) [] xs"

definition norm_trailing :: "string \<Rightarrow> bool" where
  "norm_trailing p =
     (trailing_slash p \<or> filename p = ''.'' \<or> filename p = ''..'')"

definition lexically_normal :: "string \<Rightarrow> string" where
  "lexically_normal p =
     (if p = [] then []
      else let ab = is_absolute p; st = norm_stack ab (segments p)
           in if st = [] then (if ab then root_dir else ''.'')
              else (if ab then root_dir else []) @ join CHR ''/'' (rev st) @
                   (if norm_trailing p \<and> hd st \<noteq> ''..'' then root_dir else []))"

subsection \<open>Containment\<close>

fun within_elems :: "string list \<Rightarrow> string list \<Rightarrow> bool" where
  "within_elems child [] = True"
| "within_elems [] (p # ps) = False"
| "within_elems (c # cs) (p # ps) = (c = p \<and> within_elems cs ps)"

definition isWithin :: "string \<Rightarrow> string \<Rightarrow> bool" where
  "isWithin child parent = within_elems (path_elems child) (path_elems parent)"

lemma within_elems_prefix: "within_elems c p = prefix p c"
  by (induction c p rule: within_elems.induct) auto

lemma isWithin_iff: "isWithin c p \<longleftrightarrow> prefix (path_elems p) (path_elems c)"
  by (simp add: isWithin_def within_elems_prefix)

lemma isWithin_refl [simp]: "isWithin p p"
  by (simp add: isWithin_iff)

lemma isWithin_trans: "isWithin a b \<Longrightarrow> isWithin b c \<Longrightarrow> isWithin a c"
  by (auto simp: isWithin_iff intro: prefix_order.trans)

subsection \<open>The string of a location\<close>

text \<open>A file name the system can hold: one path component that is not empty, dot or dot-dot.\<close>

definition valid_name :: "string \<Rightarrow> bool" where
  "valid_name x = (x \<noteq> [] \<and> x \<noteq> ''.'' \<and> x \<noteq> ''..'' \<and> CHR ''/'' \<notin> set x)"

definition string_of_loc :: "string list \<Rightarrow> string" where
  "string_of_loc c = root_dir @ join CHR ''/'' c"

definition valid_loc :: "string list \<Rightarrow> bool" where
  "valid_loc c = (\<forall>x\<in>set c. valid_name x)"

lemma valid_loc_simps [simp]:
  "valid_loc []" "valid_loc (x # c) = (valid_name x \<and> valid_loc c)"
  "valid_loc (a @ b) = (valid_loc a \<and> valid_loc b)" "valid_loc (rev c) = valid_loc c"
  by (auto simp: valid_loc_def)

lemma valid_locD: "valid_loc c \<Longrightarrow> x \<in> set c \<Longrightarrow> valid_name x"
  by (simp add: valid_loc_def)

lemma valid_name_simps:
  "valid_name x \<Longrightarrow> x \<noteq> []" "valid_name x \<Longrightarrow> x \<noteq> ''.''" "valid_name x \<Longrightarrow> x \<noteq> ''..''"
  "valid_name x \<Longrightarrow> CHR ''/'' \<notin> set x"
  by (auto simp: valid_name_def)

lemma valid_loc_parts:
  "valid_loc c \<Longrightarrow> x \<in> set c \<Longrightarrow> x \<noteq> [] \<and> x \<noteq> ''.'' \<and> x \<noteq> ''..'' \<and> CHR ''/'' \<notin> set x"
  by (auto simp: valid_loc_def valid_name_def)

lemma valid_loc_last: "valid_loc c \<Longrightarrow> c \<noteq> [] \<Longrightarrow> valid_name (last c)"
  by (simp add: valid_loc_def)

lemma is_absolute_loc [simp]: "is_absolute (string_of_loc c)"
  by (simp add: string_of_loc_def root_dir_def is_absolute_def)

lemma split_on_loc:
  assumes "valid_loc c"
  shows "split_on CHR ''/'' (string_of_loc c) = [] # (if c = [] then [[]] else c)"
proof (cases "c = []")
  case False
  then have "split_on CHR ''/'' (join CHR ''/'' c) = c"
    using valid_loc_parts[OF assms] by (intro split_on_join) auto
  with False show ?thesis
    by (simp add: string_of_loc_def root_dir_def)
qed (simp add: string_of_loc_def root_dir_def)

lemma segments_loc:
  assumes "valid_loc c"
  shows "segments (string_of_loc c) = c"
proof -
  have "filter (\<lambda>x. x \<noteq> []) c = c"
    using valid_loc_parts[OF assms] by (intro filter_True) auto
  then show ?thesis
    by (simp add: segments_def split_on_loc[OF assms])
qed

lemma join_not_Nil:
  "xs \<noteq> [] \<Longrightarrow> (\<And>x. x \<in> set xs \<Longrightarrow> x \<noteq> []) \<Longrightarrow> join c xs \<noteq> []"
  by (induction c xs rule: join.induct) auto

lemma last_join:
  "xs \<noteq> [] \<Longrightarrow> (\<And>x. x \<in> set xs \<Longrightarrow> x \<noteq> []) \<Longrightarrow> last (join c xs) = last (last xs)"
proof (induction c xs rule: join.induct)
  case (3 c x y ys)
  moreover have "join c (y # ys) \<noteq> []"
    using "3.prems" by (intro join_not_Nil) auto
  ultimately show ?case by simp
qed auto

lemma trailing_slash_loc:
  assumes "valid_loc c"
  shows "trailing_slash (string_of_loc c) = (c = [])"
proof (cases "c = []")
  case False
  have ne: "\<And>x. x \<in> set c \<Longrightarrow> x \<noteq> []"
    using valid_loc_parts[OF assms] by blast
  have "join CHR ''/'' c \<noteq> []"
    by (rule join_not_Nil[OF False ne])
  moreover have "last (join CHR ''/'' c) = last (last c)"
    by (rule last_join[OF False ne])
  moreover have "last (last c) \<noteq> CHR ''/''"
    using valid_loc_last[OF assms False] by (metis last_in_set valid_name_def)
  ultimately show ?thesis
    using False by (simp add: trailing_slash_def string_of_loc_def root_dir_def)
qed (simp add: trailing_slash_def string_of_loc_def root_dir_def)

lemma path_elems_loc:
  assumes "valid_loc c"
  shows "path_elems (string_of_loc c) = root_dir # c"
  using segments_loc[OF assms] trailing_slash_loc[OF assms]
  by (simp add: path_elems_def)

lemma isWithin_loc:
  assumes "valid_loc c" "valid_loc h"
  shows "isWithin (string_of_loc c) (string_of_loc h) = prefix h c"
  by (simp add: isWithin_iff path_elems_loc assms)

lemma string_of_loc_snoc: "string_of_loc (c @ [x]) = (if c = [] then root_dir @ x else string_of_loc c @ root_dir @ x)"
  by (simp add: string_of_loc_def join_snoc root_dir_def)

lemma string_of_loc_not_Nil [simp]: "string_of_loc c \<noteq> []"
  by (simp add: string_of_loc_def root_dir_def)

lemma path_append_loc:
  assumes "valid_loc c" "valid_name x"
  shows "path_append (string_of_loc c) x = string_of_loc (c @ [x])"
proof -
  have "\<not> is_absolute x"
    using valid_name_simps(4)[OF assms(2)] by (cases x) (auto simp: is_absolute_def)
  then show ?thesis
    using trailing_slash_loc[OF assms(1)]
    by (simp add: path_append_def string_of_loc_snoc) (simp add: string_of_loc_def)
qed

lemma path_elems_loc_slash:
  assumes "valid_loc c" "c \<noteq> []"
  shows "path_elems (string_of_loc c @ root_dir) = root_dir # c @ [[]]"
proof -
  have "segments (string_of_loc c @ root_dir) = segments (string_of_loc c)"
    by (simp add: segments_def root_dir_def split_on_app)
  then have "segments (string_of_loc c @ root_dir) = c"
    using segments_loc[OF assms(1)] by simp
  moreover have "is_absolute (string_of_loc c @ root_dir)"
    by (simp add: is_absolute_def string_of_loc_def root_dir_def)
  moreover have "trailing_slash (string_of_loc c @ root_dir)"
    by (simp add: trailing_slash_def root_dir_def)
  ultimately show ?thesis
    using assms(2) by (simp add: path_elems_def)
qed

lemma isWithin_loc_slash:
  assumes "valid_loc c" "valid_loc h" "c \<noteq> []"
  shows "isWithin (string_of_loc c @ root_dir) (string_of_loc h) = prefix h c"
proof -
  have "[] \<notin> set h"
    using valid_loc_parts[OF assms(2)] by blast
  then have "prefix h (c @ [[]]) = prefix h c"
    by (auto simp: prefix_snoc)
  then show ?thesis
    by (simp add: isWithin_iff path_elems_loc_slash path_elems_loc assms)
qed

subsection \<open>Normal forms\<close>

text \<open>In a stack the dot-dots sit at the bottom, and an absolute path has none.\<close>

fun stack_ok :: "bool \<Rightarrow> string list \<Rightarrow> bool" where
  "stack_ok ab [] = True"
| "stack_ok ab (x # xs) =
     (if x = ''..'' then \<not> ab \<and> (\<forall>y\<in>set xs. y = ''..'') \<and> stack_ok ab xs
      else valid_name x \<and> stack_ok ab xs)"

lemma stack_ok_push:
  "CHR ''/'' \<notin> set x \<Longrightarrow> stack_ok ab st \<Longrightarrow> stack_ok ab (norm_push ab st x)"
  by (cases st) (auto simp: valid_name_def)

lemma stack_ok_foldl:
  "(\<And>x. x \<in> set xs \<Longrightarrow> CHR ''/'' \<notin> set x) \<Longrightarrow> stack_ok ab st \<Longrightarrow>
   stack_ok ab (foldl (norm_push ab) st xs)"
  by (induction xs arbitrary: st) (auto simp del: norm_push.simps intro: stack_ok_push)

lemma stack_ok_abs: "stack_ok True st \<Longrightarrow> x \<in> set st \<Longrightarrow> valid_name x"
  by (induction st) (auto split: if_splits)

lemma segments_free: "x \<in> set (segments p) \<Longrightarrow> CHR ''/'' \<notin> set x"
  by (auto simp: segments_def dest: split_on_parts_free)

lemma norm_stack_valid:
  assumes "x \<in> set (norm_stack True (segments p))"
  shows "valid_name x"
  using stack_ok_foldl[of "segments p" True "[]"] segments_free[of _ p] assms
  unfolding norm_stack_def by (auto intro: stack_ok_abs)

lemma norm_stack_names:
  "valid_loc c \<Longrightarrow> norm_stack ab c = rev c"
proof (induction c rule: rev_induct)
  case (snoc x xs)
  then show ?case
    using valid_name_simps[of x] by (simp add: norm_stack_def)
qed (simp add: norm_stack_def)

lemma lexically_normal_loc:
  assumes "valid_loc c"
  shows "lexically_normal (string_of_loc c) = string_of_loc c"
proof (cases "c = []")
  case False
  then have "filename (string_of_loc c) = last c" "valid_name (last c)"
    using split_on_loc[OF assms] valid_loc_last[OF assms] by (simp_all add: filename_def)
  then have "\<not> norm_trailing (string_of_loc c)"
    using trailing_slash_loc[OF assms] False by (auto simp: norm_trailing_def valid_name_def)
  then show ?thesis
    using False norm_stack_names[OF assms] segments_loc[OF assms]
    by (simp add: lexically_normal_def Let_def) (simp add: string_of_loc_def)
qed (simp add: lexically_normal_def string_of_loc_def root_dir_def segments_def norm_stack_def
      is_absolute_def)

lemma lexically_normal_loc_slash:
  assumes "valid_loc c" "c \<noteq> []"
  shows "lexically_normal (string_of_loc c @ root_dir) = string_of_loc c @ root_dir"
proof -
  let ?p = "string_of_loc c @ root_dir"
  have seg: "segments ?p = c"
    using segments_loc[OF assms(1)] by (simp add: segments_def root_dir_def split_on_app)
  have "is_absolute ?p" "norm_trailing ?p"
    by (simp_all add: is_absolute_def string_of_loc_def root_dir_def norm_trailing_def
        trailing_slash_def)
  moreover have "last c \<noteq> ''..''"
    using valid_name_simps(3)[OF valid_loc_last[OF assms]] .
  ultimately show ?thesis
    using assms(2) norm_stack_names[OF assms(1)] seg
    by (simp add: lexically_normal_def Let_def hd_rev) (simp add: string_of_loc_def)
qed

text \<open>The location the normal form of an absolute path spells. Its names are valid, so no dot-dot
  is left to climb with; a slash may follow it.\<close>

definition normal_loc :: "string \<Rightarrow> string list" where
  "normal_loc p = rev (norm_stack True (segments p))"

lemma normal_loc_valid [simp]: "valid_loc (normal_loc p)"
  by (auto simp: valid_loc_def normal_loc_def intro: norm_stack_valid)

lemma lexically_normal_abs:
  assumes "is_absolute p"
  shows "lexically_normal p = string_of_loc (normal_loc p) \<or>
         normal_loc p \<noteq> [] \<and> lexically_normal p = string_of_loc (normal_loc p) @ root_dir"
proof -
  have "p \<noteq> []"
    using assms by (auto simp: is_absolute_def)
  then show ?thesis
    using assms by (auto simp: lexically_normal_def Let_def string_of_loc_def normal_loc_def)
qed

lemma norm_push_Nil [simp]: "norm_push ab st [] = st"
  by simp

lemma foldl_push_filter:
  "foldl (norm_push ab) st (filter (\<lambda>x. x \<noteq> []) xs) = foldl (norm_push ab) st xs"
  by (induction xs arbitrary: st) (simp_all del: norm_push.simps)

lemma normal_loc_split: "normal_loc p = rev (foldl (norm_push True) [] (split_on CHR ''/'' p))"
  by (simp add: normal_loc_def norm_stack_def segments_def foldl_push_filter)

lemma segments_append:
  assumes "p \<noteq> []" "CHR ''/'' \<notin> set e"
  shows "segments (path_append p e) = segments p @ filter (\<lambda>x. x \<noteq> []) [e]"
proof -
  have e: "\<not> is_absolute e" "split_on CHR ''/'' e = [e]"
    using assms(2) by (auto simp: is_absolute_def split_on_free split: list.splits)
  show ?thesis
  proof (cases "trailing_slash p")
    case True
    then obtain q where "p = q @ ''/''"
      by (cases p rule: rev_cases) (auto simp: trailing_slash_def)
    then show ?thesis
      using True e by (simp add: path_append_def segments_def split_on_app)
  next
    case False
    then show ?thesis
      using assms(1) e by (simp add: path_append_def segments_def root_dir_def split_on_app)
  qed
qed

lemma path_append_abs:
  "is_absolute p \<Longrightarrow> is_absolute (path_append p e)"
  by (auto simp: path_append_def is_absolute_def split: list.splits)

lemma segments_appends:
  assumes "is_absolute p" "\<And>e. e \<in> set es \<Longrightarrow> CHR ''/'' \<notin> set e"
  shows "is_absolute (foldl path_append p es) \<and>
         segments (foldl path_append p es) = segments p @ filter (\<lambda>x. x \<noteq> []) es"
  using assms
proof (induction es arbitrary: p)
  case (Cons e es)
  moreover have "p \<noteq> []"
    using Cons.prems by (auto simp: is_absolute_def)
  ultimately show ?case
    using segments_append[of p e] path_append_abs[of p e] by simp
qed simp

lemma normal_loc_appends:
  assumes "valid_loc c" "\<And>e. e \<in> set es \<Longrightarrow> CHR ''/'' \<notin> set e"
  shows "normal_loc (foldl path_append (string_of_loc c) es) =
         rev (foldl (norm_push True) (rev c) es)"
  using segments_appends[of "string_of_loc c" es] assms(2) segments_loc[OF assms(1)]
    norm_stack_names[OF assms(1), of True]
  by (simp add: normal_loc_def norm_stack_def foldl_push_filter)

lemma normal_loc_loc: "valid_loc c \<Longrightarrow> normal_loc (string_of_loc c) = c"
  using normal_loc_appends[of c "[]"] by simp

lemma normal_loc_loc_slash: "valid_loc c \<Longrightarrow> normal_loc (string_of_loc c @ root_dir) = c"
  by (simp add: normal_loc_def root_dir_def segments_def split_on_app)
     (simp add: segments_def[symmetric] segments_loc norm_stack_names)

end
