(* ===== verification/Filesystem.thy ===== *)
theory Filesystem
  imports Paths
begin

text \<open>
  The file system under \<open>std::filesystem\<close>, \<open>open\<close>, \<open>std::ofstream\<close> and \<open>chmod\<close>: a finite
  tree of inodes with symbolic links, a process root (moved by \<open>chroot\<close>) and a working
  directory. \<open>walk\<close> is the kernel's path resolution, link by link, with its limit of 40 links;
  \<open>resolve\<close> follows a final link, \<open>lresolve\<close> does not. On top of it stand the operations the
  server calls, with what libstdc++ makes of each error: \<open>None\<close> is a thrown
  \<open>filesystem_error\<close> (or the error code of the overload that takes one).

  \<open>weakly_canonical\<close> follows the loop of libstdc++: the longest existing prefix is made
  canonical, the other elements are appended and the result is put in lexical normal form.
  \<open>normalizeForComparison\<close> is the helper of \<open>core/connection.cpp\<close> (\<open>normalize\<close> of
  \<open>user/user.cpp\<close> is the same code).

  The field \<open>refuses\<close> stands for what the kernel refuses for reasons outside this model
  (permission bits, a read-only mount, no space): creating, writing, renaming or removing the
  entry at a location where it holds fails.
\<close>

subsection \<open>The tree\<close>

datatype kind = Regular string | Directory | Symlink string

record inode =
  ikind :: kind
  imode :: nat

type_synonym loc = "string list"
type_synonym tree = "(loc \<times> inode) list"

record filesys =
  tree :: tree
  root :: loc
  cwd :: loc
  refuses :: "loc \<Rightarrow> bool"

definition kind_at :: "tree \<Rightarrow> loc \<Rightarrow> kind option" where
  "kind_at t c = map_option ikind (map_of t c)"

definition symlink_limit :: nat where
  "symlink_limit = 40"

datatype walked =
  At loc                        \<comment> \<open>an inode\<close>
| Missing loc string "string list" \<comment> \<open>no such name in that directory, and the rest (ENOENT)\<close>
| NotDir                        \<comment> \<open>a name looked up in what is no directory (ENOTDIR)\<close>
| Loop                          \<comment> \<open>too many links (ELOOP)\<close>

fun walk :: "tree \<Rightarrow> loc \<Rightarrow> nat \<Rightarrow> loc \<Rightarrow> string list \<Rightarrow> walked" where
  "walk t r n c [] = At c"
| "walk t r n c (x # xs) =
     (if kind_at t c \<noteq> Some Directory then NotDir
      else if x = [] \<or> x = ''.'' then walk t r n c xs
      else if x = ''..'' then walk t r n (if c = r then r else butlast c) xs
      else (case kind_at t (c @ [x]) of
              None \<Rightarrow> Missing c x xs
            | Some (Symlink tg) \<Rightarrow>
                (case n of
                   0 \<Rightarrow> Loop
                 | Suc m \<Rightarrow> walk t r m (if is_absolute tg then r else c)
                              (split_on CHR ''/'' tg @ xs))
            | Some k \<Rightarrow> walk t r n (c @ [x]) xs))"

definition start_of :: "filesys \<Rightarrow> string \<Rightarrow> loc" where
  "start_of fs p = (if is_absolute p then root fs else cwd fs)"

definition walk_from :: "filesys \<Rightarrow> loc \<Rightarrow> string list \<Rightarrow> walked" where
  "walk_from fs c xs = walk (tree fs) (root fs) symlink_limit c xs"

definition resolve :: "filesys \<Rightarrow> string \<Rightarrow> walked" where
  "resolve fs p =
     (if p = [] then NotDir else walk_from fs (start_of fs p) (split_on CHR ''/'' p))"

definition lresolve :: "filesys \<Rightarrow> string \<Rightarrow> walked" where
  "lresolve fs p =
     (let ws = split_on CHR ''/'' p;
          ws' = rev (dropWhile (\<lambda>x. x = []) (rev ws))
      in if ws' = [] \<or> last ws' = ''.'' \<or> last ws' = ''..'' then resolve fs p
         else (case walk_from fs (start_of fs p) (butlast ws') of
                 At d \<Rightarrow>
                   if kind_at (tree fs) d \<noteq> Some Directory then NotDir
                   else (case kind_at (tree fs) (d @ [last ws']) of
                           None \<Rightarrow> Missing d (last ws') (drop (length ws') ws)
                         | Some _ \<Rightarrow> if ws' = ws then At (d @ [last ws']) else resolve fs p)
               | Missing d x xs \<Rightarrow> Missing d x (xs @ [last ws'])
               | w \<Rightarrow> w))"

subsection \<open>Queries\<close>

datatype ftype = FNone | FNotFound | FFile | FDir

definition status :: "filesys \<Rightarrow> string \<Rightarrow> ftype" where
  "status fs p = (case resolve fs p of
     At c \<Rightarrow> (case kind_at (tree fs) c of Some Directory \<Rightarrow> FDir | _ \<Rightarrow> FFile)
   | Missing _ _ _ \<Rightarrow> FNotFound
   | NotDir \<Rightarrow> FNotFound
   | Loop \<Rightarrow> FNone)"

text \<open>The overloads that take an \<open>error_code\<close>, and those that throw.\<close>

definition exists_ec :: "filesys \<Rightarrow> string \<Rightarrow> bool" where
  "exists_ec fs p = (status fs p = FFile \<or> status fs p = FDir)"

definition is_directory_ec :: "filesys \<Rightarrow> string \<Rightarrow> bool" where
  "is_directory_ec fs p = (status fs p = FDir)"

definition fs_exists :: "filesys \<Rightarrow> string \<Rightarrow> bool option" where
  "fs_exists fs p = (if status fs p = FNone then None else Some (exists_ec fs p))"

definition fs_is_directory :: "filesys \<Rightarrow> string \<Rightarrow> bool option" where
  "fs_is_directory fs p = (if status fs p = FNone then None else Some (is_directory_ec fs p))"

definition fs_is_regular :: "filesys \<Rightarrow> string \<Rightarrow> bool option" where
  "fs_is_regular fs p = (if status fs p = FNone then None else Some (status fs p = FFile))"

definition file_content :: "filesys \<Rightarrow> string \<Rightarrow> string option" where
  "file_content fs p = (case resolve fs p of
     At c \<Rightarrow> (case kind_at (tree fs) c of Some (Regular s) \<Rightarrow> Some s | _ \<Rightarrow> None)
   | _ \<Rightarrow> None)"

definition file_size :: "filesys \<Rightarrow> string \<Rightarrow> nat option" where
  "file_size fs p = map_option length (file_content fs p)"

definition children :: "tree \<Rightarrow> loc \<Rightarrow> string list" where
  "children t c =
     map last (filter (\<lambda>k. k \<noteq> [] \<and> butlast k = c) (map fst t))"

definition directory_entries :: "filesys \<Rightarrow> string \<Rightarrow> string list option" where
  "directory_entries fs p = (case resolve fs p of
     At c \<Rightarrow> if kind_at (tree fs) c = Some Directory then Some (children (tree fs) c) else None
   | _ \<Rightarrow> None)"

subsection \<open>Canonical paths\<close>

definition canonical :: "filesys \<Rightarrow> string \<Rightarrow> string option" where
  "canonical fs p = (case resolve fs p of
     At c \<Rightarrow> Some (string_of_loc (drop (length (root fs)) c))
   | _ \<Rightarrow> None)"

fun leading_existing ::
  "filesys \<Rightarrow> string \<Rightarrow> string list \<Rightarrow> string \<times> string list \<times> bool" where
  "leading_existing fs res [] = (res, [], False)"
| "leading_existing fs res (e # es) =
     (case status fs (path_append res e) of
        FNone \<Rightarrow> (res, e # es, True)
      | FNotFound \<Rightarrow> (res, e # es, False)
      | _ \<Rightarrow> leading_existing fs (path_append res e) es)"

definition weakly_canonical :: "filesys \<Rightarrow> string \<Rightarrow> string option" where
  "weakly_canonical fs p = (case status fs p of
     FNone \<Rightarrow> None
   | FNotFound \<Rightarrow>
       (case leading_existing fs [] (path_elems p) of (res, rest, err) \<Rightarrow>
          if err then None
          else (case (if res = [] then Some [] else canonical fs res) of
                  None \<Rightarrow> None
                | Some r \<Rightarrow> Some (lexically_normal (foldl path_append r rest))))
   | _ \<Rightarrow> canonical fs p)"

definition normalizeForComparison :: "filesys \<Rightarrow> string \<Rightarrow> string" where
  "normalizeForComparison fs p = (case weakly_canonical fs p of
     None \<Rightarrow> lexically_normal p
   | Some n \<Rightarrow> if n = [] then lexically_normal p else n)"

subsection \<open>Updates\<close>

definition put_node :: "filesys \<Rightarrow> loc \<Rightarrow> kind \<Rightarrow> nat \<Rightarrow> filesys" where
  "put_node fs c k m =
     fs\<lparr>tree := AList.update c \<lparr>ikind = k, imode = m\<rparr> (tree fs)\<rparr>"

definition mode_at :: "tree \<Rightarrow> loc \<Rightarrow> nat" where
  "mode_at t c = (case map_of t c of None \<Rightarrow> 420 | Some i \<Rightarrow> imode i)"

definition del_node :: "filesys \<Rightarrow> loc \<Rightarrow> filesys" where
  "del_node fs c = fs\<lparr>tree := AList.delete c (tree fs)\<rparr>"

definition create_directory :: "filesys \<Rightarrow> string \<Rightarrow> (bool \<times> filesys) option" where
  "create_directory fs p = (case lresolve fs p of
     Missing d x xs \<Rightarrow>
       if (\<forall>y\<in>set xs. y = []) \<and> \<not> refuses fs (d @ [x])
       then Some (True, put_node fs (d @ [x]) Directory 511) else None
   | At c \<Rightarrow> if is_directory_ec fs p then Some (False, fs) else None
   | _ \<Rightarrow> None)"

text \<open>\<open>create_directories\<close>: the missing ancestors, outermost first, then one \<open>mkdir\<close> each.\<close>

function missing_dirs :: "filesys \<Rightarrow> string \<Rightarrow> string list \<Rightarrow> string list option" where
  "missing_dirs fs p acc =
     (if p = [] then Some acc
      else (case status fs p of
              FDir \<Rightarrow> Some acc
            | FNotFound \<Rightarrow>
                if length (parent_path p) < length p then
                  missing_dirs fs (parent_path p)
                    (if filename p = ''.'' \<or> filename p = ''..'' then acc else p # acc)
                else None
            | _ \<Rightarrow> None))"
  by pat_completeness auto
termination
  by (relation "measure (\<lambda>(fs, p, acc). length p)") auto

declare missing_dirs.simps [simp del]

fun make_dirs :: "filesys \<Rightarrow> string list \<Rightarrow> filesys option" where
  "make_dirs fs [] = Some fs"
| "make_dirs fs (p # ps) = (case create_directory fs p of
     None \<Rightarrow> None | Some (_, fs') \<Rightarrow> make_dirs fs' ps)"

definition create_directories :: "filesys \<Rightarrow> string \<Rightarrow> filesys option" where
  "create_directories fs p =
     (if p = [] then None
      else let q = (if relative_path p \<noteq> [] \<and> trailing_slash p then parent_path p else p)
           in (case status fs p of
                 FDir \<Rightarrow> Some fs
               | FNotFound \<Rightarrow>
                   (case missing_dirs fs q [] of
                      None \<Rightarrow> None | Some ps \<Rightarrow> make_dirs fs ps)
               | _ \<Rightarrow> None))"

definition fs_remove :: "filesys \<Rightarrow> string \<Rightarrow> (bool \<times> filesys) option" where
  "fs_remove fs p = (case lresolve fs p of
     At c \<Rightarrow>
       if c = root fs \<or> refuses fs c \<or>
          (kind_at (tree fs) c = Some Directory \<and> children (tree fs) c \<noteq> [])
       then None else Some (True, del_node fs c)
   | Missing _ _ _ \<Rightarrow> Some (False, fs)
   | _ \<Rightarrow> None)"

definition move_tree :: "tree \<Rightarrow> loc \<Rightarrow> loc \<Rightarrow> tree" where
  "move_tree t c d =
     map (\<lambda>(k, i). if prefix c k then (d @ drop (length c) k, i) else (k, i))
         (AList.delete d t)"

definition move_ok :: "filesys \<Rightarrow> loc \<Rightarrow> loc \<Rightarrow> bool" where
  "move_ok fs c d =
     (c \<noteq> root fs \<and> d \<noteq> root fs \<and> \<not> strict_prefix c d \<and> \<not> refuses fs c \<and> \<not> refuses fs d \<and>
      (case kind_at (tree fs) d of
         None \<Rightarrow> True
       | Some Directory \<Rightarrow>
           kind_at (tree fs) c = Some Directory \<and> (c = d \<or> children (tree fs) d = [])
       | Some _ \<Rightarrow> kind_at (tree fs) c \<noteq> Some Directory))"

definition fs_rename :: "filesys \<Rightarrow> string \<Rightarrow> string \<Rightarrow> filesys option" where
  "fs_rename fs p q = (case lresolve fs p of
     At c \<Rightarrow>
       (case lresolve fs q of
          At d \<Rightarrow> if \<not> move_ok fs c d then None
                  else if c = d then Some fs else Some (fs\<lparr>tree := move_tree (tree fs) c d\<rparr>)
        | Missing e x xs \<Rightarrow>
            if (\<forall>y\<in>set xs. y = []) \<and> (xs = [] \<or> kind_at (tree fs) c = Some Directory) \<and>
               move_ok fs c (e @ [x])
            then Some (fs\<lparr>tree := move_tree (tree fs) c (e @ [x])\<rparr>) else None
        | _ \<Rightarrow> None)
   | _ \<Rightarrow> None)"

text \<open>Opening for writing: the file to write, created or truncated when asked for.\<close>

definition open_write :: "filesys \<Rightarrow> string \<Rightarrow> bool \<Rightarrow> (loc \<times> filesys) option" where
  "open_write fs p trunc = (case resolve fs p of
     At c \<Rightarrow>
       (case kind_at (tree fs) c of
          Some (Regular s) \<Rightarrow>
            if refuses fs c then None
            else Some (c, if trunc then put_node fs c (Regular []) (mode_at (tree fs) c) else fs)
        | _ \<Rightarrow> None)
   | Missing d x xs \<Rightarrow>
       if xs = [] \<and> \<not> refuses fs (d @ [x])
       then Some (d @ [x], put_node fs (d @ [x]) (Regular []) 420) else None
   | _ \<Rightarrow> None)"

definition content_at :: "filesys \<Rightarrow> loc \<Rightarrow> string" where
  "content_at fs c = (case kind_at (tree fs) c of Some (Regular s) \<Rightarrow> s | _ \<Rightarrow> [])"

text \<open>Writing bytes at an offset; a gap before it reads as zero bytes.\<close>

definition write_bytes :: "string \<Rightarrow> nat \<Rightarrow> string \<Rightarrow> string" where
  "write_bytes s pos bs =
     (if bs = [] then s
      else take pos (s @ replicate (pos - length s) CHR 0x00) @ bs @ drop (pos + length bs) s)"

definition write_at :: "filesys \<Rightarrow> loc \<Rightarrow> nat \<Rightarrow> string \<Rightarrow> filesys" where
  "write_at fs c pos bs =
     put_node fs c (Regular (write_bytes (content_at fs c) pos bs)) (mode_at (tree fs) c)"

definition fs_permissions :: "filesys \<Rightarrow> string \<Rightarrow> nat \<Rightarrow> filesys option" where
  "fs_permissions fs p m = (case resolve fs p of
     At c \<Rightarrow>
       if refuses fs c then None
       else (case kind_at (tree fs) c of
               None \<Rightarrow> None | Some k \<Rightarrow> Some (put_node fs c k m))
   | _ \<Rightarrow> None)"

text \<open>\<open>getDirectorySize\<close>: every regular file below, links to regular files counted, linked
  directories not entered; the iteration stops at the first entry whose status is an error.\<close>

definition getDirectorySize :: "filesys \<Rightarrow> string \<Rightarrow> nat" where
  "getDirectorySize fs p = (case resolve fs p of
     At c \<Rightarrow>
       if kind_at (tree fs) c = Some Directory
       then let below = map (\<lambda>k. string_of_loc (drop (length (root fs)) k))
                          (filter (strict_prefix c) (map fst (tree fs)));
                seen = takeWhile (\<lambda>q. status fs q \<noteq> FNone) below
            in sum_list (map (\<lambda>q. case file_size fs q of None \<Rightarrow> 0 | Some n \<Rightarrow> n) seen) mod 2 ^ 64
       else 0
   | _ \<Rightarrow> 0)"

text \<open>\<open>chroot(2)\<close>: the process root moves to a directory; the working directory stays.\<close>

definition fs_chroot :: "filesys \<Rightarrow> string \<Rightarrow> filesys option" where
  "fs_chroot fs p = (case resolve fs p of
     At c \<Rightarrow> if kind_at (tree fs) c = Some Directory then Some (fs\<lparr>root := c\<rparr>) else None
   | _ \<Rightarrow> None)"

end
