(* ===== verification/Password.thy ===== *)
theory Password
  imports Prelude
begin

unbundle bit_operations_syntax

text \<open>
  \<open>security/password.cpp\<close>: base64, the credential format
  \<open>$pbkdf2-sha256$<iterations>$<salt>$<digest>\<close>, \<open>hash\<close> and \<open>verify\<close>. A byte is a \<open>char\<close>.
  OpenSSL is not part of the sources: \<open>kdf\<close> stands for \<open>PKCS5_PBKDF2_HMAC\<close> (\<open>None\<close> when it does
  not return 1, otherwise the bytes it writes) and \<open>salt\<close> for what \<open>RAND_bytes\<close> delivers.
\<close>

type_synonym kdf = "string \<Rightarrow> string \<Rightarrow> nat \<Rightarrow> string option"

definition kPrefix :: string where
  "kPrefix = ''$pbkdf2-sha256$''"

definition kDefaultIterations :: nat where
  "kDefaultIterations = 210000"

definition kDigestBytes :: nat where
  "kDigestBytes = 32"

subsection \<open>Base 64\<close>

definition kBase64Alphabet :: string where
  "kBase64Alphabet = ''ABCDEFGHIJKLMNOPQRSTUVWXYZabcdefghijklmnopqrstuvwxyz0123456789+/''"

abbreviation byte :: "char \<Rightarrow> nat" where
  "byte c \<equiv> of_char c"

text \<open>The digit that \<open>(triple >> k) & 0x3F\<close> selects.\<close>

definition b64_at :: "nat \<Rightarrow> nat \<Rightarrow> char" where
  "b64_at triple k = kBase64Alphabet ! (triple div 2 ^ k mod 64)"

fun base64Encode :: "string \<Rightarrow> string" where
  "base64Encode (a # b # c # rest) =
     (let triple = byte a * 2 ^ 16 + byte b * 2 ^ 8 + byte c
      in [b64_at triple 18, b64_at triple 12, b64_at triple 6, b64_at triple 0] @
         base64Encode rest)"
| "base64Encode [a, b] =
     (let triple = byte a * 2 ^ 16 + byte b * 2 ^ 8
      in [b64_at triple 18, b64_at triple 12, b64_at triple 6, CHR ''=''])"
| "base64Encode [a] =
     (let triple = byte a * 2 ^ 16
      in [b64_at triple 18, b64_at triple 12, CHR ''='', CHR ''=''])"
| "base64Encode [] = []"

definition b64_value :: "char \<Rightarrow> nat option" where
  "b64_value c =
     (let n = byte c
      in if 65 \<le> n \<and> n \<le> 90 then Some (n - 65)
         else if 97 \<le> n \<and> n \<le> 122 then Some (n - 97 + 26)
         else if 48 \<le> n \<and> n \<le> 57 then Some (n - 48 + 52)
         else if c = CHR ''+'' then Some 62
         else if c = CHR ''/'' then Some 63
         else None)"

text \<open>The inner loop: the digits read so far and the padding seen.\<close>

fun read_quad :: "string \<Rightarrow> nat list \<Rightarrow> nat \<Rightarrow> (nat list \<times> nat) option" where
  "read_quad [] quad padding = Some (quad, padding)"
| "read_quad (c # cs) quad padding =
     (if c = CHR ''='' then read_quad cs (quad @ [0]) (padding + 1)
      else if 0 < padding then None
      else (case b64_value c of
              None \<Rightarrow> None
            | Some v \<Rightarrow> read_quad cs (quad @ [v]) padding))"

definition quad_bytes :: "nat list \<Rightarrow> nat \<Rightarrow> string" where
  "quad_bytes quad padding =
     (let triple = quad ! 0 * 2 ^ 18 + quad ! 1 * 2 ^ 12 + quad ! 2 * 2 ^ 6 + quad ! 3
      in [char_of (triple div 2 ^ 16 mod 256)] @
         (if padding < 2 then [char_of (triple div 2 ^ 8 mod 256)] else []) @
         (if padding < 1 then [char_of (triple mod 256)] else []))"

fun decode_quads :: "string \<Rightarrow> string \<Rightarrow> string option" where
  "decode_quads (a # b # c # d # text) out =
     (case read_quad [a, b, c, d] [] 0 of
        None \<Rightarrow> None
      | Some (quad, padding) \<Rightarrow> decode_quads text (out @ quad_bytes quad padding))"
| "decode_quads text out = Some out"

definition base64Decode :: "string \<Rightarrow> string option" where
  "base64Decode text = (if length text mod 4 \<noteq> 0 then None else decode_quads text [])"

lemma b64_digit:
  assumes "i < 64"
  shows "b64_value (kBase64Alphabet ! i) = Some i \<and> kBase64Alphabet ! i \<noteq> CHR ''='' \<and>
         kBase64Alphabet ! i \<noteq> CHR ''$''"
proof -
  have "list_all (\<lambda>(i, c). b64_value c = Some i \<and> c \<noteq> CHR ''='' \<and> c \<noteq> CHR ''$'')
          (enumerate 0 kBase64Alphabet)" and l: "length kBase64Alphabet = 64"
    by (simp_all add: kBase64Alphabet_def b64_value_def)
  then show ?thesis
    using assms by (simp add: list_all_length nth_enumerate_eq)
qed

lemma b64_at_simps [simp]:
  "b64_value (b64_at t k) = Some (t div 2 ^ k mod 64)" "b64_at t k \<noteq> CHR ''=''"
  "b64_at t k \<noteq> CHR ''$''"
  using b64_digit[of "t div 2 ^ k mod 64"] by (simp_all add: b64_at_def)

lemma quad_value:
  fixes t :: nat
  assumes "t < 2 ^ 24"
  shows "t div 2 ^ 18 mod 64 * 2 ^ 18 + t div 2 ^ 12 mod 64 * 2 ^ 12 + t div 2 ^ 6 mod 64 * 2 ^ 6 +
         t mod 64 = t"
proof -
  define u where "u = t div 64"
  define v where "v = u div 64"
  define w where "w = v div 64"
  have d: "t div 2 ^ 6 = u" "t div 2 ^ 12 = v" "t div 2 ^ 18 = w"
    by (simp_all add: u_def v_def w_def div_mult2_eq[symmetric])
  have "w < 64"
    using assms by (simp add: u_def v_def w_def div_mult2_eq[symmetric] less_mult_imp_div_less)
  moreover have "t = 64 * u + t mod 64" "u = 64 * v + u mod 64" "v = 64 * w + v mod 64"
    unfolding u_def v_def w_def by (simp_all only: mult_div_mod_eq)
  ultimately show ?thesis
    unfolding d by simp
qed

lemma triple_bytes:
  fixes a b c :: nat
  assumes "a < 256" "b < 256" "c < 256" and t: "t = a * 2 ^ 16 + b * 2 ^ 8 + c"
  shows "t < 2 ^ 24" "t div 2 ^ 16 mod 256 = a" "t div 2 ^ 8 mod 256 = b" "t mod 256 = c"
proof -
  have e: "t = 256 * (256 * a + b) + c"
    using t by simp
  have "t div 256 = 256 * a + b" "t mod 256 = c"
    unfolding e using assms(3) by (simp_all only: mod_mult_self4 div_mult_self4 mod_less div_less)
  moreover have "t div 2 ^ 16 = t div 256 div 256"
    by (simp add: div_mult2_eq[symmetric])
  ultimately show "t < 2 ^ 24" "t div 2 ^ 16 mod 256 = a" "t div 2 ^ 8 mod 256 = b" "t mod 256 = c"
    using assms by simp_all
qed

lemma byte_less [simp]: "byte c < (256 :: nat)"
  by (simp add: of_char_def)

lemma padding_bits:
  fixes a b :: nat
  shows "(a * 2 ^ 16 + b * 2 ^ 8) mod 64 = 0" "(a * 2 ^ 16) mod 64 = 0"
    "a * 2 ^ 16 div 2 ^ 6 mod 64 = 0"
proof -
  have "a * 2 ^ 16 + b * 2 ^ 8 = 64 * (a * 1024 + b * 4)" "a * 2 ^ 16 = 64 * (64 * (a * 16))"
    by simp_all
  then show "(a * 2 ^ 16 + b * 2 ^ 8) mod 64 = 0" "(a * 2 ^ 16) mod 64 = 0"
    "a * 2 ^ 16 div 2 ^ 6 mod 64 = 0"
    by (simp_all only: mod_mult_self1_is_0) simp
qed

text \<open>The quads of a 24-bit value, with no padding, one or two padding characters.\<close>

lemma read_quads:
  "read_quad [b64_at t 18, b64_at t 12, b64_at t 6, b64_at t 0] [] 0 =
     Some ([t div 2 ^ 18 mod 64, t div 2 ^ 12 mod 64, t div 2 ^ 6 mod 64, t mod 64], 0)"
  "read_quad [b64_at t 18, b64_at t 12, b64_at t 6, CHR ''=''] [] 0 =
     Some ([t div 2 ^ 18 mod 64, t div 2 ^ 12 mod 64, t div 2 ^ 6 mod 64, 0], 1)"
  "read_quad [b64_at t 18, b64_at t 12, CHR ''='', CHR ''=''] [] 0 =
     Some ([t div 2 ^ 18 mod 64, t div 2 ^ 12 mod 64, 0, 0], 2)"
  by (simp_all del: power_numeral)

lemma quad_bytes_value:
  assumes "t < 2 ^ 24"
  shows "quad_bytes [t div 2 ^ 18 mod 64, t div 2 ^ 12 mod 64, t div 2 ^ 6 mod 64, t mod 64] p =
     [char_of (t div 2 ^ 16 mod 256)] @
     (if p < 2 then [char_of (t div 2 ^ 8 mod 256)] else []) @
     (if p < 1 then [char_of (t mod 256)] else [])"
  using quad_value[OF assms] by (simp only: quad_bytes_def Let_def nth_Cons_0 nth_Cons_numeral
      nth_Cons_Suc numeral_2_eq_2 numeral_3_eq_3 One_nat_def)

lemma decode_quads_encode: "decode_quads (base64Encode xs) out = Some (out @ xs)"
proof (induction xs arbitrary: out rule: base64Encode.induct)
  case (1 a b c rest)
  obtain t :: nat where t: "t = byte a * 2 ^ 16 + byte b * 2 ^ 8 + byte c"
    by blast
  note v = triple_bytes[OF byte_less byte_less byte_less t]
  have "base64Encode (a # b # c # rest) =
      b64_at t 18 # b64_at t 12 # b64_at t 6 # b64_at t 0 # base64Encode rest"
    by (simp only: base64Encode.simps Let_def t append_Cons append_Nil)
  then show ?case
    by (simp only: decode_quads.simps read_quads option.case prod.case quad_bytes_value[OF v(1)] v(2-4))
       (simp add: 1)
next
  case (2 a b)
  obtain t :: nat where t: "t = byte a * 2 ^ 16 + byte b * 2 ^ 8"
    by blast
  have t0: "t = byte a * 2 ^ 16 + byte b * 2 ^ 8 + 0"
    by (simp only: t add_0_right)
  note v = triple_bytes[OF byte_less byte_less zero_less_numeral t0]
  have e: "base64Encode [a, b] = [b64_at t 18, b64_at t 12, b64_at t 6, CHR ''='']"
    by (simp only: base64Encode.simps Let_def t)
  have z: "t mod 64 = 0"
    unfolding t by (rule padding_bits(1))
  have "decode_quads (base64Encode [a, b]) out =
      Some (out @ quad_bytes [t div 2 ^ 18 mod 64, t div 2 ^ 12 mod 64, t div 2 ^ 6 mod 64, t mod 64] 1)"
    by (simp only: e decode_quads.simps read_quads option.case prod.case z)
  then show ?case
    unfolding quad_bytes_value[OF v(1)] v(2-4) by simp
next
  case (3 a)
  obtain t :: nat where t: "t = byte a * 2 ^ 16"
    by blast
  have t0: "t = byte a * 2 ^ 16 + 0 * 2 ^ 8 + 0"
    by (simp only: t add_0_right mult_zero_left)
  note v = triple_bytes[OF byte_less zero_less_numeral zero_less_numeral t0]
  have e: "base64Encode [a] = [b64_at t 18, b64_at t 12, CHR ''='', CHR ''='']"
    by (simp only: base64Encode.simps Let_def t)
  have z: "t mod 64 = 0" "t div 2 ^ 6 mod 64 = 0"
    unfolding t by (rule padding_bits)+
  have "decode_quads (base64Encode [a]) out =
      Some (out @ quad_bytes [t div 2 ^ 18 mod 64, t div 2 ^ 12 mod 64, t div 2 ^ 6 mod 64, t mod 64] 2)"
    by (simp only: e decode_quads.simps read_quads option.case prod.case z)
  then show ?case
    unfolding quad_bytes_value[OF v(1)] v(2-4) by simp
qed simp

lemma length_encode: "length (base64Encode xs) mod 4 = 0"
  by (induction xs rule: base64Encode.induct) (simp_all add: Let_def)

lemma decode_encode: "base64Decode (base64Encode xs) = Some xs"
  using length_encode decode_quads_encode by (simp add: base64Decode_def)

lemma encode_no_dollar: "CHR ''$'' \<notin> set (base64Encode xs)"
  by (induction xs rule: base64Encode.induct) (auto simp: Let_def dest: sym)

subsection \<open>Comparing, hashing, verifying\<close>

text \<open>The difference is kept in an \<open>unsigned char\<close>: of the lengths only the low eight bits count.\<close>

definition byte_or_0 :: "string \<Rightarrow> nat \<Rightarrow> nat" where
  "byte_or_0 s i = (if i < length s then byte (s ! i) else 0)"

definition constantTimeEquals :: "string \<Rightarrow> string \<Rightarrow> bool" where
  "constantTimeEquals a b =
     (foldl (\<lambda>difference i. difference OR (byte_or_0 a i XOR byte_or_0 b i))
        (take_bit 8 (length a XOR length b)) [0..<max (length a) (length b)] = 0)"

definition isHashed :: "string \<Rightarrow> bool" where
  "isHashed stored = prefix kPrefix stored"

text \<open>The output buffer has 32 zero bytes before the call.\<close>

definition derive :: "kdf \<Rightarrow> string \<Rightarrow> string \<Rightarrow> nat \<Rightarrow> string option" where
  "derive kdf plaintext salt iterations =
     (case kdf plaintext salt iterations of
        None \<Rightarrow> None
      | Some d \<Rightarrow> Some (take kDigestBytes (d @ replicate kDigestBytes CHR 0x00)))"

definition hash :: "kdf \<Rightarrow> string option \<Rightarrow> string \<Rightarrow> nat \<Rightarrow> string" where
  "hash kdf rand plaintext iterations =
     (let iterations = (if iterations = 0 then kDefaultIterations else iterations)
      in case rand of
           None \<Rightarrow> []
         | Some salt \<Rightarrow>
             (case derive kdf plaintext salt iterations of
                None \<Rightarrow> []
              | Some digest \<Rightarrow>
                  kPrefix @ to_string (int iterations) @ ''$'' @ base64Encode salt @ ''$'' @
                  base64Encode digest))"

definition verify :: "kdf \<Rightarrow> string \<Rightarrow> string \<Rightarrow> bool" where
  "verify kdf plaintext stored =
     (if \<not> isHashed stored then constantTimeEquals plaintext stored
      else (case cut_at CHR ''$'' (drop (length kPrefix) stored) of
              None \<Rightarrow> False
            | Some (count, rest) \<Rightarrow>
                (case cut_at CHR ''$'' rest of
                   None \<Rightarrow> False
                 | Some (salt64, digest64) \<Rightarrow>
                     (case stoul count of
                        None \<Rightarrow> False
                      | Some parsed \<Rightarrow>
                          if parsed = 0 \<or> 100000000 < parsed then False
                          else (case (base64Decode salt64, base64Decode digest64) of
                                  (Some salt, Some expected) \<Rightarrow>
                                    if salt = [] \<or> length expected \<noteq> kDigestBytes then False
                                    else (case derive kdf plaintext salt parsed of
                                            None \<Rightarrow> False
                                          | Some actual \<Rightarrow> actual = expected)
                                | _ \<Rightarrow> False)))))"

lemma derive_length: "derive kdf p s n = Some d \<Longrightarrow> length d = kDigestBytes"
  by (auto simp: derive_def split: option.splits)

lemma dec_no_dollar: "CHR ''$'' \<notin> set (dec_of_nat n)"
  using dec_of_nat_digits[of "CHR ''$''" n] by (auto simp: digit_val_def)

lemma verify_format:
  assumes "salt \<noteq> []" "0 < n" "n \<le> 100000000" "length d = kDigestBytes"
  shows "verify kdf q (kPrefix @ dec_of_nat n @ ''$'' @ base64Encode salt @ ''$'' @ base64Encode d) =
         (derive kdf q salt n = Some d)"
proof -
  have "stoul (dec_of_nat n) = Some n"
    using assms(3) by (intro stoul_dec) simp
  then show ?thesis
    using assms by (simp add: verify_def isHashed_def cut_at_append dec_no_dollar encode_no_dollar
        decode_encode split: option.split)
qed

lemma verify_hash:
  assumes "salt \<noteq> []" "n \<le> 100000000"
    and "derive kdf p salt (if n = 0 then kDefaultIterations else n) = Some d"
  shows "verify kdf q (hash kdf (Some salt) p n) =
         (derive kdf q salt (if n = 0 then kDefaultIterations else n) = Some d)"
  using verify_format[OF assms(1) _ _ derive_length[OF assms(3)],
      of "if n = 0 then kDefaultIterations else n" kdf q] assms
  by (simp add: hash_def to_string_def kDefaultIterations_def split: if_splits)

lemma isHashed_hash: "hash kdf r p n = [] \<or> isHashed (hash kdf r p n)"
  by (auto simp: hash_def isHashed_def Let_def split: option.splits)

subsection \<open>What the comparison decides\<close>

lemma foldl_or_zero:
  "(foldl (\<lambda>d i. d OR f i) z xs = (0 :: nat)) = (z = 0 \<and> (\<forall>i\<in>set xs. f i = 0))"
  by (induction xs arbitrary: z) (auto simp: or_eq_0_iff)

lemma xor_eq_0: "((x :: nat) XOR y = 0) = (x = y)"
  by (metis bit.xor_self xor.left_neutral xor.assoc xor_self_eq)

lemma constantTimeEquals_iff:
  "constantTimeEquals a b \<longleftrightarrow>
     length a mod 256 = length b mod 256 \<and>
     (\<forall>i < max (length a) (length b). byte_or_0 a i = byte_or_0 b i)"
proof -
  have "(take_bit 8 (length a XOR length b) = 0) = (take_bit 8 (length a) = take_bit 8 (length b))"
    by (simp add: take_bit_xor xor_eq_0)
  then show ?thesis
    by (auto simp: constantTimeEquals_def foldl_or_zero xor_eq_0 take_bit_eq_mod)
qed

lemma constantTimeEquals_short:
  assumes "length a < 256" "length b < 256"
  shows "constantTimeEquals a b \<longleftrightarrow> a = b"
proof
  assume "constantTimeEquals a b"
  then have "length a = length b" "\<forall>i < length b. byte (a ! i) = (byte (b ! i) :: nat)"
    using assms by (auto simp: constantTimeEquals_iff byte_or_0_def)
  then show "a = b"
    by (intro nth_equalityI) (auto dest: arg_cong[where f = "char_of :: nat \<Rightarrow> char"])
qed (simp add: constantTimeEquals_iff)

end
