(* ===== verification/Std_Map.thy ===== *)
theory Std_Map
  imports Prelude "HOL-Library.List_Lexorder" "HOL-Library.Char_ord"
begin

text \<open>
  \<open>std::map\<close> as the sources use it: entries sorted by key, \<open>find\<close>, \<open>operator[]=\<close>, \<open>erase\<close> and
  iteration in key order (for strings the order of \<open>std::string\<close>, byte by byte). The locale
  \<open>kv_store\<close> states what the managers rely on; it is interpreted on the sorted entry lists.
\<close>

type_synonym ('k, 'v) std_map = "('k \<times> 'v) list"

subsection \<open>The interface\<close>

locale kv_store =
  fixes none :: "'m"
    and find :: "'m \<Rightarrow> 'k \<Rightarrow> 'v option"
    and put :: "'k \<Rightarrow> 'v \<Rightarrow> 'm \<Rightarrow> 'm"
    and erase :: "'k \<Rightarrow> 'm \<Rightarrow> 'm"
    and inv :: "'m \<Rightarrow> bool"
  assumes find_none: "find none k = None"
    and find_put: "inv m \<Longrightarrow> find (put k v m) j = (if j = k then Some v else find m j)"
    and find_erase: "inv m \<Longrightarrow> find (erase k m) j = (if j = k then None else find m j)"
    and inv_none: "inv none"
    and inv_put: "inv m \<Longrightarrow> inv (put k v m)"
    and inv_erase: "inv m \<Longrightarrow> inv (erase k m)"
begin

lemma find_put_all:
  "inv m \<Longrightarrow> find (foldl (\<lambda>m (k, v). put k v m) m kvs) j =
     (case map_of (rev kvs) j of None \<Rightarrow> find m j | Some v \<Rightarrow> Some v)"
proof (induction kvs arbitrary: m)
  case (Cons kv kvs)
  obtain k v where kv: "kv = (k, v)"
    by (cases kv)
  show ?case
    using Cons.IH[OF inv_put[OF Cons.prems, of k v]] find_put[OF Cons.prems]
    by (auto simp: kv map_add_def split: option.splits)
qed simp

lemma inv_put_all: "inv m \<Longrightarrow> inv (foldl (\<lambda>m (k, v). put k v m) m kvs)"
  by (induction kvs arbitrary: m) (auto intro: inv_put)

lemma erase_put_same:
  "inv m \<Longrightarrow> find (erase k (put k v m)) = find (erase k m)"
  by (rule ext) (simp add: find_put find_erase inv_put)

end

subsection \<open>Sorted entry lists\<close>

definition sorted_map :: "('k::linorder, 'v) std_map \<Rightarrow> bool" where
  "sorted_map m = sorted_wrt (<) (map fst m)"

fun map_put :: "'k::linorder \<Rightarrow> 'v \<Rightarrow> ('k, 'v) std_map \<Rightarrow> ('k, 'v) std_map" where
  "map_put k v [] = [(k, v)]"
| "map_put k v ((j, w) # m) =
     (if k < j then (k, v) # (j, w) # m
      else if k = j then (k, v) # m
      else (j, w) # map_put k v m)"

definition map_erase :: "'k \<Rightarrow> ('k, 'v) std_map \<Rightarrow> ('k, 'v) std_map" where
  "map_erase k m = filter (\<lambda>e. fst e \<noteq> k) m"

lemma map_of_put [simp]: "map_of (map_put k v m) = (map_of m)(k \<mapsto> v)"
  by (induction k v m rule: map_put.induct) (auto simp: fun_eq_iff)

lemma map_of_erase [simp]: "map_of (map_erase k m) = (map_of m)(k := None)"
  by (induction m) (auto simp: map_erase_def fun_eq_iff)

lemma keys_put: "fst ` set (map_put k v m) = insert k (fst ` set m)"
  by (induction k v m rule: map_put.induct) auto

lemma set_map_put: "e \<in> set (map_put k v m) \<Longrightarrow> e = (k, v) \<or> e \<in> set m"
  by (induction k v m rule: map_put.induct) (auto split: if_splits)

lemma sorted_put: "sorted_map m \<Longrightarrow> sorted_map (map_put k v m)"
proof (induction k v m rule: map_put.induct)
  case (2 k v j w m)
  then have "\<forall>i\<in>fst ` set (map_put k v m). k \<le> j \<or> j < i"
    unfolding keys_put by (auto simp: sorted_map_def)
  then show ?case
    using 2 by (auto simp: sorted_map_def)
qed (simp add: sorted_map_def)

lemma sorted_erase: "sorted_map m \<Longrightarrow> sorted_map (map_erase k m)"
  by (induction m) (auto simp: sorted_map_def map_erase_def)

lemma sorted_map_distinct: "sorted_map m \<Longrightarrow> distinct (map fst m)"
  by (auto simp: sorted_map_def strict_sorted_iff)

interpretation smap: kv_store "[]" map_of map_put map_erase sorted_map
  by unfold_locales (simp_all add: sorted_put sorted_erase, simp add: sorted_map_def)

text \<open>Writing the entries of a sorted map one by one gives the map back.\<close>

lemma map_put_last:
  "(\<And>j. j \<in> fst ` set m \<Longrightarrow> j < k) \<Longrightarrow> map_put k v m = m @ [(k, v)]"
proof (induction k v m rule: map_put.induct)
  case (2 k v j w m)
  then have "j < k"
    by simp
  then show ?case
    using 2 by (auto dest: less_asym)
qed simp

lemma put_all_sorted:
  "sorted_map (a @ m) \<Longrightarrow> foldl (\<lambda>m (k, v). map_put k v m) a m = a @ m"
proof (induction m arbitrary: a)
  case (Cons e m)
  obtain k v where e: "e = (k, v)"
    by (cases e)
  have "map_put k v a = a @ [(k, v)]"
    using Cons.prems by (intro map_put_last) (auto simp: sorted_map_def e sorted_wrt_append)
  then show ?case
    using Cons.IH[of "a @ [(k, v)]"] Cons.prems by (simp add: e)
qed simp

end
