(* ===== verification/Users.thy ===== *)
theory Users
  imports Filesystem Password Std_Map
begin

text \<open>
  \<open>user/user.cpp\<close> and the table of \<open>user/user_manager.cpp\<close>: accounts, their credentials,
  expiry, groups, and the permission entries an account is granted. A permission is an
  operation or \<open>operation:scope\<close>; the scope is a virtual path below the home directory.
  Users are values here: the server does not change an account after it has loaded it.
  The clock (seconds since the epoch) and the OpenSSL calls are arguments.
\<close>

subsection \<open>Accounts\<close>

record ftp_user =
  u_username :: string
  u_password :: string
  u_home :: string
  u_permissions :: "string list"
  u_groups :: "string list"
  u_guest :: bool
  u_expires_at :: int
  u_storage_quota :: nat

definition setPassword :: "kdf \<Rightarrow> string option \<Rightarrow> ftp_user \<Rightarrow> string \<Rightarrow> ftp_user" where
  "setPassword kdf rand u password =
     (if isHashed password then u\<lparr>u_password := password\<rparr>
      else let hashed = hash kdf rand password kDefaultIterations
           in if hashed = [] then u\<lparr>u_password := password\<rparr> else u\<lparr>u_password := hashed\<rparr>)"

definition new_user :: "kdf \<Rightarrow> string option \<Rightarrow> string \<Rightarrow> string \<Rightarrow> string \<Rightarrow> ftp_user" where
  "new_user kdf rand username password home_dir =
     setPassword kdf rand
       \<lparr>u_username = username, u_password = [], u_home = home_dir, u_permissions = [],
        u_groups = [], u_guest = False, u_expires_at = 0, u_storage_quota = 0\<rparr> password"

definition hasLegacyPassword :: "ftp_user \<Rightarrow> bool" where
  "hasLegacyPassword u = (\<not> isHashed (u_password u))"

definition isExpired :: "int \<Rightarrow> ftp_user \<Rightarrow> bool" where
  "isExpired now u = (if u_expires_at u \<le> 0 then False else u_expires_at u < now)"

definition authenticate :: "kdf \<Rightarrow> int \<Rightarrow> ftp_user \<Rightarrow> string \<Rightarrow> bool" where
  "authenticate kdf now u password =
     (if isExpired now u then False else verify kdf password (u_password u))"

definition addGroup :: "string \<Rightarrow> ftp_user \<Rightarrow> ftp_user" where
  "addGroup g u = (if g \<in> set (u_groups u) then u else u\<lparr>u_groups := u_groups u @ [g]\<rparr>)"

definition hasGroup :: "string \<Rightarrow> ftp_user \<Rightarrow> bool" where
  "hasGroup g u = (g \<in> set (u_groups u))"

definition addPermission :: "string \<Rightarrow> ftp_user \<Rightarrow> ftp_user" where
  "addPermission p u =
     (if p \<in> set (u_permissions u) then u else u\<lparr>u_permissions := u_permissions u @ [p]\<rparr>)"

subsection \<open>Permissions\<close>

fun permitted :: "filesys \<Rightarrow> string \<Rightarrow> string list \<Rightarrow> string \<Rightarrow> string \<Rightarrow> bool" where
  "permitted fs home [] operation path = False"
| "permitted fs home (entry # es) operation path =
     (let allowed_operation = (case cut_at CHR '':'' entry of None \<Rightarrow> entry | Some (x, _) \<Rightarrow> x)
      in if allowed_operation \<noteq> operation \<and> allowed_operation \<noteq> ''all''
         then permitted fs home es operation path
         else (case cut_at CHR '':'' entry of
                 None \<Rightarrow> True
               | Some (_, scope) \<Rightarrow>
                   if scope = [] \<or> scope = ''/'' then True
                   else if path = [] then permitted fs home es operation path
                   else if isWithin (normalizeForComparison fs path)
                             (normalizeForComparison fs (path_append home (relative_path scope)))
                   then True
                   else permitted fs home es operation path))"

definition user_hasPermission :: "filesys \<Rightarrow> ftp_user \<Rightarrow> string \<Rightarrow> string \<Rightarrow> bool" where
  "user_hasPermission fs u operation path =
     (if u_permissions u = [] then True
      else permitted fs (u_home u) (u_permissions u) operation path)"

text \<open>What one entry grants.\<close>

definition grants :: "filesys \<Rightarrow> string \<Rightarrow> string \<Rightarrow> string \<Rightarrow> string \<Rightarrow> bool" where
  "grants fs home operation path entry =
     (case cut_at CHR '':'' entry of
        None \<Rightarrow> entry = operation \<or> entry = ''all''
      | Some (x, scope) \<Rightarrow>
          (x = operation \<or> x = ''all'') \<and>
          (scope = [] \<or> scope = ''/'' \<or>
           path \<noteq> [] \<and> isWithin (normalizeForComparison fs path)
             (normalizeForComparison fs (path_append home (relative_path scope)))))"

lemma permitted_iff: "permitted fs home es operation path = (\<exists>e\<in>set es. grants fs home operation path e)"
proof (induction es)
  case (Cons e es)
  have "permitted fs home (e # es) operation path =
          (grants fs home operation path e \<or> permitted fs home es operation path)"
  proof (cases "cut_at CHR '':'' e")
    case (Some r)
    then show ?thesis
      by (cases r) (simp add: grants_def)
  qed (simp add: grants_def)
  then show ?case
    using Cons by simp
qed simp

lemma user_hasPermission_iff:
  "user_hasPermission fs u operation path \<longleftrightarrow>
     u_permissions u = [] \<or> (\<exists>e\<in>set (u_permissions u). grants fs (u_home u) operation path e)"
  by (simp add: user_hasPermission_def permitted_iff)

lemma grants_operation:
  "grants fs home operation path e \<Longrightarrow>
   e = operation \<or> e = ''all'' \<or> prefix (operation @ '':'') e \<or> prefix (''all:'') e"
proof -
  have cut: "e = x @ CHR '':'' # s" if "cut_at CHR '':'' e = Some (x, s)" for x s
    using that by (induction e arbitrary: x)
      (auto simp: cut_at_def split: if_splits)
  then show "grants fs home operation path e \<Longrightarrow> ?thesis"
    by (fastforce simp: grants_def split: option.splits)
qed

subsection \<open>Credentials\<close>

lemma setPassword_frame [simp]:
  "u_username (setPassword k r u p) = u_username u" "u_home (setPassword k r u p) = u_home u"
  "u_permissions (setPassword k r u p) = u_permissions u" "u_groups (setPassword k r u p) = u_groups u"
  "u_expires_at (setPassword k r u p) = u_expires_at u"
  "u_storage_quota (setPassword k r u p) = u_storage_quota u"
  "u_guest (setPassword k r u p) = u_guest u"
  by (simp_all add: setPassword_def Let_def)

lemma new_user_simps [simp]:
  "u_username (new_user k r n p h) = n" "u_home (new_user k r n p h) = h"
  "u_permissions (new_user k r n p h) = []" "u_expires_at (new_user k r n p h) = 0"
  by (simp_all add: new_user_def)

subsection \<open>The table\<close>

record user_manager =
  users :: "(string, ftp_user) std_map"
  users_file :: string

definition getUser :: "user_manager \<Rightarrow> string \<Rightarrow> ftp_user option" where
  "getUser m name = map_of (users m) name"

definition authenticateUser :: "kdf \<Rightarrow> int \<Rightarrow> user_manager \<Rightarrow> string \<Rightarrow> string \<Rightarrow> bool" where
  "authenticateUser kdf now m name password =
     (case getUser m name of None \<Rightarrow> False | Some u \<Rightarrow> authenticate kdf now u password)"

definition listUsers :: "user_manager \<Rightarrow> string list" where
  "listUsers m = map fst (users m)"

definition getUsersInGroup :: "user_manager \<Rightarrow> string \<Rightarrow> string list" where
  "getUsersInGroup m g = map fst (filter (\<lambda>e. hasGroup g (snd e)) (users m))"

end
