(* ===== verification/Virtual_Hosts.thy ===== *)
theory Virtual_Hosts
  imports Users
begin

text \<open>
  \<open>virtual_host/virtual_host.cpp\<close> and the table of \<open>virtual_host/virtual_host_manager.cpp\<close>. A
  host may carry its own user table, certificates, limits and replies for error codes.
\<close>

record virtual_host =
  vh_hostname :: string
  vh_root :: string
  vh_enabled :: bool
  vh_users :: "user_manager option"
  vh_ssl_cert :: string
  vh_ssl_key :: string
  vh_ssl_ca :: string
  vh_max_sessions :: int
  vh_storage_quota :: nat
  vh_bandwidth_quota :: nat
  vh_custom_errors :: "(string, string) std_map"

definition new_virtual_host :: "string \<Rightarrow> string \<Rightarrow> virtual_host" where
  "new_virtual_host hostname root_directory =
     \<lparr>vh_hostname = hostname, vh_root = root_directory, vh_enabled = True, vh_users = None,
      vh_ssl_cert = [], vh_ssl_key = [], vh_ssl_ca = [], vh_max_sessions = 0,
      vh_storage_quota = 0, vh_bandwidth_quota = 0, vh_custom_errors = []\<rparr>"

definition getCustomError :: "virtual_host \<Rightarrow> string \<Rightarrow> string" where
  "getCustomError h code = (case map_of (vh_custom_errors h) code of None \<Rightarrow> [] | Some m \<Rightarrow> m)"

definition setCustomError :: "string \<Rightarrow> string \<Rightarrow> virtual_host \<Rightarrow> virtual_host" where
  "setCustomError code message h =
     h\<lparr>vh_custom_errors :=
         (if message = [] then map_erase code (vh_custom_errors h)
          else map_put code message (vh_custom_errors h))\<rparr>"

lemma getCustomError_set:
  "getCustomError (setCustomError c m h) d = (if d = c then m else getCustomError h d)"
  by (simp add: getCustomError_def setCustomError_def)

record vhost_manager =
  virtual_hosts :: "(string, virtual_host) std_map"
  vhosts_file :: string

definition getVirtualHost :: "vhost_manager \<Rightarrow> string \<Rightarrow> virtual_host option" where
  "getVirtualHost m name = map_of (virtual_hosts m) name"

definition getAllVirtualHosts :: "vhost_manager \<Rightarrow> virtual_host list" where
  "getAllVirtualHosts m = map snd (virtual_hosts m)"

definition listVirtualHosts :: "vhost_manager \<Rightarrow> string list" where
  "listVirtualHosts m = map fst (virtual_hosts m)"

end
