(* ===== verification/Sessions.thy ===== *)
theory Sessions
  imports Std_Map "HOL-Library.Multiset"
begin

text \<open>
  \<open>core/session_tracker.cpp\<close>: the number of logged-in sessions per user and per virtual host.
  The locale \<open>session_counter\<close> is what the login code relies on: the count behaves as the
  multiplicity in a bag of open sessions. The tracker implements it; an unregistration of a name
  that is not registered is ignored, as the bag difference is.
\<close>

record session_tracker =
  count_by_user :: "(string, nat) std_map"
  count_by_host :: "(string, nat) std_map"

definition new_tracker :: session_tracker where
  "new_tracker = \<lparr>count_by_user = [], count_by_host = []\<rparr>"

definition counted :: "(string, nat) std_map \<Rightarrow> string \<Rightarrow> nat" where
  "counted m k = (case map_of m k of None \<Rightarrow> 0 | Some n \<Rightarrow> n)"

definition count_up :: "string \<Rightarrow> (string, nat) std_map \<Rightarrow> (string, nat) std_map" where
  "count_up k m = (if k = [] then m else map_put k (counted m k + 1) m)"

definition count_down :: "string \<Rightarrow> (string, nat) std_map \<Rightarrow> (string, nat) std_map" where
  "count_down k m =
     (if k = [] then m
      else (case map_of m k of
              None \<Rightarrow> m
            | Some n \<Rightarrow> if n \<le> 1 then map_erase k m else map_put k (n - 1) m))"

definition registerSession :: "session_tracker \<Rightarrow> string \<Rightarrow> string \<Rightarrow> session_tracker" where
  "registerSession t u h =
     t\<lparr>count_by_user := count_up u (count_by_user t), count_by_host := count_up h (count_by_host t)\<rparr>"

definition unregisterSession :: "session_tracker \<Rightarrow> string \<Rightarrow> string \<Rightarrow> session_tracker" where
  "unregisterSession t u h =
     t\<lparr>count_by_user := count_down u (count_by_user t), count_by_host := count_down h (count_by_host t)\<rparr>"

definition getCountForUser :: "session_tracker \<Rightarrow> string \<Rightarrow> nat" where
  "getCountForUser t u = counted (count_by_user t) u"

definition getCountForHost :: "session_tracker \<Rightarrow> string \<Rightarrow> nat" where
  "getCountForHost t h = counted (count_by_host t) h"

subsection \<open>The contract: a bag of sessions\<close>

datatype session_event = Opened string string | Closed string string

fun replay :: "('t \<Rightarrow> string \<Rightarrow> string \<Rightarrow> 't) \<Rightarrow> ('t \<Rightarrow> string \<Rightarrow> string \<Rightarrow> 't) \<Rightarrow> 't \<Rightarrow>
    session_event list \<Rightarrow> 't" where
  "replay reg unreg t [] = t"
| "replay reg unreg t (Opened u h # es) = replay reg unreg (reg t u h) es"
| "replay reg unreg t (Closed u h # es) = replay reg unreg (unreg t u h) es"

text \<open>The bag of the names \<open>sel\<close> picks, one for each session that is open.\<close>

fun bag :: "(string \<Rightarrow> string \<Rightarrow> string) \<Rightarrow> string multiset \<Rightarrow> session_event list \<Rightarrow> string multiset" where
  "bag sel b [] = b"
| "bag sel b (Opened u h # es) = bag sel (b + {#sel u h#}) es"
| "bag sel b (Closed u h # es) = bag sel (b - {#sel u h#}) es"

locale session_counter =
  fixes start :: 't
    and reg :: "'t \<Rightarrow> string \<Rightarrow> string \<Rightarrow> 't"
    and unreg :: "'t \<Rightarrow> string \<Rightarrow> string \<Rightarrow> 't"
    and users :: "'t \<Rightarrow> string \<Rightarrow> nat"
    and hosts :: "'t \<Rightarrow> string \<Rightarrow> nat"
  assumes start_empty: "users start k = 0" "hosts start k = 0"
    and reg_users: "users (reg t u h) k = users t k + (if k = u \<and> u \<noteq> [] then 1 else 0)"
    and reg_hosts: "hosts (reg t u h) k = hosts t k + (if k = h \<and> h \<noteq> [] then 1 else 0)"
    and unreg_users: "users (unreg t u h) k = users t k - (if k = u \<and> u \<noteq> [] then 1 else 0)"
    and unreg_hosts: "hosts (unreg t u h) k = hosts t k - (if k = h \<and> h \<noteq> [] then 1 else 0)"
begin

lemma replay_users_from:
  "k \<noteq> [] \<Longrightarrow> users t k = count b k \<Longrightarrow>
   users (replay reg unreg t es) k = count (bag (\<lambda>u h. u) b es) k"
proof (induction "\<lambda>u h :: string. u :: string" b es arbitrary: t rule: bag.induct)
  case (2 b u h es)
  show ?case
    using 2(2,3) by (simp add: 2(1) reg_users)
next
  case (3 b u h es)
  show ?case
    using 3(2,3) by (simp add: 3(1) unreg_users)
qed simp

lemma replay_hosts_from:
  "k \<noteq> [] \<Longrightarrow> hosts t k = count b k \<Longrightarrow>
   hosts (replay reg unreg t es) k = count (bag (\<lambda>u h. h) b es) k"
proof (induction "\<lambda>u :: string. \<lambda>h. h :: string" b es arbitrary: t rule: bag.induct)
  case (2 b u h es)
  show ?case
    using 2(2,3) by (simp add: 2(1) reg_hosts)
next
  case (3 b u h es)
  show ?case
    using 3(2,3) by (simp add: 3(1) unreg_hosts)
qed simp

lemma replay_counts:
  assumes "k \<noteq> []"
  shows "users (replay reg unreg start es) k = count (bag (\<lambda>u h. u) {#} es) k"
    and "hosts (replay reg unreg start es) k = count (bag (\<lambda>u h. h) {#} es) k"
  using replay_users_from[OF assms, of start "{#}"] replay_hosts_from[OF assms, of start "{#}"]
    start_empty by simp_all

lemma reg_unreg: "users (unreg (reg t u h) u h) k = users t k" "hosts (unreg (reg t u h) u h) k = hosts t k"
  by (simp_all add: reg_users reg_hosts unreg_users unreg_hosts)

end

lemma counted_up: "counted (count_up k m) j = counted m j + (if j = k \<and> k \<noteq> [] then 1 else 0)"
  by (auto simp: count_up_def counted_def)

lemma counted_down: "counted (count_down k m) j = counted m j - (if j = k \<and> k \<noteq> [] then 1 else 0)"
  by (auto simp: count_down_def counted_def split: option.splits)

lemmas tracker_defs = registerSession_def unregisterSession_def getCountForUser_def getCountForHost_def
  new_tracker_def

interpretation tracker: session_counter new_tracker registerSession unregisterSession
  getCountForUser getCountForHost
  by unfold_locales (simp_all add: tracker_defs counted_up counted_down counted_def[of "[]"])

text \<open>No entry is kept at zero, so the maps do not grow with the names of past sessions.\<close>

definition counts_ok :: "(string, nat) std_map \<Rightarrow> bool" where
  "counts_ok m = (sorted_map m \<and> (\<forall>e\<in>set m. fst e \<noteq> [] \<and> 0 < snd e))"

definition tracker_ok :: "session_tracker \<Rightarrow> bool" where
  "tracker_ok t = (counts_ok (count_by_user t) \<and> counts_ok (count_by_host t))"

lemma counts_ok_put: "counts_ok m \<Longrightarrow> k \<noteq> [] \<Longrightarrow> 0 < n \<Longrightarrow> counts_ok (map_put k n m)"
  unfolding counts_ok_def by (fastforce dest: set_map_put intro: sorted_put)

lemma counts_ok_erase: "counts_ok m \<Longrightarrow> counts_ok (map_erase k m)"
  unfolding counts_ok_def by (simp add: sorted_erase) (simp add: map_erase_def)

lemma counts_ok_up: "counts_ok m \<Longrightarrow> counts_ok (count_up k m)"
  by (simp add: count_up_def counts_ok_put)

lemma counts_ok_down: "counts_ok m \<Longrightarrow> counts_ok (count_down k m)"
  by (simp add: count_down_def counts_ok_put counts_ok_erase split: option.split)

lemma tracker_ok_new: "tracker_ok new_tracker"
  by (simp add: tracker_ok_def new_tracker_def counts_ok_def sorted_map_def)

lemma tracker_ok_register: "tracker_ok t \<Longrightarrow> tracker_ok (registerSession t u h)"
  by (simp add: tracker_ok_def registerSession_def counts_ok_up)

lemma tracker_ok_unregister: "tracker_ok t \<Longrightarrow> tracker_ok (unregisterSession t u h)"
  by (simp add: tracker_ok_def unregisterSession_def counts_ok_down)

end
