(* ===== verification/Connection.thy ===== *)
theory Connection
  imports Config Virtual_Hosts Sessions
begin

text \<open>
  The state of \<open>FTPConnection\<close> (\<open>core/connection.hpp\<close>), the environment its system calls
  meet, and the helpers all handlers share: replies, data sockets, path resolution and
  permission checks of \<open>core/connection.cpp\<close>.

  \<^item> \<open>conn\<close> has the fields of the class; the shared file system and session tracker travel with
    it, and the effects seen from outside are recorded: \<open>replies\<close> (with a flag for TLS),
    \<open>data_out\<close> (descriptor and bytes of a data connection), \<open>closed\<close> (descriptors passed to
    \<open>close\<close>), \<open>dialled\<close> (targets of \<open>connect\<close>) and \<open>slept\<close> (milliseconds of throttling).
  \<^item> \<open>env\<close> is what the kernel, the peer, PAM and OpenSSL answer during one command.
  \<^item> A handler returns \<open>conn option\<close>. \<open>None\<close> is an exception nobody catches: it leaves the
    connection's thread function, so the process terminates.
\<close>

subsection \<open>State and environment\<close>

record conn =
  socket_open :: bool
  config :: server_config
  user_manager :: user_manager
  ssl_context :: bool
  pam_auth :: bool
  active :: bool
  authenticated :: bool
  username :: string
  current_user :: "ftp_user option"
  current_directory :: string
  ssl_enabled :: bool
  ssl_active :: bool
  ssl_session :: bool
  passive_listen_socket :: int
  data_socket :: int
  transfer_type :: string
  transfer_mode :: string
  protection_level :: string
  active_mode_ip :: string
  active_mode_port :: int
  active_mode_enabled :: bool
  resume_position :: int
  rename_from_path :: string
  epsv_all :: bool
  utf8_enabled :: bool
  store_unique_name :: string
  virtual_host_manager :: "vhost_manager option"
  current_virtual_host :: "virtual_host option"
  has_tracker :: bool
  session_registered :: bool
  fs :: filesys
  tracker :: session_tracker
  replies :: "(bool \<times> string) list"
  send_calls :: nat
  data_out :: "(int \<times> string) list"
  closed :: "int list"
  dialled :: "(string \<times> int) list"
  slept :: nat

record env =
  reply_sent :: "nat \<Rightarrow> bool"
  listen_fd :: int
  can_bind :: "int \<Rightarrow> bool"
  can_listen :: "int \<Rightarrow> bool"
  peer_waiting :: bool
  accept_fd :: int
  connect_fd :: int
  can_connect :: bool
  received :: "string option list"
  open_ok :: bool
  sendfile_results :: "int list"
  mmap_ok :: bool
  send_results :: "int list"
  io_results :: "(int \<times> int) list"
  zlib_valid :: bool
  zlib :: "nat \<Rightarrow> string \<Rightarrow> bool \<Rightarrow> string option"
  elapsed_ms :: "nat \<Rightarrow> int"
  stray_byte :: "int \<Rightarrow> char"
  clock :: int
  kdf :: kdf
  rand :: "string option"
  pam_available :: bool
  pam_accepts :: "string \<Rightarrow> string \<Rightarrow> bool"
  passwd_dir :: "string \<Rightarrow> string option"
  tls_init_ok :: bool
  tls_create_ok :: bool
  tls_accept_ok :: bool
  chroot_ok :: bool
  mtime_of :: "string \<Rightarrow> int option"
  error_text :: string

subsection \<open>Replies\<close>

definition crlf :: string where
  "crlf = [CHR 0x0D, CHR 0x0A]"

definition custom_reply :: "conn \<Rightarrow> string \<Rightarrow> string" where
  "custom_reply c response =
     (case current_virtual_host c of
        None \<Rightarrow> response
      | Some h \<Rightarrow>
          if 4 \<le> length response \<and> response ! 3 = CHR '' '' then
            (let code = take 3 response; custom = getCustomError h code
             in if custom \<noteq> [] then code @ '' '' @ custom else response)
          else response)"

definition sendResponse :: "env \<Rightarrow> string \<Rightarrow> conn \<Rightarrow> conn" where
  "sendResponse e response c =
     (if \<not> socket_open c then c
      else let full = custom_reply c response @ crlf;
               tls = (ssl_active c \<and> ssl_session c \<and> ssl_context c);
               c' = c\<lparr>send_calls := send_calls c + 1\<rparr>
           in if reply_sent e (send_calls c)
              then c'\<lparr>replies := replies c @ [(tls, full)]\<rparr>
              else c'\<lparr>active := False\<rparr>)"

definition sendResponses :: "env \<Rightarrow> string list \<Rightarrow> conn \<Rightarrow> conn" where
  "sendResponses e rs c = foldl (\<lambda>c r. sendResponse e r c) c rs"

text \<open>The early return of a handler.\<close>

abbreviation reply :: "env \<Rightarrow> string \<Rightarrow> conn \<Rightarrow> conn option" where
  "reply e r c \<equiv> Some (sendResponse e r c)"

subsection \<open>Data sockets\<close>

definition close_fd :: "int \<Rightarrow> conn \<Rightarrow> conn" where
  "close_fd fd c = c\<lparr>closed := closed c @ [fd]\<rparr>"

definition closeDataSocket :: "conn \<Rightarrow> conn" where
  "closeDataSocket c =
     (let c1 = (if 0 \<le> data_socket c
                then (close_fd (data_socket c) c)\<lparr>data_socket := -1\<rparr> else c)
      in if 0 \<le> passive_listen_socket c1
         then (close_fd (passive_listen_socket c1) c1)\<lparr>passive_listen_socket := -1\<rparr> else c1)"

definition createPassiveDataSocket :: "env \<Rightarrow> conn \<Rightarrow> int \<times> conn" where
  "createPassiveDataSocket e c =
     (let c = closeDataSocket c; c = c\<lparr>passive_listen_socket := listen_fd e\<rparr>;
          cc = connection (config c)
      in if listen_fd e < 0 then (-1, c)
         else (case find (\<lambda>port. can_bind e (port mod 2 ^ 16) \<and> can_listen e (port mod 2 ^ 16))
                      [passive_port_range_start cc..passive_port_range_end cc] of
                 Some port \<Rightarrow> (port, c)
               | None \<Rightarrow>
                   (-1, (close_fd (passive_listen_socket c) c)\<lparr>passive_listen_socket := -1\<rparr>)))"

text \<open>\<open>inet_pton(AF_INET, ...)\<close>: four decimal octets up to 255 without leading zeros.\<close>

definition octet :: "string \<Rightarrow> nat option" where
  "octet s =
     (if s \<noteq> [] \<and> (\<forall>c\<in>set s. digit_val 10 c \<noteq> None) \<and> read_digits 10 0 s \<le> 255 \<and>
         (hd s = CHR ''0'' \<longrightarrow> length s = 1)
      then Some (read_digits 10 0 s) else None)"

definition inet_pton :: "string \<Rightarrow> nat list option" where
  "inet_pton s =
     (let os = map octet (split_on CHR ''.'' (takeWhile (\<lambda>c. c \<noteq> CHR 0x00) s))
      in if length os = 4 \<and> None \<notin> set os then Some (map the os) else None)"

definition active_mode_off :: "conn \<Rightarrow> conn" where
  "active_mode_off c = c\<lparr>active_mode_enabled := False, active_mode_ip := [], active_mode_port := 0\<rparr>"

definition connectActiveDataSocket :: "env \<Rightarrow> conn \<Rightarrow> int \<times> conn" where
  "connectActiveDataSocket e c =
     (if active_mode_ip c = [] \<or> active_mode_port c \<le> 0 then (-1, c)
      else let c = c\<lparr>data_socket := connect_fd e\<rparr>
           in if data_socket c < 0 then (-1, c)
              else if inet_pton (active_mode_ip c) = None then
                (-1, active_mode_off ((close_fd (data_socket c) c)\<lparr>data_socket := -1\<rparr>))
              else let c = c\<lparr>dialled := dialled c @
                                 [(active_mode_ip c, active_mode_port c mod 2 ^ 16)]\<rparr>
                   in if \<not> can_connect e then
                        (-1, active_mode_off ((close_fd (data_socket c) c)\<lparr>data_socket := -1\<rparr>))
                      else (data_socket c, active_mode_off c))"

definition acceptDataConnection :: "env \<Rightarrow> conn \<Rightarrow> int \<times> conn" where
  "acceptDataConnection e c =
     (if active_mode_enabled c then connectActiveDataSocket e c
      else if passive_listen_socket c < 0 then (-1, c)
      else if \<not> peer_waiting e then (-1, c)
      else let c = c\<lparr>data_socket := accept_fd e\<rparr>
           in if data_socket c < 0 then (-1, c) else (data_socket c, c))"

definition send_data :: "int \<Rightarrow> string \<Rightarrow> conn \<Rightarrow> conn" where
  "send_data fd bytes c = c\<lparr>data_out := data_out c @ [(fd, bytes)]\<rparr>"

definition formatPassiveResponse :: "int \<Rightarrow> string" where
  "formatPassiveResponse port =
     ''227 Entering Passive Mode (127,0,0,1,'' @ to_string (port div 256) @ '','' @
     to_string (port mod 256) @ '')''"

subsection \<open>Paths and permissions\<close>

definition home_of :: "conn \<Rightarrow> string" where
  "home_of c = (case current_user c of Some u \<Rightarrow> u_home u | None \<Rightarrow> ''/'')"

definition resolvePath :: "conn \<Rightarrow> string \<Rightarrow> string" where
  "resolvePath c path =
     (if path = [] then current_directory c
      else normalizeForComparison (fs c)
             (if is_absolute path then path_append (home_of c) (relative_path path)
              else path_append (current_directory c) path))"

definition isPathWithinHome :: "conn \<Rightarrow> string \<Rightarrow> bool" where
  "isPathWithinHome c path = (case current_user c of
     None \<Rightarrow> False
   | Some u \<Rightarrow> isWithin (normalizeForComparison (fs c) path) (normalizeForComparison (fs c) (u_home u)))"

definition validatePath :: "conn \<Rightarrow> string \<Rightarrow> bool" where
  "validatePath c path =
     (if current_user c = None then False
      else if \<not> isPathWithinHome c path then False
      else (case current_virtual_host c of
              None \<Rightarrow> True
            | Some h \<Rightarrow>
                \<not> (vh_root h \<noteq> [] \<and>
                   \<not> isWithin (normalizeForComparison (fs c) path)
                       (normalizeForComparison (fs c) (vh_root h)))))"

definition hasPermission :: "conn \<Rightarrow> string \<Rightarrow> string \<Rightarrow> bool" where
  "hasPermission c operation path = (case current_user c of
     None \<Rightarrow> False
   | Some u \<Rightarrow>
       user_hasPermission (fs c) u operation
         (if path = [] then current_directory c else resolvePath c path))"

definition compressionEnabled :: "conn \<Rightarrow> bool" where
  "compressionEnabled c = enable_compression (transfer (config c))"

definition transferModeZ :: "conn \<Rightarrow> bool" where
  "transferModeZ c = (transfer_mode c = ''Z'')"

subsection \<open>What the helpers leave alone\<close>

lemma sendResponse_frame [simp]:
  "socket_open (sendResponse e r c) = socket_open c" "config (sendResponse e r c) = config c"
  "user_manager (sendResponse e r c) = user_manager c"
  "ssl_context (sendResponse e r c) = ssl_context c" "pam_auth (sendResponse e r c) = pam_auth c"
  "authenticated (sendResponse e r c) = authenticated c"
  "username (sendResponse e r c) = username c"
  "current_user (sendResponse e r c) = current_user c"
  "current_directory (sendResponse e r c) = current_directory c"
  "ssl_enabled (sendResponse e r c) = ssl_enabled c"
  "ssl_active (sendResponse e r c) = ssl_active c"
  "ssl_session (sendResponse e r c) = ssl_session c"
  "passive_listen_socket (sendResponse e r c) = passive_listen_socket c"
  "data_socket (sendResponse e r c) = data_socket c"
  "transfer_type (sendResponse e r c) = transfer_type c"
  "transfer_mode (sendResponse e r c) = transfer_mode c"
  "protection_level (sendResponse e r c) = protection_level c"
  "active_mode_ip (sendResponse e r c) = active_mode_ip c"
  "active_mode_port (sendResponse e r c) = active_mode_port c"
  "active_mode_enabled (sendResponse e r c) = active_mode_enabled c"
  "resume_position (sendResponse e r c) = resume_position c"
  "rename_from_path (sendResponse e r c) = rename_from_path c"
  "epsv_all (sendResponse e r c) = epsv_all c"
  "utf8_enabled (sendResponse e r c) = utf8_enabled c"
  "store_unique_name (sendResponse e r c) = store_unique_name c"
  "virtual_host_manager (sendResponse e r c) = virtual_host_manager c"
  "current_virtual_host (sendResponse e r c) = current_virtual_host c"
  "has_tracker (sendResponse e r c) = has_tracker c"
  "session_registered (sendResponse e r c) = session_registered c"
  "fs (sendResponse e r c) = fs c" "tracker (sendResponse e r c) = tracker c"
  "data_out (sendResponse e r c) = data_out c" "closed (sendResponse e r c) = closed c"
  "dialled (sendResponse e r c) = dialled c" "slept (sendResponse e r c) = slept c"
  by (simp_all add: sendResponse_def Let_def)

lemma sendResponses_simps [simp]:
  "sendResponses e [] c = c" "sendResponses e (r # rs) c = sendResponses e rs (sendResponse e r c)"
  by (simp_all add: sendResponses_def)

lemma sendResponses_frame [simp]:
  "socket_open (sendResponses e rs c) = socket_open c" "config (sendResponses e rs c) = config c"
  "user_manager (sendResponses e rs c) = user_manager c"
  "ssl_context (sendResponses e rs c) = ssl_context c"
  "pam_auth (sendResponses e rs c) = pam_auth c"
  "authenticated (sendResponses e rs c) = authenticated c"
  "username (sendResponses e rs c) = username c"
  "current_user (sendResponses e rs c) = current_user c"
  "current_directory (sendResponses e rs c) = current_directory c"
  "ssl_enabled (sendResponses e rs c) = ssl_enabled c"
  "ssl_active (sendResponses e rs c) = ssl_active c"
  "ssl_session (sendResponses e rs c) = ssl_session c"
  "passive_listen_socket (sendResponses e rs c) = passive_listen_socket c"
  "data_socket (sendResponses e rs c) = data_socket c"
  "transfer_type (sendResponses e rs c) = transfer_type c"
  "transfer_mode (sendResponses e rs c) = transfer_mode c"
  "protection_level (sendResponses e rs c) = protection_level c"
  "active_mode_ip (sendResponses e rs c) = active_mode_ip c"
  "active_mode_port (sendResponses e rs c) = active_mode_port c"
  "active_mode_enabled (sendResponses e rs c) = active_mode_enabled c"
  "resume_position (sendResponses e rs c) = resume_position c"
  "rename_from_path (sendResponses e rs c) = rename_from_path c"
  "epsv_all (sendResponses e rs c) = epsv_all c"
  "utf8_enabled (sendResponses e rs c) = utf8_enabled c"
  "store_unique_name (sendResponses e rs c) = store_unique_name c"
  "virtual_host_manager (sendResponses e rs c) = virtual_host_manager c"
  "current_virtual_host (sendResponses e rs c) = current_virtual_host c"
  "has_tracker (sendResponses e rs c) = has_tracker c"
  "session_registered (sendResponses e rs c) = session_registered c"
  "fs (sendResponses e rs c) = fs c" "tracker (sendResponses e rs c) = tracker c"
  "data_out (sendResponses e rs c) = data_out c" "closed (sendResponses e rs c) = closed c"
  "dialled (sendResponses e rs c) = dialled c" "slept (sendResponses e rs c) = slept c"
  by (induction rs arbitrary: c) simp_all

lemma closeDataSocket_frame [simp]:
  "socket_open (closeDataSocket c) = socket_open c" "config (closeDataSocket c) = config c"
  "user_manager (closeDataSocket c) = user_manager c"
  "ssl_context (closeDataSocket c) = ssl_context c" "pam_auth (closeDataSocket c) = pam_auth c"
  "active (closeDataSocket c) = active c" "authenticated (closeDataSocket c) = authenticated c"
  "username (closeDataSocket c) = username c" "current_user (closeDataSocket c) = current_user c"
  "current_directory (closeDataSocket c) = current_directory c"
  "ssl_enabled (closeDataSocket c) = ssl_enabled c"
  "ssl_active (closeDataSocket c) = ssl_active c"
  "ssl_session (closeDataSocket c) = ssl_session c"
  "transfer_type (closeDataSocket c) = transfer_type c"
  "transfer_mode (closeDataSocket c) = transfer_mode c"
  "protection_level (closeDataSocket c) = protection_level c"
  "active_mode_ip (closeDataSocket c) = active_mode_ip c"
  "active_mode_port (closeDataSocket c) = active_mode_port c"
  "active_mode_enabled (closeDataSocket c) = active_mode_enabled c"
  "resume_position (closeDataSocket c) = resume_position c"
  "rename_from_path (closeDataSocket c) = rename_from_path c"
  "epsv_all (closeDataSocket c) = epsv_all c" "utf8_enabled (closeDataSocket c) = utf8_enabled c"
  "store_unique_name (closeDataSocket c) = store_unique_name c"
  "virtual_host_manager (closeDataSocket c) = virtual_host_manager c"
  "current_virtual_host (closeDataSocket c) = current_virtual_host c"
  "has_tracker (closeDataSocket c) = has_tracker c"
  "session_registered (closeDataSocket c) = session_registered c" "fs (closeDataSocket c) = fs c"
  "tracker (closeDataSocket c) = tracker c" "replies (closeDataSocket c) = replies c"
  "send_calls (closeDataSocket c) = send_calls c" "data_out (closeDataSocket c) = data_out c"
  "dialled (closeDataSocket c) = dialled c" "slept (closeDataSocket c) = slept c"
  by (simp_all add: closeDataSocket_def close_fd_def Let_def)

lemma close_fd_frame [simp]:
  "socket_open (close_fd fd c) = socket_open c" "config (close_fd fd c) = config c"
  "user_manager (close_fd fd c) = user_manager c" "ssl_context (close_fd fd c) = ssl_context c"
  "pam_auth (close_fd fd c) = pam_auth c" "active (close_fd fd c) = active c"
  "authenticated (close_fd fd c) = authenticated c" "username (close_fd fd c) = username c"
  "current_user (close_fd fd c) = current_user c"
  "current_directory (close_fd fd c) = current_directory c"
  "ssl_enabled (close_fd fd c) = ssl_enabled c" "ssl_active (close_fd fd c) = ssl_active c"
  "ssl_session (close_fd fd c) = ssl_session c"
  "passive_listen_socket (close_fd fd c) = passive_listen_socket c"
  "data_socket (close_fd fd c) = data_socket c" "transfer_type (close_fd fd c) = transfer_type c"
  "transfer_mode (close_fd fd c) = transfer_mode c"
  "protection_level (close_fd fd c) = protection_level c"
  "active_mode_ip (close_fd fd c) = active_mode_ip c"
  "active_mode_port (close_fd fd c) = active_mode_port c"
  "active_mode_enabled (close_fd fd c) = active_mode_enabled c"
  "resume_position (close_fd fd c) = resume_position c"
  "rename_from_path (close_fd fd c) = rename_from_path c" "epsv_all (close_fd fd c) = epsv_all c"
  "utf8_enabled (close_fd fd c) = utf8_enabled c"
  "store_unique_name (close_fd fd c) = store_unique_name c"
  "virtual_host_manager (close_fd fd c) = virtual_host_manager c"
  "current_virtual_host (close_fd fd c) = current_virtual_host c"
  "has_tracker (close_fd fd c) = has_tracker c"
  "session_registered (close_fd fd c) = session_registered c" "fs (close_fd fd c) = fs c"
  "tracker (close_fd fd c) = tracker c" "replies (close_fd fd c) = replies c"
  "send_calls (close_fd fd c) = send_calls c" "data_out (close_fd fd c) = data_out c"
  "dialled (close_fd fd c) = dialled c" "slept (close_fd fd c) = slept c"
  by (simp_all add: close_fd_def)

lemma send_data_frame [simp]:
  "socket_open (send_data fd d c) = socket_open c" "config (send_data fd d c) = config c"
  "user_manager (send_data fd d c) = user_manager c"
  "ssl_context (send_data fd d c) = ssl_context c" "pam_auth (send_data fd d c) = pam_auth c"
  "active (send_data fd d c) = active c" "authenticated (send_data fd d c) = authenticated c"
  "username (send_data fd d c) = username c" "current_user (send_data fd d c) = current_user c"
  "current_directory (send_data fd d c) = current_directory c"
  "ssl_enabled (send_data fd d c) = ssl_enabled c" "ssl_active (send_data fd d c) = ssl_active c"
  "ssl_session (send_data fd d c) = ssl_session c"
  "passive_listen_socket (send_data fd d c) = passive_listen_socket c"
  "data_socket (send_data fd d c) = data_socket c"
  "transfer_type (send_data fd d c) = transfer_type c"
  "transfer_mode (send_data fd d c) = transfer_mode c"
  "protection_level (send_data fd d c) = protection_level c"
  "active_mode_ip (send_data fd d c) = active_mode_ip c"
  "active_mode_port (send_data fd d c) = active_mode_port c"
  "active_mode_enabled (send_data fd d c) = active_mode_enabled c"
  "resume_position (send_data fd d c) = resume_position c"
  "rename_from_path (send_data fd d c) = rename_from_path c"
  "epsv_all (send_data fd d c) = epsv_all c" "utf8_enabled (send_data fd d c) = utf8_enabled c"
  "store_unique_name (send_data fd d c) = store_unique_name c"
  "virtual_host_manager (send_data fd d c) = virtual_host_manager c"
  "current_virtual_host (send_data fd d c) = current_virtual_host c"
  "has_tracker (send_data fd d c) = has_tracker c"
  "session_registered (send_data fd d c) = session_registered c" "fs (send_data fd d c) = fs c"
  "tracker (send_data fd d c) = tracker c" "replies (send_data fd d c) = replies c"
  "send_calls (send_data fd d c) = send_calls c" "closed (send_data fd d c) = closed c"
  "dialled (send_data fd d c) = dialled c" "slept (send_data fd d c) = slept c"
  by (simp_all add: send_data_def)

lemma createPassive_frame [simp]:
  "socket_open (snd (createPassiveDataSocket e c)) = socket_open c"
  "config (snd (createPassiveDataSocket e c)) = config c"
  "user_manager (snd (createPassiveDataSocket e c)) = user_manager c"
  "ssl_context (snd (createPassiveDataSocket e c)) = ssl_context c"
  "pam_auth (snd (createPassiveDataSocket e c)) = pam_auth c"
  "active (snd (createPassiveDataSocket e c)) = active c"
  "authenticated (snd (createPassiveDataSocket e c)) = authenticated c"
  "username (snd (createPassiveDataSocket e c)) = username c"
  "current_user (snd (createPassiveDataSocket e c)) = current_user c"
  "current_directory (snd (createPassiveDataSocket e c)) = current_directory c"
  "ssl_enabled (snd (createPassiveDataSocket e c)) = ssl_enabled c"
  "ssl_active (snd (createPassiveDataSocket e c)) = ssl_active c"
  "ssl_session (snd (createPassiveDataSocket e c)) = ssl_session c"
  "transfer_type (snd (createPassiveDataSocket e c)) = transfer_type c"
  "transfer_mode (snd (createPassiveDataSocket e c)) = transfer_mode c"
  "protection_level (snd (createPassiveDataSocket e c)) = protection_level c"
  "active_mode_ip (snd (createPassiveDataSocket e c)) = active_mode_ip c"
  "active_mode_port (snd (createPassiveDataSocket e c)) = active_mode_port c"
  "active_mode_enabled (snd (createPassiveDataSocket e c)) = active_mode_enabled c"
  "resume_position (snd (createPassiveDataSocket e c)) = resume_position c"
  "rename_from_path (snd (createPassiveDataSocket e c)) = rename_from_path c"
  "epsv_all (snd (createPassiveDataSocket e c)) = epsv_all c"
  "utf8_enabled (snd (createPassiveDataSocket e c)) = utf8_enabled c"
  "store_unique_name (snd (createPassiveDataSocket e c)) = store_unique_name c"
  "virtual_host_manager (snd (createPassiveDataSocket e c)) = virtual_host_manager c"
  "current_virtual_host (snd (createPassiveDataSocket e c)) = current_virtual_host c"
  "has_tracker (snd (createPassiveDataSocket e c)) = has_tracker c"
  "session_registered (snd (createPassiveDataSocket e c)) = session_registered c"
  "fs (snd (createPassiveDataSocket e c)) = fs c"
  "tracker (snd (createPassiveDataSocket e c)) = tracker c"
  "replies (snd (createPassiveDataSocket e c)) = replies c"
  "send_calls (snd (createPassiveDataSocket e c)) = send_calls c"
  "data_out (snd (createPassiveDataSocket e c)) = data_out c"
  "dialled (snd (createPassiveDataSocket e c)) = dialled c"
  "slept (snd (createPassiveDataSocket e c)) = slept c"
  by (simp_all add: createPassiveDataSocket_def Let_def split: option.split)

lemma connectActive_frame [simp]:
  "socket_open (snd (connectActiveDataSocket e c)) = socket_open c"
  "config (snd (connectActiveDataSocket e c)) = config c"
  "user_manager (snd (connectActiveDataSocket e c)) = user_manager c"
  "ssl_context (snd (connectActiveDataSocket e c)) = ssl_context c"
  "pam_auth (snd (connectActiveDataSocket e c)) = pam_auth c"
  "active (snd (connectActiveDataSocket e c)) = active c"
  "authenticated (snd (connectActiveDataSocket e c)) = authenticated c"
  "username (snd (connectActiveDataSocket e c)) = username c"
  "current_user (snd (connectActiveDataSocket e c)) = current_user c"
  "current_directory (snd (connectActiveDataSocket e c)) = current_directory c"
  "ssl_enabled (snd (connectActiveDataSocket e c)) = ssl_enabled c"
  "ssl_active (snd (connectActiveDataSocket e c)) = ssl_active c"
  "ssl_session (snd (connectActiveDataSocket e c)) = ssl_session c"
  "passive_listen_socket (snd (connectActiveDataSocket e c)) = passive_listen_socket c"
  "transfer_type (snd (connectActiveDataSocket e c)) = transfer_type c"
  "transfer_mode (snd (connectActiveDataSocket e c)) = transfer_mode c"
  "protection_level (snd (connectActiveDataSocket e c)) = protection_level c"
  "resume_position (snd (connectActiveDataSocket e c)) = resume_position c"
  "rename_from_path (snd (connectActiveDataSocket e c)) = rename_from_path c"
  "epsv_all (snd (connectActiveDataSocket e c)) = epsv_all c"
  "utf8_enabled (snd (connectActiveDataSocket e c)) = utf8_enabled c"
  "store_unique_name (snd (connectActiveDataSocket e c)) = store_unique_name c"
  "virtual_host_manager (snd (connectActiveDataSocket e c)) = virtual_host_manager c"
  "current_virtual_host (snd (connectActiveDataSocket e c)) = current_virtual_host c"
  "has_tracker (snd (connectActiveDataSocket e c)) = has_tracker c"
  "session_registered (snd (connectActiveDataSocket e c)) = session_registered c"
  "fs (snd (connectActiveDataSocket e c)) = fs c"
  "tracker (snd (connectActiveDataSocket e c)) = tracker c"
  "replies (snd (connectActiveDataSocket e c)) = replies c"
  "send_calls (snd (connectActiveDataSocket e c)) = send_calls c"
  "data_out (snd (connectActiveDataSocket e c)) = data_out c"
  "slept (snd (connectActiveDataSocket e c)) = slept c"
  by (simp_all add: connectActiveDataSocket_def active_mode_off_def Let_def)

lemma acceptData_frame [simp]:
  "socket_open (snd (acceptDataConnection e c)) = socket_open c"
  "config (snd (acceptDataConnection e c)) = config c"
  "user_manager (snd (acceptDataConnection e c)) = user_manager c"
  "ssl_context (snd (acceptDataConnection e c)) = ssl_context c"
  "pam_auth (snd (acceptDataConnection e c)) = pam_auth c"
  "active (snd (acceptDataConnection e c)) = active c"
  "authenticated (snd (acceptDataConnection e c)) = authenticated c"
  "username (snd (acceptDataConnection e c)) = username c"
  "current_user (snd (acceptDataConnection e c)) = current_user c"
  "current_directory (snd (acceptDataConnection e c)) = current_directory c"
  "ssl_enabled (snd (acceptDataConnection e c)) = ssl_enabled c"
  "ssl_active (snd (acceptDataConnection e c)) = ssl_active c"
  "ssl_session (snd (acceptDataConnection e c)) = ssl_session c"
  "passive_listen_socket (snd (acceptDataConnection e c)) = passive_listen_socket c"
  "transfer_type (snd (acceptDataConnection e c)) = transfer_type c"
  "transfer_mode (snd (acceptDataConnection e c)) = transfer_mode c"
  "protection_level (snd (acceptDataConnection e c)) = protection_level c"
  "resume_position (snd (acceptDataConnection e c)) = resume_position c"
  "rename_from_path (snd (acceptDataConnection e c)) = rename_from_path c"
  "epsv_all (snd (acceptDataConnection e c)) = epsv_all c"
  "utf8_enabled (snd (acceptDataConnection e c)) = utf8_enabled c"
  "store_unique_name (snd (acceptDataConnection e c)) = store_unique_name c"
  "virtual_host_manager (snd (acceptDataConnection e c)) = virtual_host_manager c"
  "current_virtual_host (snd (acceptDataConnection e c)) = current_virtual_host c"
  "has_tracker (snd (acceptDataConnection e c)) = has_tracker c"
  "session_registered (snd (acceptDataConnection e c)) = session_registered c"
  "fs (snd (acceptDataConnection e c)) = fs c"
  "tracker (snd (acceptDataConnection e c)) = tracker c"
  "replies (snd (acceptDataConnection e c)) = replies c"
  "send_calls (snd (acceptDataConnection e c)) = send_calls c"
  "data_out (snd (acceptDataConnection e c)) = data_out c"
  "slept (snd (acceptDataConnection e c)) = slept c"
  by (simp_all add: acceptDataConnection_def Let_def)

text \<open>Path resolution and the permission checks look at the file system and four fields only.\<close>

lemma resolvePath_cong:
  "fs c = fs c' \<Longrightarrow> current_user c = current_user c' \<Longrightarrow>
   current_directory c = current_directory c' \<Longrightarrow> resolvePath c p = resolvePath c' p"
  by (simp add: resolvePath_def home_of_def)

lemma validatePath_cong:
  "fs c = fs c' \<Longrightarrow> current_user c = current_user c' \<Longrightarrow>
   current_virtual_host c = current_virtual_host c' \<Longrightarrow> validatePath c p = validatePath c' p"
  by (cases "current_virtual_host c'"; cases "current_user c'") (simp_all add: validatePath_def isPathWithinHome_def)

lemma validatePath_home: "validatePath c p \<Longrightarrow> isPathWithinHome c p"
  by (simp add: validatePath_def split: if_splits)

lemma validatePath_user: "validatePath c p \<Longrightarrow> \<exists>u. current_user c = Some u"
  by (auto simp: validatePath_def split: if_splits)

end
