(* ===== verification/Login.thy ===== *)
theory Login
  imports Connection
begin

text \<open>
  The handlers of \<open>core/connection.cpp\<close> that decide who the client is and how the control
  connection is protected: \<open>USER\<close>, \<open>PASS\<close>, \<open>HOST\<close>, \<open>AUTH\<close>, \<open>PBSZ\<close>, \<open>PROT\<close>, \<open>QUIT\<close>, with
  \<open>applyChroot\<close>, \<open>upgradeToSSL\<close> and \<open>stop\<close>. PAM, \<open>getpwnam\<close> and OpenSSL answer through \<open>env\<close>.
\<close>

definition handleUSER :: "env \<Rightarrow> string \<Rightarrow> conn \<Rightarrow> conn option" where
  "handleUSER e name c =
     reply e ''331 User name okay, need password'' (c\<lparr>username := name, authenticated := False\<rparr>)"

subsection \<open>PASS\<close>

definition auth_manager :: "conn \<Rightarrow> user_manager" where
  "auth_manager c = (case current_virtual_host c of
     None \<Rightarrow> user_manager c
   | Some h \<Rightarrow> (case vh_users h of None \<Rightarrow> user_manager c | Some m \<Rightarrow> m))"

definition pam_home :: "env \<Rightarrow> conn \<Rightarrow> string" where
  "pam_home e c =
     (let home = (case passwd_dir e (username c) of None \<Rightarrow> [] | Some d \<Rightarrow> d)
      in if home \<noteq> [] then home
         else (case current_user c of
                 Some u \<Rightarrow> u_home u
               | None \<Rightarrow>
                   if chroot_directory (security (config c)) \<noteq> []
                   then chroot_directory (security (config c)) else ''/tmp''))"

text \<open>The credential check: the account of the selected table, then PAM.\<close>

definition check_password :: "env \<Rightarrow> string \<Rightarrow> conn \<Rightarrow> bool \<times> conn" where
  "check_password e password c =
     (let c = c\<lparr>current_user := getUser (auth_manager c) (username c)\<rparr>
      in if (case current_user c of
               None \<Rightarrow> False | Some u \<Rightarrow> authenticate (kdf e) (clock e) u password)
         then (True, c)
         else if pam_auth c \<and> pam_available e then
           (if pam_accepts e (username c) password then
              (True, c\<lparr>current_user :=
                         Some (new_user (kdf e) (rand e) (username c) password (pam_home e c))\<rparr>)
            else (False, c))
         else (False, c))"

definition vhost_name :: "conn \<Rightarrow> string" where
  "vhost_name c = (case current_virtual_host c of None \<Rightarrow> [] | Some h \<Rightarrow> vh_hostname h)"

definition session_limit_reply :: "conn \<Rightarrow> string option" where
  "session_limit_reply c =
     (if \<not> has_tracker c then None
      else if 0 < max_sessions_per_user (security (config c)) \<and>
              nat (max_sessions_per_user (security (config c))) \<le> getCountForUser (tracker c) (username c)
      then Some ''530 Too many sessions for user''
      else (case current_virtual_host c of
              None \<Rightarrow> None
            | Some h \<Rightarrow>
                if 0 < vh_max_sessions h \<and>
                   nat (vh_max_sessions h) \<le> getCountForHost (tracker c) (vh_hostname h)
                then Some ''530 Too many sessions for this host'' else None))"

definition applyChroot :: "env \<Rightarrow> conn \<Rightarrow> conn option" where
  "applyChroot e c =
     (let sc = security (config c); dir = chroot_directory sc
      in if chroot_enabled sc \<and> dir \<noteq> [] then
           (case fs_exists (fs c) dir of
              None \<Rightarrow> None
            | Some False \<Rightarrow> Some c
            | Some True \<Rightarrow>
                (case (if chroot_ok e then fs_chroot (fs c) dir else None) of
                   None \<Rightarrow> Some c
                 | Some fs' \<Rightarrow>
                     let rest = drop (length dir) (current_directory c);
                         cd = (if prefix dir (current_directory c)
                               then (if is_absolute rest then rest else ''/'' @ rest) else ''/'')
                     in Some (c\<lparr>fs := fs', current_directory := cd\<rparr>)))
         else Some c)"

definition handlePASS :: "env \<Rightarrow> string \<Rightarrow> conn \<Rightarrow> conn option" where
  "handlePASS e password c =
     (if username c = [] then reply e ''503 Login with USER first'' c
      else let (ok, c) = check_password e password c
           in if \<not> ok then reply e ''530 Login incorrect'' c
              else (case session_limit_reply c of
                      Some r \<Rightarrow> reply e r c
                    | None \<Rightarrow>
                        let c = c\<lparr>authenticated := True, current_directory := home_of c\<rparr>;
                            sc = security (config c)
                        in (case (if chroot_enabled sc \<and> chroot_directory sc \<noteq> []
                                  then applyChroot e c else Some c) of
                              None \<Rightarrow> None
                            | Some c \<Rightarrow>
                                let c = (if has_tracker c
                                         then c\<lparr>tracker := registerSession (tracker c) (username c) (vhost_name c),
                                                session_registered := True\<rparr>
                                         else c)
                                in reply e ''230 User logged in, proceed'' c)))"

definition handleQUIT :: "env \<Rightarrow> conn \<Rightarrow> conn option" where
  "handleQUIT e c = Some ((sendResponse e ''221 Goodbye'' c)\<lparr>active := False\<rparr>)"

definition handleHOST :: "env \<Rightarrow> string \<Rightarrow> conn \<Rightarrow> conn option" where
  "handleHOST e hostname c =
     (if hostname = [] then reply e ''501 HOST requires hostname'' c
      else (case virtual_host_manager c of
              None \<Rightarrow> reply e ''502 Virtual hosting not configured'' c
            | Some m \<Rightarrow>
                (case getVirtualHost m hostname of
                   None \<Rightarrow> reply e (''550 Virtual host not found or disabled: '' @ hostname) c
                 | Some host \<Rightarrow>
                     if \<not> vh_enabled host
                     then reply e (''550 Virtual host not found or disabled: '' @ hostname) c
                     else reply e (''220 Virtual host accepted: '' @ hostname)
                            (c\<lparr>current_virtual_host := Some host\<rparr>))))"

subsection \<open>TLS on the control connection\<close>

definition upgradeToSSL :: "env \<Rightarrow> conn \<Rightarrow> bool \<times> conn" where
  "upgradeToSSL e c =
     (if \<not> ssl_context c \<or> \<not> ssl_enabled c then (False, c)
      else if \<not> tls_create_ok e then (False, c\<lparr>ssl_session := False\<rparr>)
      else if \<not> tls_accept_ok e then (False, c\<lparr>ssl_session := False\<rparr>)
      else (True, c\<lparr>ssl_session := True\<rparr>))"

definition handleAUTH :: "env \<Rightarrow> string \<Rightarrow> conn \<Rightarrow> conn option" where
  "handleAUTH e method c =
     (let m = to_upper method
      in if m = ''TLS'' \<or> m = ''SSL'' then
           (if ssl_active c then reply e ''534 SSL/TLS already active'' c
            else let c = (case current_virtual_host c of
                            None \<Rightarrow> c
                          | Some h \<Rightarrow>
                              if vh_ssl_cert h \<noteq> [] \<and> vh_ssl_key h \<noteq> [] then
                                (let c = c\<lparr>ssl_context := True\<rparr>
                                 in if tls_init_ok e then c\<lparr>ssl_enabled := True\<rparr> else c)
                              else c)
                 in if \<not> ssl_enabled c \<or> \<not> ssl_context c
                    then reply e ''534 SSL/TLS not available'' c
                    else (case upgradeToSSL e (sendResponse e ''234 AUTH TLS successful'' c) of
                            (False, c) \<Rightarrow> Some (c\<lparr>active := False\<rparr>)
                          | (True, c) \<Rightarrow> Some (c\<lparr>ssl_active := True\<rparr>)))
         else reply e ''504 Unsupported AUTH method'' c)"

definition handlePBSZ :: "env \<Rightarrow> string \<Rightarrow> conn \<Rightarrow> conn option" where
  "handlePBSZ e sz c =
     (if \<not> ssl_active c then reply e ''503 PBSZ command only valid in secure mode'' c
      else reply e ''200 PBSZ=0'' c)"

definition handlePROT :: "env \<Rightarrow> string \<Rightarrow> conn \<Rightarrow> conn option" where
  "handlePROT e level c =
     (if \<not> ssl_active c then reply e ''503 PROT command only valid in secure mode'' c
      else let l = to_upper level
           in if l = ''C'' \<or> l = ''CLEAR'' then
                reply e ''200 Protection level set to Clear'' (c\<lparr>protection_level := ''C''\<rparr>)
              else if l = ''P'' \<or> l = ''PRIVATE'' then
                reply e ''200 Protection level set to Private'' (c\<lparr>protection_level := ''P''\<rparr>)
              else if l = ''S'' \<or> l = ''SAFE'' then
                reply e ''200 Protection level set to Safe'' (c\<lparr>protection_level := ''S''\<rparr>)
              else if l = ''E'' \<or> l = ''CONFIDENTIAL'' then
                reply e ''200 Protection level set to Confidential'' (c\<lparr>protection_level := ''E''\<rparr>)
              else reply e ''504 Unsupported protection level'' c)"

subsection \<open>Closing a connection\<close>

definition stop :: "conn \<Rightarrow> conn" where
  "stop c =
     (let c = (if has_tracker c \<and> session_registered c
               then c\<lparr>tracker := unregisterSession (tracker c) (username c) (vhost_name c),
                      session_registered := False\<rparr>
               else c);
          c = c\<lparr>active := False\<rparr>;
          c = (if ssl_context c \<and> ssl_session c then c\<lparr>ssl_session := False\<rparr> else c);
          c = closeDataSocket c
      in c\<lparr>socket_open := False\<rparr>)"

end
