(* ===== verification/Listing.thy ===== *)
theory Listing
  imports Connection
begin

text \<open>
  The handlers of \<open>core/connection.cpp\<close> that look around: \<open>PWD\<close>, \<open>CWD\<close>, \<open>CDUP\<close>, \<open>LIST\<close>,
  \<open>MLSD\<close>, \<open>MLST\<close>, \<open>MDTM\<close>, \<open>STAT\<close>, \<open>SIZE\<close>, with \<open>buildMachineFacts\<close> and the time stamps of
  \<open>fileModifiedTimeUtc\<close> (\<open>gmtime_r\<close> on the proleptic Gregorian calendar).
\<close>

subsection \<open>Moving\<close>

definition handlePWD :: "env \<Rightarrow> conn \<Rightarrow> conn option" where
  "handlePWD e c = reply e (''257 \"'' @ current_directory c @ ''\"'') c"

definition handleCWD :: "env \<Rightarrow> string \<Rightarrow> conn \<Rightarrow> conn option" where
  "handleCWD e path c =
     (let new_path = resolvePath c path
      in if \<not> validatePath c new_path then reply e ''550 Invalid path'' c
         else (case fs_exists (fs c) new_path of
                 None \<Rightarrow> None
               | Some False \<Rightarrow> reply e ''550 Failed to change directory'' c
               | Some True \<Rightarrow>
                   (case fs_is_directory (fs c) new_path of
                      None \<Rightarrow> None
                    | Some True \<Rightarrow>
                        reply e ''250 CWD command successful'' (c\<lparr>current_directory := new_path\<rparr>)
                    | Some False \<Rightarrow> reply e ''550 Failed to change directory'' c)))"

definition handleCDUP :: "env \<Rightarrow> conn \<Rightarrow> conn option" where
  "handleCDUP e c =
     (let parent = resolvePath c ''..''
      in if \<not> validatePath c parent then reply e ''550 Invalid path'' c
         else if \<not> is_directory_ec (fs c) parent then reply e ''550 Failed to change directory'' c
         else reply e ''250 CDUP command successful'' (c\<lparr>current_directory := parent\<rparr>))"

subsection \<open>LIST\<close>

definition list_line :: "bool \<Rightarrow> nat \<Rightarrow> string \<Rightarrow> string" where
  "list_line dir sz name =
     (if dir then ''d'' else ''-'') @ ''rw-rw-rw- 1 owner group '' @ to_string (int sz) @ '' '' @
     name @ crlf"

text \<open>One directory entry. \<open>None\<close> is an exception of \<open>status()\<close> or \<open>file_size\<close>, which the
  handler catches.\<close>

definition list_entry :: "filesys \<Rightarrow> string \<Rightarrow> string \<Rightarrow> string option" where
  "list_entry fsys dir name =
     (let p = path_append dir name
      in case status fsys p of
           FNone \<Rightarrow> None
         | FDir \<Rightarrow> Some (list_line True 0 name)
         | _ \<Rightarrow> (case file_size fsys p of None \<Rightarrow> None | Some n \<Rightarrow> Some (list_line False n name)))"

fun list_entries :: "filesys \<Rightarrow> string \<Rightarrow> string list \<Rightarrow> string option" where
  "list_entries fsys dir [] = Some []"
| "list_entries fsys dir (name # names) =
     (case list_entry fsys dir name of
        None \<Rightarrow> None
      | Some l \<Rightarrow> (case list_entries fsys dir names of None \<Rightarrow> None | Some ls \<Rightarrow> Some (l @ ls)))"

definition finish_listing :: "env \<Rightarrow> int \<Rightarrow> string \<Rightarrow> conn \<Rightarrow> conn option" where
  "finish_listing e fd listing c =
     reply e ''226 Transfer complete'' (close_fd fd (send_data fd listing c))"

definition handleLIST :: "env \<Rightarrow> string \<Rightarrow> conn \<Rightarrow> conn option" where
  "handleLIST e path c =
     (if \<not> hasPermission c ''list'' [] then reply e ''550 Permission denied'' c
      else let list_path = (if path = [] then current_directory c else resolvePath c path)
           in if \<not> validatePath c list_path then reply e ''550 Invalid path'' c
              else (case fs_exists (fs c) list_path of
                 None \<Rightarrow> None
               | Some False \<Rightarrow> reply e ''550 File or directory not found'' c
               | Some True \<Rightarrow>
                   let (fd, c) = acceptDataConnection e
                         (sendResponse e ''150 Opening ASCII mode data connection for file list'' c)
                   in if fd < 0 then reply e ''425 Can't open data connection'' c
                      else (case fs_is_directory (fs c) list_path of
                              None \<Rightarrow> None
                            | Some True \<Rightarrow>
                                (case (case directory_entries (fs c) list_path of
                                         None \<Rightarrow> None
                                       | Some names \<Rightarrow> list_entries (fs c) list_path names) of
                                   None \<Rightarrow> reply e ''550 Error listing directory'' (close_fd fd c)
                                 | Some listing \<Rightarrow> finish_listing e fd listing c)
                            | Some False \<Rightarrow>
                                (case file_size (fs c) list_path of
                                   None \<Rightarrow> None
                                 | Some n \<Rightarrow>
                                     finish_listing e fd (list_line False n (filename list_path)) c))))"

subsection \<open>Time stamps\<close>

text \<open>The civil date of a day number counted from 1970-01-01.\<close>

definition civil_from_days :: "int \<Rightarrow> int \<times> int \<times> int" where
  "civil_from_days days =
     (let z = days + 719468;
          era = z div 146097;
          doe = z mod 146097;
          yoe = (doe - doe div 1460 + doe div 36524 - doe div 146096) div 365;
          doy = doe - (365 * yoe + yoe div 4 - yoe div 100);
          mp = (5 * doy + 2) div 153;
          d = doy - (153 * mp + 2) div 5 + 1;
          m = (if mp < 10 then mp + 3 else mp - 9)
      in (yoe + era * 400 + (if m \<le> 2 then 1 else 0), m, d))"

definition two_digits :: "int \<Rightarrow> string" where
  "two_digits n = (if n < 10 then ''0'' @ to_string n else to_string n)"

definition format_utc :: "int \<Rightarrow> string" where
  "format_utc t =
     (let (y, m, d) = civil_from_days (t div 86400); s = t mod 86400
      in to_string y @ two_digits m @ two_digits d @ two_digits (s div 3600) @
         two_digits (s mod 3600 div 60) @ two_digits (s mod 60))"

text \<open>The buffer of 16 bytes holds 15 characters.\<close>

definition fileModifiedTimeUtc :: "env \<Rightarrow> filesys \<Rightarrow> string \<Rightarrow> string option" where
  "fileModifiedTimeUtc e fsys path =
     (if \<not> exists_ec fsys path then None
      else (case mtime_of e path of
              None \<Rightarrow> None
            | Some t \<Rightarrow> if length (format_utc t) \<le> 15 then Some (format_utc t) else None))"

subsection \<open>Machine listings\<close>

definition buildMachineFacts :: "env \<Rightarrow> conn \<Rightarrow> string \<Rightarrow> string \<Rightarrow> string" where
  "buildMachineFacts e c path name =
     (let dir = is_directory_ec (fs c) path;
          size_fact = (if dir then []
                       else (case file_size (fs c) path of
                               None \<Rightarrow> [] | Some n \<Rightarrow> ''size='' @ to_string (int n) @ '';''));
          modify_fact = (case fileModifiedTimeUtc e (fs c) path of
                           None \<Rightarrow> [] | Some t \<Rightarrow> ''modify='' @ t @ '';'');
          writable = (case current_user c of
                        None \<Rightarrow> False | Some u \<Rightarrow> user_hasPermission (fs c) u ''write'' path);
          perm = (if dir then (if writable then ''elcmpd'' else ''el'')
                  else (if writable then ''adfrw'' else ''r''))
      in ''type='' @ (if dir then ''dir'' else ''file'') @ '';'' @ size_fact @ modify_fact @
         ''perm='' @ perm @ '';'' @ '' '' @ name)"

definition machine_lines :: "env \<Rightarrow> conn \<Rightarrow> string \<Rightarrow> string list \<Rightarrow> string list" where
  "machine_lines e c dir names =
     map (\<lambda>n. buildMachineFacts e c (path_append dir n) n) names"

definition handleMLSD :: "env \<Rightarrow> string \<Rightarrow> conn \<Rightarrow> conn option" where
  "handleMLSD e path c =
     (if \<not> hasPermission c ''list'' path then reply e ''550 Permission denied'' c
      else let target = (if path = [] then current_directory c else resolvePath c path)
           in if \<not> validatePath c target then reply e ''550 Invalid path'' c
              else if \<not> is_directory_ec (fs c) target then reply e ''550 Not a directory'' c
              else let (fd, c) = acceptDataConnection e
                         (sendResponse e ''150 Opening data connection for MLSD'' c)
                   in if fd < 0 then reply e ''425 Can't open data connection'' c
                      else (case directory_entries (fs c) target of
                              None \<Rightarrow> reply e ''550 Error listing directory'' (close_fd fd c)
                            | Some names \<Rightarrow>
                                finish_listing e fd
                                  (concat (map (\<lambda>l. l @ crlf) (machine_lines e c target names))) c))"

definition handleMLST :: "env \<Rightarrow> string \<Rightarrow> conn \<Rightarrow> conn option" where
  "handleMLST e path c =
     (let target = (if path = [] then current_directory c else resolvePath c path)
      in if \<not> validatePath c target then reply e ''550 Invalid path'' c
         else if \<not> exists_ec (fs c) target then reply e ''550 File or directory not found'' c
         else let name = (if path = [] then current_directory c else path)
              in Some (sendResponses e
                   [''250-Listing '' @ name, '' '' @ buildMachineFacts e c target name, ''250 End''] c))"

definition handleMDTM :: "env \<Rightarrow> string \<Rightarrow> conn \<Rightarrow> conn option" where
  "handleMDTM e name c =
     (if name = [] then reply e ''501 MDTM requires a file name'' c
      else let filepath = resolvePath c name
           in if \<not> validatePath c filepath then reply e ''550 Invalid path'' c
              else if \<not> exists_ec (fs c) filepath then reply e ''550 File not found'' c
              else (case fileModifiedTimeUtc e (fs c) filepath of
                      None \<Rightarrow> reply e ''550 Could not determine modification time'' c
                    | Some modify \<Rightarrow> reply e (''213 '' @ modify) c))"

definition handleSTAT :: "env \<Rightarrow> string \<Rightarrow> conn \<Rightarrow> conn option" where
  "handleSTAT e argument c =
     (if argument = [] then
        Some (sendResponses e
          [''211-simple-sftpd status'',
           '' Logged in as: '' @ (if username c = [] then ''(none)'' else username c),
           '' Current directory: '' @ current_directory c,
           '' Transfer type: '' @ transfer_type c @ '', mode: '' @ transfer_mode c,
           '' Control connection: '' @ (if ssl_active c then ''TLS'' else ''plaintext''),
           '' Data protection: '' @ protection_level c,
           ''211 End of status''] c)
      else let target = resolvePath c argument
           in if \<not> validatePath c target then reply e ''550 Invalid path'' c
              else if \<not> exists_ec (fs c) target then reply e ''550 File or directory not found'' c
              else let c = sendResponse e (''213-Status of '' @ argument) c;
                       ls = (if is_directory_ec (fs c) target
                             then (case directory_entries (fs c) target of
                                     None \<Rightarrow> [] | Some names \<Rightarrow> machine_lines e c target names)
                             else [buildMachineFacts e c target (filename target)])
                   in Some (sendResponses e (map (\<lambda>l. '' '' @ l) ls @ [''213 End of status'']) c))"

definition handleSIZE :: "env \<Rightarrow> string \<Rightarrow> conn \<Rightarrow> conn option" where
  "handleSIZE e name c =
     (let filepath = resolvePath c name
      in case fs_exists (fs c) filepath of
           None \<Rightarrow> None
         | Some False \<Rightarrow> reply e ''550 File not found'' c
         | Some True \<Rightarrow>
             (case fs_is_regular (fs c) filepath of
                None \<Rightarrow> None
              | Some False \<Rightarrow> reply e ''550 File not found'' c
              | Some True \<Rightarrow>
                  (case file_size (fs c) filepath of
                     None \<Rightarrow> None
                   | Some n \<Rightarrow> reply e (''213 '' @ to_string (int n)) c)))"

end
