(* ===== verification/Settings.thy ===== *)
theory Settings
  imports Connection
begin

text \<open>
  The handlers of \<open>core/connection.cpp\<close> that set up the data connection and the transfer
  parameters: \<open>PASV\<close>, \<open>EPSV\<close>, \<open>PORT\<close>, \<open>EPRT\<close>, \<open>MODE\<close>, \<open>TYPE\<close>, \<open>REST\<close>, \<open>OPTS\<close>, \<open>ABOR\<close>,
  \<open>ALLO\<close>, \<open>HELP\<close> and \<open>SITE\<close>. \<open>int\<close> arithmetic is at 32 bits (\<open>wrap_int\<close>), a stream position
  is a signed 64-bit number.
\<close>

definition wrap_int :: "int \<Rightarrow> int" where
  "wrap_int v = (v + 2 ^ 31) mod 2 ^ 32 - 2 ^ 31"

definition streamoff :: "nat \<Rightarrow> int" where
  "streamoff n = (if n < 2 ^ 63 then int n else int n - 2 ^ 64)"

lemma wrap_int_id: "- (2 ^ 31) \<le> v \<Longrightarrow> v < 2 ^ 31 \<Longrightarrow> wrap_int v = v"
  by (simp add: wrap_int_def)

lemma streamoff_range: "n < 2 ^ 64 \<Longrightarrow> - (2 ^ 63) \<le> streamoff n \<and> streamoff n < 2 ^ 63"
  by (auto simp: streamoff_def)

subsection \<open>Passive mode\<close>

definition epsv_all_reply :: string where
  "epsv_all_reply = ''501 EPSV ALL is in effect, use EPSV''"

definition handlePASV :: "env \<Rightarrow> conn \<Rightarrow> conn option" where
  "handlePASV e c =
     (if epsv_all c then reply e epsv_all_reply c
      else let c = closeDataSocket (c\<lparr>active_mode_enabled := False\<rparr>);
               (port, c) = createPassiveDataSocket e c
           in if port < 0 then reply e ''425 Can't open passive connection'' c
              else reply e (formatPassiveResponse port) c)"

definition handleEPSV :: "env \<Rightarrow> string \<Rightarrow> conn \<Rightarrow> conn option" where
  "handleEPSV e argument c =
     (let arg = to_upper argument
      in if arg = ''ALL'' then reply e ''200 EPSV ALL command successful'' (c\<lparr>epsv_all := True\<rparr>)
         else if arg \<noteq> [] \<and> arg \<noteq> ''1'' \<and> arg \<noteq> ''2''
         then reply e ''522 Network protocol not supported, use (1)'' c
         else let c = closeDataSocket (c\<lparr>active_mode_enabled := False\<rparr>);
                  (port, c) = createPassiveDataSocket e c
              in if port < 0 then reply e ''425 Can't open passive connection'' c
                 else reply e (''229 Entering Extended Passive Mode (|||'' @ to_string port @ ''|)'') c)"

subsection \<open>Active mode\<close>

fun parse_ints :: "string list \<Rightarrow> int list option" where
  "parse_ints [] = Some []"
| "parse_ints (t # ts) = (case stoi t of
     None \<Rightarrow> None
   | Some v \<Rightarrow> (case parse_ints ts of None \<Rightarrow> None | Some vs \<Rightarrow> Some (v # vs)))"

definition handlePORT :: "env \<Rightarrow> string \<Rightarrow> conn \<Rightarrow> conn option" where
  "handlePORT e address_port c =
     (if epsv_all c then reply e epsv_all_reply c
      else (case parse_ints (getline_fields CHR '','' address_port) of
              None \<Rightarrow> reply e ''501 Invalid PORT command format'' c
            | Some parts \<Rightarrow>
                if length parts \<noteq> 6 then reply e ''501 Invalid PORT command format'' c
                else let ip = to_string (parts ! 0) @ ''.'' @ to_string (parts ! 1) @ ''.'' @
                              to_string (parts ! 2) @ ''.'' @ to_string (parts ! 3);
                         port = wrap_int (parts ! 4 * 256 + parts ! 5);
                         c = c\<lparr>active_mode_ip := ip, active_mode_port := port\<rparr>
                     in if port < 1024 \<or> 65535 < port then reply e ''501 Invalid port number'' c
                        else reply e ''200 PORT command successful''
                               ((closeDataSocket c)\<lparr>active_mode_enabled := True\<rparr>)))"

text \<open>The fields between the delimiters of \<open>EPRT\<close>.\<close>

fun delimited :: "char \<Rightarrow> string \<Rightarrow> string \<Rightarrow> string list" where
  "delimited d token [] = []"
| "delimited d token (x # xs) =
     (if x = d then token # delimited d [] xs else delimited d (token @ [x]) xs)"

definition handleEPRT :: "env \<Rightarrow> string \<Rightarrow> conn \<Rightarrow> conn option" where
  "handleEPRT e endpoint c =
     (if epsv_all c then reply e epsv_all_reply c
      else if length endpoint < 7 then reply e ''501 Invalid EPRT command format'' c
      else if last endpoint \<noteq> hd endpoint then reply e ''501 Invalid EPRT command format'' c
      else let fields = delimited (hd endpoint) [] (tl endpoint)
           in if length fields \<noteq> 3 then reply e ''501 Invalid EPRT command format'' c
              else if fields ! 0 \<noteq> ''1''
              then reply e ''522 Network protocol not supported, use (1)'' c
              else (case stoi (fields ! 2) of
                      None \<Rightarrow> reply e ''501 Invalid EPRT port'' c
                    | Some port \<Rightarrow>
                        if port < 1024 \<or> 65535 < port then reply e ''501 Invalid port number'' c
                        else reply e ''200 EPRT command successful''
                               ((closeDataSocket c)
                                  \<lparr>active_mode_ip := fields ! 1, active_mode_port := port,
                                   active_mode_enabled := True\<rparr>)))"

subsection \<open>Transfer parameters\<close>

definition handleMODE :: "env \<Rightarrow> string \<Rightarrow> conn \<Rightarrow> conn option" where
  "handleMODE e mode c =
     (let m = to_upper mode
      in if m = ''S'' \<or> m = ''STREAM'' then reply e ''200 Mode set to Stream'' (c\<lparr>transfer_mode := ''S''\<rparr>)
         else if m = ''Z'' then
           (if \<not> compressionEnabled c then reply e ''504 MODE Z is not enabled'' c
            else reply e ''200 Mode set to Compressed (Z)'' (c\<lparr>transfer_mode := ''Z''\<rparr>))
         else reply e ''504 Command not implemented for that parameter'' c)"

definition handleTYPE :: "env \<Rightarrow> string \<Rightarrow> conn \<Rightarrow> conn option" where
  "handleTYPE e type c =
     (if type = ''A'' \<or> type = ''I'' then reply e (''200 Type set to '' @ type) (c\<lparr>transfer_type := type\<rparr>)
      else reply e ''504 Command not implemented for that parameter'' c)"

definition handleREST :: "env \<Rightarrow> string \<Rightarrow> conn \<Rightarrow> conn option" where
  "handleREST e position c =
     (if transferModeZ c then reply e ''550 REST is not supported with MODE Z'' c
      else (case stoull position of
              None \<Rightarrow> reply e ''501 Invalid restart position'' c
            | Some n \<Rightarrow>
                reply e (''350 Restarting at '' @ position @ ''. Send STOR or RETR to initiate transfer'')
                  (c\<lparr>resume_position := streamoff n\<rparr>)))"

definition handleOPTS :: "env \<Rightarrow> string \<Rightarrow> conn \<Rightarrow> conn option" where
  "handleOPTS e argument c =
     (let (opt, rest) = read_word argument; (val, _) = read_word rest;
          opt = to_upper opt; val = to_upper val
      in if opt = ''UTF8'' then
           (if val = [] \<or> val = ''ON'' then reply e ''200 UTF8 set to on'' (c\<lparr>utf8_enabled := True\<rparr>)
            else if val = ''OFF'' then reply e ''200 UTF8 set to off'' (c\<lparr>utf8_enabled := False\<rparr>)
            else reply e ''501 Invalid UTF8 option'' c)
         else if opt = ''MLST'' then reply e ''200 MLST OPTS type;size;modify;perm;'' c
         else reply e ''501 Option not supported'' c)"

definition handleABOR :: "env \<Rightarrow> conn \<Rightarrow> conn option" where
  "handleABOR e c = reply e ''226 ABOR command successful'' (closeDataSocket c)"

definition handleALLO :: "env \<Rightarrow> string \<Rightarrow> conn \<Rightarrow> conn option" where
  "handleALLO e argument c = reply e ''202 ALLO not required, storage is allocated on demand'' c"

definition handleHELP :: "env \<Rightarrow> string \<Rightarrow> conn \<Rightarrow> conn option" where
  "handleHELP e argument c = Some (sendResponses e
     [''214-The following commands are recognized:'',
      '' USER PASS QUIT NOOP SYST FEAT OPTS HELP HOST'',
      '' AUTH PBSZ PROT'',
      '' PWD XPWD CWD XCWD CDUP XCUP'',
      '' LIST NLST MLSD MLST STAT SIZE MDTM'',
      '' PASV EPSV PORT EPRT MODE TYPE ALLO ABOR'',
      '' RETR STOR STOU APPE REST DELE'',
      '' MKD XMKD RMD XRMD RNFR RNTO SITE'',
      ''214 Help command successful''] c)"

subsection \<open>SITE\<close>

definition site_chmod :: "env \<Rightarrow> string \<Rightarrow> string \<Rightarrow> conn \<Rightarrow> conn option" where
  "site_chmod e mode_text target c =
     (if mode_text = [] \<or> target = [] then reply e ''501 Usage: SITE CHMOD <mode> <path>'' c
      else if \<not> hasPermission c ''write'' target then reply e ''550 Permission denied'' c
      else let path = resolvePath c target
           in if \<not> validatePath c path then reply e ''550 Invalid path'' c
              else (case stoull_base 8 mode_text of
                      None \<Rightarrow> reply e ''501 Invalid mode'' c
                    | Some mode \<Rightarrow>
                        (case fs_permissions (fs c) path (mode mod 4096) of
                           None \<Rightarrow> reply e ''550 SITE CHMOD failed'' c
                         | Some f \<Rightarrow> reply e ''200 SITE CHMOD command successful'' (c\<lparr>fs := f\<rparr>))))"

definition handleSITE :: "env \<Rightarrow> string \<Rightarrow> conn \<Rightarrow> conn option" where
  "handleSITE e argument c =
     (let (subcommand, rest) = read_word argument; subcommand = to_upper subcommand
      in if subcommand = [] \<or> subcommand = ''HELP'' then
           Some (sendResponses e
             [''214-The following SITE commands are recognized:'', '' CHMOD <mode> <path>'', '' UMASK'',
              ''214 SITE help complete''] c)
         else if subcommand = ''UMASK'' then reply e ''200 UMASK is fixed at 022'' c
         else if subcommand = ''CHMOD'' then
           (let (mode_text, rest) = read_word rest
            in site_chmod e mode_text (trim_left rest) c)
         else reply e ''500 Unknown SITE command'' c)"

end
