(* ===== verification/Transfers.thy ===== *)
theory Transfers
  imports Settings
begin

text \<open>
  Downloads and uploads of \<open>core/connection.cpp\<close>: \<open>RETR\<close> with its four ways to copy a file
  (MODE Z, \<open>sendfile\<close>, \<open>mmap\<close>, \<open>read\<close>/\<open>send\<close>), \<open>STOR\<close>, \<open>STOU\<close> and \<open>APPE\<close>, and the bandwidth
  throttle. The results of the system calls come from \<open>env\<close>, one list element per call; an
  exhausted list is an error. A loop recurses on that list, so it ends.
\<close>

subsection \<open>Throttle\<close>

definition throttle_delay :: "int \<Rightarrow> int \<Rightarrow> nat \<Rightarrow> nat" where
  "throttle_delay max_rate elapsed bytes_so_far =
     (if max_rate \<le> 0 \<or> elapsed \<le> 0 then 0
      else let allowed = nat (max_rate * elapsed) div 1000
           in if allowed < bytes_so_far
              then ((bytes_so_far - allowed) * 1000) div nat max_rate else 0)"

subsection \<open>The copy loops of RETR\<close>

record xfer =
  x_remaining :: int
  x_offset :: int
  x_total :: nat
  x_out :: string
  x_slept :: nat
  x_step :: nat

definition apply_throttle :: "env \<Rightarrow> int \<Rightarrow> xfer \<Rightarrow> xfer" where
  "apply_throttle e max_rate x =
     x\<lparr>x_slept := x_slept x + throttle_delay max_rate (elapsed_ms e (x_step x)) (x_total x),
       x_step := x_step x + 1\<rparr>"

definition sent_bytes :: "string \<Rightarrow> xfer \<Rightarrow> xfer" where
  "sent_bytes bytes x =
     x\<lparr>x_out := x_out x @ bytes, x_total := x_total x + length bytes,
       x_remaining := x_remaining x - int (length bytes)\<rparr>"

text \<open>What the file holds from an offset on, at most so many bytes.\<close>

definition slice :: "string \<Rightarrow> int \<Rightarrow> int \<Rightarrow> string" where
  "slice content pos n = take (nat n) (drop (nat pos) content)"

text \<open>\<open>sendfile\<close> refuses a negative offset and moves the offset by what it sent.\<close>

fun sendfile_loop :: "env \<Rightarrow> int \<Rightarrow> int \<Rightarrow> string \<Rightarrow> int list \<Rightarrow> xfer \<Rightarrow> xfer" where
  "sendfile_loop e max_rate buf content [] x =
     (if 0 < x_remaining x then apply_throttle e max_rate x else x)"
| "sendfile_loop e max_rate buf content (r # rs) x =
     (if x_remaining x \<le> 0 then x
      else let x = apply_throttle e max_rate x;
               chunk = min buf (x_remaining x);
               bytes = slice content (x_offset x) (min r chunk);
               n = int (length bytes)
           in if x_offset x < 0 \<or> n = 0 then x
              else let x = (sent_bytes bytes x)\<lparr>x_offset := x_offset x + n\<rparr>
                   in if n < chunk then x else sendfile_loop e max_rate buf content rs x)"

text \<open>The mapped file seen through a pointer; outside the file it is whatever memory holds.\<close>

definition mapped_byte :: "env \<Rightarrow> string \<Rightarrow> int \<Rightarrow> char" where
  "mapped_byte e content i =
     (if 0 \<le> i \<and> i < int (length content) then content ! nat i else stray_byte e i)"

fun mmap_loop :: "env \<Rightarrow> int \<Rightarrow> int \<Rightarrow> string \<Rightarrow> int \<Rightarrow> int list \<Rightarrow> xfer \<Rightarrow> xfer" where
  "mmap_loop e max_rate buf content p [] x =
     (if 0 < x_remaining x then apply_throttle e max_rate x else x)"
| "mmap_loop e max_rate buf content p (r # rs) x =
     (if x_remaining x \<le> 0 then x
      else let x = apply_throttle e max_rate x;
               sent = min r (min buf (x_remaining x))
           in if sent \<le> 0 then x
              else mmap_loop e max_rate buf content (p + sent) rs
                     (sent_bytes (map (\<lambda>i. mapped_byte e content (p + int i)) [0..<nat sent]) x))"

fun read_loop :: "env \<Rightarrow> int \<Rightarrow> int \<Rightarrow> string \<Rightarrow> int \<Rightarrow> (int \<times> int) list \<Rightarrow> xfer \<Rightarrow> xfer" where
  "read_loop e max_rate buf content pos [] x =
     (if 0 < x_remaining x then apply_throttle e max_rate x else x)"
| "read_loop e max_rate buf content pos ((r, s) # rs) x =
     (if x_remaining x \<le> 0 then x
      else let x = apply_throttle e max_rate x;
               buffer = slice content pos (min r (min buf (x_remaining x)));
               n = int (length buffer);
               sent = min s n
           in if n = 0 \<or> sent \<le> 0 then x
              else let x = sent_bytes (take (nat sent) buffer) x
                   in if sent < n then x else read_loop e max_rate buf content (pos + n) rs x)"

text \<open>MODE Z: every compressed block must go out whole. \<open>zlib e i\<close> is the i-th \<open>process\<close> call.\<close>

definition send_block :: "int \<Rightarrow> string \<Rightarrow> xfer \<Rightarrow> bool \<times> xfer" where
  "send_block s block x =
     (if block = [] then (True, x)
      else if s < int (length block) then (False, x\<lparr>x_out := x_out x @ take (nat s) block\<rparr>)
      else (True, x\<lparr>x_out := x_out x @ block, x_total := x_total x + length block\<rparr>))"

fun deflate_loop ::
  "env \<Rightarrow> int \<Rightarrow> int \<Rightarrow> string \<Rightarrow> int \<Rightarrow> nat \<Rightarrow> (int \<times> int) list \<Rightarrow> xfer \<Rightarrow> bool \<times> nat \<times> xfer" where
  "deflate_loop e max_rate buf content pos i [] x =
     (if 0 < x_remaining x then (False, i, apply_throttle e max_rate x) else (True, i, x))"
| "deflate_loop e max_rate buf content pos i ((r, s) # rs) x =
     (if x_remaining x \<le> 0 then (True, i, x)
      else let x = apply_throttle e max_rate x;
               buffer = slice content pos (min r (min buf (x_remaining x)));
               n = int (length buffer)
           in if n = 0 then (False, i, x)
              else (case zlib e i buffer False of
                      None \<Rightarrow> (False, i + 1, x)
                    | Some block \<Rightarrow>
                        (case send_block s block x of
                           (False, x) \<Rightarrow> (False, i + 1, x)
                         | (True, x) \<Rightarrow>
                             deflate_loop e max_rate buf content (pos + n) (i + 1) rs
                               (x\<lparr>x_remaining := x_remaining x - n\<rparr>))))"

definition deflate_file :: "env \<Rightarrow> int \<Rightarrow> int \<Rightarrow> string \<Rightarrow> int \<Rightarrow> xfer \<Rightarrow> xfer" where
  "deflate_file e max_rate buf content pos x =
     (case deflate_loop e max_rate buf content pos 0 (io_results e) x of
        (False, _, x) \<Rightarrow> x
      | (True, i, x) \<Rightarrow>
          (case zlib e i [] True of
             None \<Rightarrow> x
           | Some block \<Rightarrow>
               snd (send_block (case send_results e of [] \<Rightarrow> -1 | s # _ \<Rightarrow> s) block x)))"

text \<open>\<open>lseek(fd, off, SEEK_SET) == off\<close>: the call fails on a negative offset with -1.\<close>

definition seek_ok :: "int \<Rightarrow> bool" where
  "seek_ok off = (-1 \<le> off)"

definition seek_pos :: "int \<Rightarrow> int" where
  "seek_pos off = max 0 off"

subsection \<open>RETR\<close>

definition copy_buffer :: "conn \<Rightarrow> int" where
  "copy_buffer c =
     (if 0 < buffer_size (transfer (config c)) then int (buffer_size (transfer (config c))) else 32768)"

definition start_xfer :: "string \<Rightarrow> int \<Rightarrow> xfer" where
  "start_xfer content offset =
     \<lparr>x_remaining = int (length content) - offset, x_offset = offset, x_total = 0, x_out = [],
      x_slept = 0, x_step = 0\<rparr>"

text \<open>Each phase says whether the transfer is complete.\<close>

definition sendfile_phase :: "env \<Rightarrow> conn \<Rightarrow> string \<Rightarrow> xfer \<Rightarrow> bool \<times> xfer" where
  "sendfile_phase e c content x =
     (if use_sendfile (transfer (config c)) \<and> 0 < x_remaining x
      then let x = sendfile_loop e (max_transfer_rate (rate_limit (config c))) (copy_buffer c) content
                     (sendfile_results e) x
           in (x_remaining x = 0, x)
      else (False, x))"

definition mmap_phase :: "env \<Rightarrow> conn \<Rightarrow> string \<Rightarrow> xfer \<Rightarrow> bool \<times> xfer" where
  "mmap_phase e c content x =
     (let file_size = int (length content)
      in if use_mmap (transfer (config c)) \<and> 0 < file_size \<and> x_offset x < file_size \<and> mmap_ok e
         then let x = mmap_loop e (max_transfer_rate (rate_limit (config c))) (copy_buffer c) content
                        (x_offset x) (send_results e) (x\<lparr>x_remaining := file_size - x_offset x\<rparr>)
              in (x_remaining x = 0, x)
         else (False, x))"

definition read_phase :: "env \<Rightarrow> conn \<Rightarrow> string \<Rightarrow> xfer \<Rightarrow> xfer \<times> string option" where
  "read_phase e c content x =
     (if \<not> seek_ok (x_offset x) then (x, Some ''550 Seek failed'')
      else (read_loop e (max_transfer_rate (rate_limit (config c))) (copy_buffer c) content
              (seek_pos (x_offset x)) (io_results e)
              (x\<lparr>x_remaining := int (length content) - x_offset x\<rparr>), None))"

text \<open>The copy itself: the transfer record and the reply of an early exit.\<close>

definition retr_copy :: "env \<Rightarrow> conn \<Rightarrow> string \<Rightarrow> int \<Rightarrow> xfer \<times> string option" where
  "retr_copy e c content offset =
     (let x = start_xfer content offset
      in if transferModeZ c then
           (if \<not> seek_ok offset then (x, Some ''550 Seek failed'')
            else if \<not> zlib_valid e then (x, Some ''426 Compression is not available'')
            else (deflate_file e (max_transfer_rate (rate_limit (config c))) (copy_buffer c) content
                    (seek_pos offset) x, None))
         else
           let (ok, x) = sendfile_phase e c content x;
               (ok, x) = (if ok then (True, x) else mmap_phase e c content x)
           in if ok then (x, None) else read_phase e c content x)"

definition retr_transfer :: "env \<Rightarrow> int \<Rightarrow> string \<Rightarrow> conn \<Rightarrow> conn option" where
  "retr_transfer e fd filepath c =
     (if \<not> open_ok e then reply e ''550 Failed to open file'' (close_fd fd c)
      else (case file_content (fs c) filepath of
              None \<Rightarrow> reply e ''550 Invalid file'' (close_fd fd c)
            | Some content \<Rightarrow>
                let offset = resume_position c
                in if 0 < offset \<and> int (length content) \<le> offset then
                     reply e ''226 Transfer complete'' ((close_fd fd c)\<lparr>resume_position := 0\<rparr>)
                   else let (x, early) = retr_copy e c content offset;
                            c = close_fd fd (send_data fd (x_out x) (c\<lparr>slept := slept c + x_slept x\<rparr>))
                        in (case early of
                              Some r \<Rightarrow> reply e r c
                            | None \<Rightarrow>
                                reply e ''226 Transfer complete'' (c\<lparr>resume_position := 0\<rparr>))))"

text \<open>The checks on MODE Z that \<open>RETR\<close> and \<open>STOR\<close> share.\<close>

definition mode_z_refusal :: "env \<Rightarrow> conn \<Rightarrow> conn option" where
  "mode_z_refusal e c =
     (if \<not> transferModeZ c then None
      else if 0 < resume_position c
      then Some ((sendResponse e ''550 REST is not supported with MODE Z'' c)\<lparr>resume_position := 0\<rparr>)
      else if \<not> compressionEnabled c then Some (sendResponse e ''504 MODE Z is not enabled'' c)
      else None)"

definition handleRETR :: "env \<Rightarrow> string \<Rightarrow> conn \<Rightarrow> conn option" where
  "handleRETR e name c =
     (if \<not> hasPermission c ''read'' name then reply e ''550 Permission denied'' c
      else let filepath = resolvePath c name
           in if \<not> validatePath c filepath then reply e ''550 Invalid path'' c
              else (case fs_is_regular (fs c) filepath of
                      None \<Rightarrow> None
                    | Some False \<Rightarrow> reply e ''550 File not found'' c
                    | Some True \<Rightarrow>
                        (case mode_z_refusal e c of
                           Some c \<Rightarrow> Some c
                         | None \<Rightarrow>
                             let (fd, c) = acceptDataConnection e
                                   (sendResponse e (''150 Opening '' @ transfer_type c @
                                      '' mode data connection'') c)
                             in if fd < 0 then reply e ''425 Can't open data connection'' c
                                else retr_transfer e fd filepath c)))"

subsection \<open>STOR\<close>

definition storage_quota :: "conn \<Rightarrow> nat" where
  "storage_quota c =
     (let q = (case current_user c of Some u \<Rightarrow> u_storage_quota u | None \<Rightarrow> 0)
      in case current_virtual_host c of
           None \<Rightarrow> q
         | Some h \<Rightarrow>
             if 0 < vh_storage_quota h
             then (if q = 0 then vh_storage_quota h else min q (vh_storage_quota h)) else q)"

text \<open>\<open>None\<close>: \<open>exists\<close> throws; \<open>Some None\<close>: the file cannot be opened; otherwise the file, the
  position to write at and the file system after the opening.\<close>

definition open_upload :: "filesys \<Rightarrow> string \<Rightarrow> int \<Rightarrow> (loc \<times> nat \<times> filesys) option option" where
  "open_upload fsys path resume =
     (let fresh = (case open_write fsys path True of None \<Rightarrow> None | Some (d, f) \<Rightarrow> Some (d, 0, f))
      in case (if 0 < resume then fs_exists fsys path else Some False) of
           None \<Rightarrow> None
         | Some False \<Rightarrow> Some fresh
         | Some True \<Rightarrow>
             (case open_write fsys path False of
                None \<Rightarrow> Some fresh
              | Some (d, f) \<Rightarrow> Some (Some (d, nat resume, f))))"

record upload =
  up_fs :: filesys
  up_pos :: nat
  up_total :: nat
  up_slept :: nat
  up_step :: nat

definition write_chunk :: "loc \<Rightarrow> string \<Rightarrow> upload \<Rightarrow> upload" where
  "write_chunk d bytes u =
     u\<lparr>up_fs := write_at (up_fs u) d (up_pos u) bytes, up_pos := up_pos u + length bytes,
       up_total := up_total u + length bytes\<rparr>"

definition upload_throttle :: "env \<Rightarrow> int \<Rightarrow> nat \<Rightarrow> upload \<Rightarrow> upload" where
  "upload_throttle e max_rate extra u =
     u\<lparr>up_slept := up_slept u +
         throttle_delay max_rate (elapsed_ms e (up_step u)) (up_total u + extra),
       up_step := up_step u + 1\<rparr>"

fun store_loop :: "env \<Rightarrow> int \<Rightarrow> loc \<Rightarrow> string option list \<Rightarrow> upload \<Rightarrow> upload" where
  "store_loop e max_rate d [] u = u"
| "store_loop e max_rate d (None # rs) u = u"
| "store_loop e max_rate d (Some bytes # rs) u =
     (if bytes = [] then u
      else store_loop e max_rate d rs
             (write_chunk d bytes (upload_throttle e max_rate (length bytes) u)))"

definition inflate_step :: "env \<Rightarrow> nat \<Rightarrow> loc \<Rightarrow> string \<Rightarrow> upload \<Rightarrow> upload option" where
  "inflate_step e i d bytes u = (case zlib e i bytes (bytes = []) of
     None \<Rightarrow> None
   | Some plain \<Rightarrow> Some (if plain = [] then u else write_chunk d plain u))"

fun inflate_loop :: "env \<Rightarrow> int \<Rightarrow> loc \<Rightarrow> nat \<Rightarrow> string option list \<Rightarrow> upload \<Rightarrow> bool \<times> upload" where
  "inflate_loop e max_rate d i [] u =
     (case inflate_step e i d [] u of None \<Rightarrow> (False, u) | Some u \<Rightarrow> (True, u))"
| "inflate_loop e max_rate d i (None # rs) u = (False, u)"
| "inflate_loop e max_rate d i (Some bytes # rs) u =
     (case inflate_step e i d bytes u of
        None \<Rightarrow> (False, u)
      | Some u \<Rightarrow>
          if bytes = [] then (True, u)
          else inflate_loop e max_rate d (i + 1) rs (upload_throttle e max_rate 0 u))"

text \<open>The receiving half, on the file opened at \<open>d\<close> with the write position \<open>pos\<close>.\<close>

definition store_receive :: "env \<Rightarrow> int \<Rightarrow> loc \<Rightarrow> nat \<Rightarrow> conn \<Rightarrow> conn option" where
  "store_receive e fd d pos c =
     (let max_rate = max_transfer_rate (rate_limit (config c));
          u = \<lparr>up_fs = fs c, up_pos = pos, up_total = 0, up_slept = 0, up_step = 0\<rparr>
      in if transferModeZ c \<and> \<not> zlib_valid e
         then reply e ''426 Compression is not available'' (close_fd fd c)
         else let (ok, u) = (if transferModeZ c then inflate_loop e max_rate d 0 (received e) u
                             else (True, store_loop e max_rate d (received e) u));
                  c = (close_fd fd c)\<lparr>fs := up_fs u, slept := slept c + up_slept u,
                                      resume_position := 0\<rparr>
              in reply e (if ok then ''226 Transfer complete'' else ''426 Transfer aborted'') c)"

definition store_transfer :: "env \<Rightarrow> int \<Rightarrow> string \<Rightarrow> conn \<Rightarrow> conn option" where
  "store_transfer e fd filepath c =
     (let parent = parent_path filepath
      in case (if parent \<noteq> [] then create_directories (fs c) parent else Some (fs c)) of
           None \<Rightarrow> None
         | Some f \<Rightarrow>
             (case open_upload f filepath (resume_position c) of
                None \<Rightarrow> None
              | Some opened \<Rightarrow>
                  (case opened of
                     None \<Rightarrow> reply e ''550 Failed to create file'' (close_fd fd (c\<lparr>fs := f\<rparr>))
                   | Some (d, pos, f) \<Rightarrow> store_receive e fd d pos (c\<lparr>fs := f\<rparr>))))"

definition handleSTOR :: "env \<Rightarrow> string \<Rightarrow> conn \<Rightarrow> conn option" where
  "handleSTOR e name c =
     (if \<not> hasPermission c ''write'' name then reply e ''550 Permission denied'' c
      else let filepath = resolvePath c name; quota = storage_quota c
           in if \<not> validatePath c filepath then reply e ''550 Invalid path'' c
              else if 0 < quota \<and> quota \<le> getDirectorySize (fs c) (home_of c)
              then reply e ''552 Storage quota exceeded'' c
              else (case mode_z_refusal e c of
                      Some c \<Rightarrow> Some c
                    | None \<Rightarrow>
                        let (fd, c) = acceptDataConnection e
                              (sendResponse e
                                 (if store_unique_name c = []
                                  then ''150 Opening '' @ transfer_type c @ '' mode data connection''
                                  else ''150 FILE: '' @ store_unique_name c) c)
                        in if fd < 0 then reply e ''425 Can't open data connection'' c
                           else store_transfer e fd filepath c))"

subsection \<open>STOU and APPE\<close>

fun unique_name :: "filesys \<Rightarrow> string \<Rightarrow> string \<Rightarrow> nat \<Rightarrow> nat \<Rightarrow> string" where
  "unique_name fsys dir base attempt 0 = []"
| "unique_name fsys dir base attempt (Suc n) =
     (let candidate = base @ ''.'' @ to_string (int attempt)
      in if \<not> exists_ec fsys (dir @ ''/'' @ candidate) then candidate
         else unique_name fsys dir base (Suc attempt) n)"

definition handleSTOU :: "env \<Rightarrow> string \<Rightarrow> conn \<Rightarrow> conn option" where
  "handleSTOU e name c =
     (let base = (if name = [] then ''ftpd'' else filename name);
          unique = unique_name (fs c) (current_directory c) base 0 10000
      in if unique = [] then reply e ''452 Could not allocate a unique file name'' c
         else (case handleSTOR e unique (c\<lparr>store_unique_name := unique, resume_position := 0\<rparr>) of
                 None \<Rightarrow> None
               | Some c \<Rightarrow> Some (c\<lparr>store_unique_name := []\<rparr>)))"

fun append_loop :: "loc \<Rightarrow> string option list \<Rightarrow> filesys \<Rightarrow> filesys" where
  "append_loop d (Some bytes # rs) f =
     (if bytes = [] then f
      else append_loop d rs (write_at f d (length (content_at f d)) bytes))"
| "append_loop d rs f = f"

definition handleAPPE :: "env \<Rightarrow> string \<Rightarrow> conn \<Rightarrow> conn option" where
  "handleAPPE e name c =
     (if \<not> hasPermission c ''write'' name then reply e ''550 Permission denied'' c
      else let filepath = resolvePath c name
           in if \<not> validatePath c filepath then reply e ''550 Invalid path'' c
              else if transferModeZ c then reply e ''550 APPE is not supported with MODE Z'' c
              else let (fd, c) = acceptDataConnection e
                         (sendResponse e ''150 Opening data connection for append'' c)
                   in if fd < 0 then reply e ''425 Can't open data connection'' c
                      else (case fs_exists (fs c) filepath of
                              None \<Rightarrow> None
                            | Some ex \<Rightarrow>
                                (case open_write (fs c) filepath (\<not> ex) of
                                   None \<Rightarrow>
                                     reply e ''550 Failed to open file for append'' (close_fd fd c)
                                 | Some (d, f) \<Rightarrow>
                                     reply e ''226 Transfer complete''
                                       ((close_fd fd c)\<lparr>fs := append_loop d (received e) f,
                                                       resume_position := 0\<rparr>))))"

end
