(* ===== verification/Dispatch.thy ===== *)
theory Dispatch
  imports Login Listing Transfers
begin

text \<open>
  The commands of \<open>core/connection.cpp\<close> that create, remove and rename entries, the reading of
  a command line and the command loop \<open>handleClient\<close>. The control connection delivers one
  \<open>ctl\<close> event per \<open>recv\<close> of one byte; when the list ends, the peer has closed.
\<close>

subsection \<open>Entries of directories\<close>

definition handleDELE :: "env \<Rightarrow> string \<Rightarrow> conn \<Rightarrow> conn option" where
  "handleDELE e name c =
     (if \<not> hasPermission c ''write'' name then reply e ''550 Permission denied'' c
      else let filepath = resolvePath c name
           in if \<not> validatePath c filepath then reply e ''550 Invalid path'' c
              else (case fs_is_regular (fs c) filepath of
                      None \<Rightarrow> None
                    | Some False \<Rightarrow> reply e ''550 File not found'' c
                    | Some True \<Rightarrow>
                        (case fs_remove (fs c) filepath of
                           None \<Rightarrow> None
                         | Some (True, f) \<Rightarrow> reply e ''250 DELE command successful'' (c\<lparr>fs := f\<rparr>)
                         | Some (False, f) \<Rightarrow> reply e ''550 Failed to delete file'' (c\<lparr>fs := f\<rparr>))))"

definition handleMKD :: "env \<Rightarrow> string \<Rightarrow> conn \<Rightarrow> conn option" where
  "handleMKD e name c =
     (if \<not> hasPermission c ''write'' name then reply e ''550 Permission denied'' c
      else let dirpath = resolvePath c name
           in if \<not> validatePath c dirpath then reply e ''550 Invalid path'' c
              else (case create_directory (fs c) dirpath of
                      None \<Rightarrow> None
                    | Some (True, f) \<Rightarrow>
                        reply e (''257 \"'' @ dirpath @ ''\" created'') (c\<lparr>fs := f\<rparr>)
                    | Some (False, f) \<Rightarrow>
                        reply e ''550 Failed to create directory'' (c\<lparr>fs := f\<rparr>)))"

definition handleRMD :: "env \<Rightarrow> string \<Rightarrow> conn \<Rightarrow> conn option" where
  "handleRMD e name c =
     (if \<not> hasPermission c ''write'' name then reply e ''550 Permission denied'' c
      else let dirpath = resolvePath c name
           in if \<not> validatePath c dirpath then reply e ''550 Invalid path'' c
              else (case fs_is_directory (fs c) dirpath of
                      None \<Rightarrow> None
                    | Some False \<Rightarrow> reply e ''550 Directory not found'' c
                    | Some True \<Rightarrow>
                        (case fs_remove (fs c) dirpath of
                           None \<Rightarrow> None
                         | Some (True, f) \<Rightarrow> reply e ''250 RMD command successful'' (c\<lparr>fs := f\<rparr>)
                         | Some (False, f) \<Rightarrow>
                             reply e ''550 Failed to remove directory'' (c\<lparr>fs := f\<rparr>))))"

definition handleRNFR :: "env \<Rightarrow> string \<Rightarrow> conn \<Rightarrow> conn option" where
  "handleRNFR e name c =
     (if \<not> hasPermission c ''write'' name then reply e ''550 Permission denied'' c
      else let filepath = resolvePath c name
           in if \<not> validatePath c filepath then reply e ''550 Invalid path'' c
              else (case fs_exists (fs c) filepath of
                      None \<Rightarrow> None
                    | Some False \<Rightarrow> reply e ''550 File or directory not found'' c
                    | Some True \<Rightarrow>
                        reply e ''350 File or directory exists, ready for destination name''
                          (c\<lparr>rename_from_path := filepath\<rparr>)))"

text \<open>Every exit after the first check forgets the source; the exception of \<open>rename\<close> is caught.\<close>

definition handleRNTO :: "env \<Rightarrow> string \<Rightarrow> conn \<Rightarrow> conn option" where
  "handleRNTO e name c =
     (let done = (\<lambda>r c. Some ((sendResponse e r c)\<lparr>rename_from_path := []\<rparr>))
      in if rename_from_path c = [] then reply e ''503 RNFR required first'' c
         else if \<not> hasPermission c ''write'' name then done ''550 Permission denied'' c
         else let filepath = resolvePath c name
              in if \<not> validatePath c filepath then done ''550 Invalid path'' c
                 else (case fs_exists (fs c) filepath of
                         None \<Rightarrow> None
                       | Some True \<Rightarrow> done ''553 File already exists'' c
                       | Some False \<Rightarrow>
                           (case fs_rename (fs c) (rename_from_path c) filepath of
                              None \<Rightarrow> done (''550 Rename failed: '' @ error_text e) c
                            | Some f \<Rightarrow> done ''250 Rename successful'' (c\<lparr>fs := f\<rparr>))))"

subsection \<open>Reading a line\<close>

datatype ctl = Got char | Again | Closed_by_peer | Failed

definition chomp :: "string \<Rightarrow> string" where
  "chomp line = (if line \<noteq> [] \<and> last line = CHR 0x0D then butlast line else line)"

text \<open>The line, whether the connection stays active, and the input left.\<close>

fun read_bytes :: "string \<Rightarrow> ctl list \<Rightarrow> string \<times> bool \<times> ctl list" where
  "read_bytes line [] = (line, False, [])"
| "read_bytes line (Again # input) = read_bytes line input"
| "read_bytes line (Closed_by_peer # input) = (line, False, input)"
| "read_bytes line (Failed # input) = (line, True, input)"
| "read_bytes line (Got b # input) =
     (if b = CHR 0x0A then (chomp line, True, input)
      else if 1024 < length (line @ [b]) then (line @ [b], True, input)
      else read_bytes (line @ [b]) input)"

definition readLine :: "conn \<Rightarrow> ctl list \<Rightarrow> string \<times> conn \<times> ctl list" where
  "readLine c input =
     (if \<not> socket_open c \<or> \<not> active c then ([], c, input)
      else (case read_bytes [] input of
              (line, alive, rest) \<Rightarrow> (line, if alive then c else c\<lparr>active := False\<rparr>, rest)))"

subsection \<open>The command loop\<close>

definition parse_command :: "string \<Rightarrow> string \<times> string" where
  "parse_command line =
     (let (command, rest) = read_word line in (to_upper command, trim_right (trim_left rest)))"

definition features :: "conn \<Rightarrow> string list" where
  "features c =
     [''211-Features:'', '' SIZE'', '' REST STREAM'', '' PORT'', '' EPRT'', '' EPSV'', '' MDTM'',
      '' MLST type*;size*;modify*;perm*;'', '' TVFS'', '' UTF8''] @
     (case virtual_host_manager c of
        None \<Rightarrow> [] | Some m \<Rightarrow> if listVirtualHosts m \<noteq> [] then ['' HOST''] else []) @
     (if ssl_enabled c then ['' AUTH TLS'', '' PBSZ'', '' PROT''] else []) @
     (if compressionEnabled c then ['' MODE Z''] else []) @ [''211 End'']"

text \<open>The commands that need a login.\<close>

definition dispatch_user :: "env \<Rightarrow> string \<Rightarrow> string \<Rightarrow> conn \<Rightarrow> conn option" where
  "dispatch_user e command argument c =
     (if command = ''PWD'' \<or> command = ''XPWD'' then handlePWD e c
      else if command = ''CWD'' \<or> command = ''XCWD'' then handleCWD e argument c
      else if command = ''CDUP'' \<or> command = ''XCUP'' then handleCDUP e c
      else if command = ''LIST'' \<or> command = ''NLST'' then handleLIST e argument c
      else if command = ''MLSD'' then handleMLSD e argument c
      else if command = ''MLST'' then handleMLST e argument c
      else if command = ''MDTM'' then handleMDTM e argument c
      else if command = ''STAT'' then handleSTAT e argument c
      else if command = ''SITE'' then handleSITE e argument c
      else if command = ''ALLO'' then handleALLO e argument c
      else if command = ''STOU'' then handleSTOU e argument c
      else if command = ''PASV'' then handlePASV e c
      else if command = ''EPSV'' then handleEPSV e argument c
      else if command = ''PORT'' then handlePORT e argument c
      else if command = ''EPRT'' then handleEPRT e argument c
      else if command = ''MODE'' then handleMODE e argument c
      else if command = ''TYPE'' then handleTYPE e argument c
      else if command = ''SIZE'' then handleSIZE e argument c
      else if command = ''RETR'' then handleRETR e argument c
      else if command = ''STOR'' then handleSTOR e argument c
      else if command = ''DELE'' then handleDELE e argument c
      else if command = ''MKD'' \<or> command = ''XMKD'' then handleMKD e argument c
      else if command = ''RMD'' \<or> command = ''XRMD'' then handleRMD e argument c
      else if command = ''REST'' then handleREST e argument c
      else if command = ''APPE'' then handleAPPE e argument c
      else if command = ''RNFR'' then handleRNFR e argument c
      else if command = ''RNTO'' then handleRNTO e argument c
      else reply e ''502 Command not implemented'' c)"

definition dispatch :: "env \<Rightarrow> string \<Rightarrow> string \<Rightarrow> conn \<Rightarrow> conn option" where
  "dispatch e command argument c =
     (if command = ''USER'' then handleUSER e argument c
      else if command = ''PASS'' then handlePASS e argument c
      else if command = ''QUIT'' then handleQUIT e c
      else if command = ''NOOP'' then reply e ''200 NOOP command successful'' c
      else if command = ''SYST'' then reply e ''215 UNIX Type: L8'' c
      else if command = ''FEAT'' then Some (sendResponses e (features c) c)
      else if command = ''AUTH'' then handleAUTH e argument c
      else if command = ''PBSZ'' then handlePBSZ e argument c
      else if command = ''PROT'' then handlePROT e argument c
      else if command = ''HOST'' then handleHOST e argument c
      else if command = ''OPTS'' then handleOPTS e argument c
      else if command = ''HELP'' then handleHELP e argument c
      else if command = ''ABOR'' then handleABOR e c
      else if authenticated c then dispatch_user e command argument c
      else reply e ''530 Please login with USER and PASS'' c)"

lemma read_bytes_shorter:
  "input \<noteq> [] \<Longrightarrow> length (snd (snd (read_bytes line input))) < length input"
proof (induction line input rule: read_bytes.induct)
  case (2 line input)
  then show ?case
    by (cases input) auto
next
  case (5 line b input)
  then show ?case
    by (cases input) auto
qed auto

lemma readLine_shorter:
  assumes "readLine c input = (line, c', rest)" "line \<noteq> []"
  shows "length rest < length input"
proof -
  have "input \<noteq> []"
    using assms by (auto simp: readLine_def split: if_splits)
  then show ?thesis
    using read_bytes_shorter[of input "[]"] assms
    by (auto simp: readLine_def split: if_splits prod.splits)
qed

text \<open>The body of the loop runs on the line read; \<open>QUIT\<close> leaves it. \<open>es n\<close> is the environment of
  the n-th command.\<close>

function command_loop :: "(nat \<Rightarrow> env) \<Rightarrow> nat \<Rightarrow> ctl list \<Rightarrow> conn \<Rightarrow> conn option" where
  "command_loop es n input c =
     (if \<not> active c then Some (c\<lparr>active := False\<rparr>)
      else (case readLine c input of
              (line, c, rest) \<Rightarrow>
                if line = [] then Some (c\<lparr>active := False\<rparr>)
                else (case parse_command line of
                        (command, argument) \<Rightarrow>
                          (case dispatch (es n) command argument c of
                             None \<Rightarrow> None
                           | Some c \<Rightarrow>
                               if command = ''QUIT'' then Some (c\<lparr>active := False\<rparr>)
                               else command_loop es (n + 1) rest c))))"
  by pat_completeness auto
termination
  by (relation "measure (\<lambda>(es, n, input, c). length input)")
     (auto dest: readLine_shorter[OF sym])

declare command_loop.simps [simp del]

definition handleClient :: "(nat \<Rightarrow> env) \<Rightarrow> ctl list \<Rightarrow> conn \<Rightarrow> conn option" where
  "handleClient es input c =
     command_loop es 1 input
       (sendResponse (es 0) ''220 Welcome to Simple Secure FTP Daemon'' c)"

end
