(* ===== verification/Frames.thy ===== *)
theory Frames
  imports Dispatch
begin

text \<open>
  What each handler leaves alone. \<open>quiet c c'\<close>: nothing changed that path checks, the file
  system, the login or the session count depend on. Most handlers are quiet (collection
  \<open>frames\<close>); the others are described one by one.
\<close>

definition quiet :: "conn \<Rightarrow> conn \<Rightarrow> bool" where
  "quiet c c' =
     (fs c' = fs c \<and> current_user c' = current_user c \<and> current_directory c' = current_directory c \<and>
      rename_from_path c' = rename_from_path c \<and> current_virtual_host c' = current_virtual_host c \<and>
      authenticated c' = authenticated c \<and> username c' = username c \<and> tracker c' = tracker c \<and>
      session_registered c' = session_registered c \<and> config c' = config c \<and>
      user_manager c' = user_manager c \<and> virtual_host_manager c' = virtual_host_manager c \<and>
      has_tracker c' = has_tracker c \<and> pam_auth c' = pam_auth c)"

lemma quiet_refl [simp]: "quiet c c"
  by (simp add: quiet_def)

lemma quiet_trans: "quiet a b \<Longrightarrow> quiet b c \<Longrightarrow> quiet a c"
  by (simp add: quiet_def)

lemma quiet_helpers [simp]:
  "quiet c (sendResponse e r d) = quiet c d" "quiet c (sendResponses e rs d) = quiet c d"
  "quiet c (close_fd fd d) = quiet c d" "quiet c (send_data fd bytes d) = quiet c d"
  "quiet c (closeDataSocket d) = quiet c d" "quiet c (snd (acceptDataConnection e d)) = quiet c d"
  "quiet c (snd (createPassiveDataSocket e d)) = quiet c d"
  by (simp_all add: quiet_def)

lemma quiet_update [simp]:
  "quiet c (d\<lparr>socket_open := new_socket_open\<rparr>) = quiet c d"
  "quiet c (d\<lparr>ssl_context := new_ssl_context\<rparr>) = quiet c d"
  "quiet c (d\<lparr>active := new_active\<rparr>) = quiet c d"
  "quiet c (d\<lparr>ssl_enabled := new_ssl_enabled\<rparr>) = quiet c d"
  "quiet c (d\<lparr>ssl_active := new_ssl_active\<rparr>) = quiet c d"
  "quiet c (d\<lparr>ssl_session := new_ssl_session\<rparr>) = quiet c d"
  "quiet c (d\<lparr>passive_listen_socket := new_passive_listen_socket\<rparr>) = quiet c d"
  "quiet c (d\<lparr>data_socket := new_data_socket\<rparr>) = quiet c d"
  "quiet c (d\<lparr>transfer_type := new_transfer_type\<rparr>) = quiet c d"
  "quiet c (d\<lparr>transfer_mode := new_transfer_mode\<rparr>) = quiet c d"
  "quiet c (d\<lparr>protection_level := new_protection_level\<rparr>) = quiet c d"
  "quiet c (d\<lparr>active_mode_ip := new_active_mode_ip\<rparr>) = quiet c d"
  "quiet c (d\<lparr>active_mode_port := new_active_mode_port\<rparr>) = quiet c d"
  "quiet c (d\<lparr>active_mode_enabled := new_active_mode_enabled\<rparr>) = quiet c d"
  "quiet c (d\<lparr>resume_position := new_resume_position\<rparr>) = quiet c d"
  "quiet c (d\<lparr>epsv_all := new_epsv_all\<rparr>) = quiet c d"
  "quiet c (d\<lparr>utf8_enabled := x_utf8_enabled\<rparr>) = quiet c d"
  "quiet c (d\<lparr>store_unique_name := new_store_unique_name\<rparr>) = quiet c d"
  "quiet c (d\<lparr>replies := new_replies\<rparr>) = quiet c d"
  "quiet c (d\<lparr>send_calls := new_send_calls\<rparr>) = quiet c d"
  "quiet c (d\<lparr>data_out := new_data_out\<rparr>) = quiet c d"
  "quiet c (d\<lparr>closed := new_closed\<rparr>) = quiet c d"
  "quiet c (d\<lparr>dialled := new_dialled\<rparr>) = quiet c d"
  "quiet c (d\<lparr>slept := new_slept\<rparr>) = quiet c d"
  by (simp_all add: quiet_def)

text \<open>The goal about a handler, pushed to its returns.\<close>

definition returns :: "conn option \<Rightarrow> (conn \<Rightarrow> bool) \<Rightarrow> bool" where
  "returns m P = (case m of None \<Rightarrow> True | Some c \<Rightarrow> P c)"

lemma returns_simps [simp]: "returns (Some c) P = P c" "returns None P"
  by (simp_all add: returns_def)

lemma returnsI: "(\<And>c. m = Some c \<Longrightarrow> P c) \<Longrightarrow> returns m P"
  by (simp add: returns_def split: option.split)

lemma returnsD: "returns m P \<Longrightarrow> m = Some c \<Longrightarrow> P c"
  by (simp add: returns_def)

lemma returns_mono: "returns m P \<Longrightarrow> (\<And>c. P c \<Longrightarrow> Q c) \<Longrightarrow> returns m Q"
  by (simp add: returns_def split: option.splits)

lemma returns_if: "returns (if b then x else y) P = ((b \<longrightarrow> returns x P) \<and> (\<not> b \<longrightarrow> returns y P))"
  by simp

lemma returns_option:
  "returns (case m of None \<Rightarrow> x | Some a \<Rightarrow> f a) P =
     ((m = None \<longrightarrow> returns x P) \<and> (\<forall>a. m = Some a \<longrightarrow> returns (f a) P))"
  by (simp split: option.split)

lemma returns_bool:
  "returns (case b of True \<Rightarrow> x | False \<Rightarrow> y) P = ((b \<longrightarrow> returns x P) \<and> (\<not> b \<longrightarrow> returns y P))"
  by (simp split: bool.split)

lemma returns_Let: "returns (let x = a in f x) P = returns (f a) P"
  by simp

lemma returns_prod: "returns (case p of (a, b) \<Rightarrow> f a b) P = returns (f (fst p) (snd p)) P"
  by (simp add: case_prod_beta)

lemmas returns_rules = returns_if returns_option returns_bool returns_Let returns_prod

lemma handlePWD_quiet [frames]: "returns (handlePWD e c) (quiet c)"
  by (simp add: handlePWD_def returns_rules)

lemma handleLIST_quiet [frames]: "returns (handleLIST e a c) (quiet c)"
  by (simp add: handleLIST_def finish_listing_def returns_rules)

lemma handleMLSD_quiet [frames]: "returns (handleMLSD e a c) (quiet c)"
  by (simp add: handleMLSD_def finish_listing_def returns_rules)

lemma handleMLST_quiet [frames]: "returns (handleMLST e a c) (quiet c)"
  by (simp add: handleMLST_def returns_rules)

lemma handleMDTM_quiet [frames]: "returns (handleMDTM e a c) (quiet c)"
  by (simp add: handleMDTM_def returns_rules)

lemma handleSTAT_quiet [frames]: "returns (handleSTAT e a c) (quiet c)"
  by (simp add: handleSTAT_def returns_rules)

lemma handleSIZE_quiet [frames]: "returns (handleSIZE e a c) (quiet c)"
  by (simp add: handleSIZE_def returns_rules)

lemma handlePASV_quiet [frames]: "returns (handlePASV e c) (quiet c)"
  by (simp add: handlePASV_def returns_rules)

lemma handleEPSV_quiet [frames]: "returns (handleEPSV e a c) (quiet c)"
  by (simp add: handleEPSV_def returns_rules)

lemma handlePORT_quiet [frames]: "returns (handlePORT e a c) (quiet c)"
  by (simp add: handlePORT_def returns_rules)

lemma handleEPRT_quiet [frames]: "returns (handleEPRT e a c) (quiet c)"
  by (simp add: handleEPRT_def returns_rules)

lemma handleMODE_quiet [frames]: "returns (handleMODE e a c) (quiet c)"
  by (simp add: handleMODE_def returns_rules)

lemma handleTYPE_quiet [frames]: "returns (handleTYPE e a c) (quiet c)"
  by (simp add: handleTYPE_def returns_rules)

lemma handleREST_quiet [frames]: "returns (handleREST e a c) (quiet c)"
  by (simp add: handleREST_def returns_rules)

lemma handleOPTS_quiet [frames]: "returns (handleOPTS e a c) (quiet c)"
  by (simp add: handleOPTS_def returns_rules)

lemma handleABOR_quiet [frames]: "returns (handleABOR e c) (quiet c)"
  by (simp add: handleABOR_def returns_rules)

lemma handleALLO_quiet [frames]: "returns (handleALLO e a c) (quiet c)"
  by (simp add: handleALLO_def returns_rules)

lemma handleHELP_quiet [frames]: "returns (handleHELP e a c) (quiet c)"
  by (simp add: handleHELP_def returns_rules)

lemma handleQUIT_quiet [frames]: "returns (handleQUIT e c) (quiet c)"
  by (simp add: handleQUIT_def returns_rules)

lemma handleAUTH_quiet [frames]: "returns (handleAUTH e a c) (quiet c)"
  by (cases "current_virtual_host c") (simp_all add: handleAUTH_def upgradeToSSL_def returns_rules Let_def
      if_distrib[of "quiet c"])

lemma handlePBSZ_quiet [frames]: "returns (handlePBSZ e a c) (quiet c)"
  by (simp add: handlePBSZ_def returns_rules)

lemma handlePROT_quiet [frames]: "returns (handlePROT e a c) (quiet c)"
  by (simp add: handlePROT_def returns_rules)

lemma mode_z_quiet: "returns (mode_z_refusal e c) (quiet c)"
  by (simp add: mode_z_refusal_def returns_rules)

lemma retr_transfer_quiet: "quiet c d \<Longrightarrow> returns (retr_transfer e fd p d) (quiet c)"
  by (simp add: retr_transfer_def returns_rules)

lemma handleRETR_quiet [frames]: "returns (handleRETR e a c) (quiet c)"
  using returnsD[OF mode_z_quiet, of e c]
  by (simp add: handleRETR_def returns_rules retr_transfer_quiet)

end
