(* ===== verification/Login_Facts.thy ===== *)
theory Login_Facts
  imports Frames
begin

text \<open>
  What logging in means: which command can authenticate a connection and on what evidence, how
  the session count moves, and what the limits guarantee. \<open>same_login\<close> says that a command left
  the login state alone; every command that needs a login does (\<open>dispatch_user_login\<close>).
\<close>

definition same_login :: "conn \<Rightarrow> conn \<Rightarrow> bool" where
  "same_login c c' =
     (current_user c' = current_user c \<and> current_virtual_host c' = current_virtual_host c \<and>
      authenticated c' = authenticated c \<and> username c' = username c \<and> tracker c' = tracker c \<and>
      session_registered c' = session_registered c \<and> config c' = config c \<and>
      user_manager c' = user_manager c \<and> virtual_host_manager c' = virtual_host_manager c \<and>
      has_tracker c' = has_tracker c \<and> pam_auth c' = pam_auth c)"

lemma same_login_refl [simp]: "same_login c c"
  by (simp add: same_login_def)

lemma quiet_same_login: "quiet c c' \<Longrightarrow> same_login c c'"
  by (simp add: same_login_def quiet_def)

lemma returns_login: "returns m (quiet c) \<Longrightarrow> returns m (same_login c)"
  by (erule returns_mono) (rule quiet_same_login)

lemma same_login_helpers [simp]:
  "same_login c (sendResponse e r d) = same_login c d"
  "same_login c (sendResponses e rs d) = same_login c d"
  "same_login c (close_fd fd d) = same_login c d"
  "same_login c (snd (acceptDataConnection e d)) = same_login c d"
  "same_login c (d\<lparr>fs := f\<rparr>) = same_login c d"
  "same_login c (d\<lparr>current_directory := p\<rparr>) = same_login c d"
  "same_login c (d\<lparr>rename_from_path := p\<rparr>) = same_login c d"
  "same_login c (d\<lparr>resume_position := k\<rparr>) = same_login c d"
  "same_login c (d\<lparr>store_unique_name := p\<rparr>) = same_login c d"
  "same_login c (d\<lparr>slept := n\<rparr>) = same_login c d"
  "same_login c (d\<lparr>active := b\<rparr>) = same_login c d"
  by (simp_all add: same_login_def)

lemma same_login_trans: "same_login a b \<Longrightarrow> same_login b c \<Longrightarrow> same_login a c"
  by (simp add: same_login_def)

lemma entry_login:
  "returns (handleDELE e a c) (same_login c)" "returns (handleMKD e a c) (same_login c)"
  "returns (handleRMD e a c) (same_login c)" "returns (handleRNFR e a c) (same_login c)"
  "returns (handleRNTO e a c) (same_login c)" "returns (handleCWD e a c) (same_login c)"
  "returns (handleCDUP e c) (same_login c)" "returns (handleSITE e a c) (same_login c)"
  by (simp_all add: handleDELE_def handleMKD_def handleRMD_def handleRNFR_def handleRNTO_def
      handleCWD_def handleCDUP_def handleSITE_def site_chmod_def returns_rules)

lemma store_transfer_login: "same_login c d \<Longrightarrow> returns (store_transfer e fd p d) (same_login c)"
  by (simp add: store_transfer_def store_receive_def returns_rules)

lemma mode_z_login: "mode_z_refusal e c = Some d \<Longrightarrow> same_login c d"
  using returnsD[OF mode_z_quiet] quiet_same_login by blast

lemma handleSTOR_login: "same_login c d \<Longrightarrow> returns (handleSTOR e a d) (same_login c)"
  using same_login_trans[OF _ mode_z_login, of c d]
  by (simp add: handleSTOR_def returns_rules store_transfer_login)

lemma handleSTOU_login: "returns (handleSTOU e a c) (same_login c)"
proof -
  have "same_login c d'" if "handleSTOR e n (c\<lparr>store_unique_name := n, resume_position := k\<rparr>) = Some d'" for n k d'
    using returnsD[OF handleSTOR_login that] by simp
  then show ?thesis
    by (simp add: handleSTOU_def returns_rules)
qed

lemma handleAPPE_login: "returns (handleAPPE e a c) (same_login c)"
  by (simp add: handleAPPE_def returns_rules)

lemma dispatch_user_login: "returns (dispatch_user e cmd a c) (same_login c)"
  unfolding dispatch_user_def returns_if
  by (simp add: entry_login handleSTOR_login handleSTOU_login handleAPPE_login frames returns_login)

subsection \<open>Authentication\<close>

text \<open>The evidence a login rests on.\<close>

definition credentials_ok :: "env \<Rightarrow> string \<Rightarrow> conn \<Rightarrow> bool" where
  "credentials_ok e password c =
     (username c \<noteq> [] \<and>
      (authenticateUser (kdf e) (clock e) (auth_manager c) (username c) password \<or>
       pam_auth c \<and> pam_available e \<and> pam_accepts e (username c) password))"

lemma check_password_ok:
  "fst (check_password e p c) \<longleftrightarrow>
     authenticateUser (kdf e) (clock e) (auth_manager c) (username c) p \<or>
     pam_auth c \<and> pam_available e \<and> pam_accepts e (username c) p"
  by (auto simp: check_password_def authenticateUser_def Let_def split: option.splits)

lemma check_password_frame [simp]:
  "username (snd (check_password e p c)) = username c"
  "authenticated (snd (check_password e p c)) = authenticated c"
  "tracker (snd (check_password e p c)) = tracker c" "config (snd (check_password e p c)) = config c"
  "has_tracker (snd (check_password e p c)) = has_tracker c" "fs (snd (check_password e p c)) = fs c"
  "current_virtual_host (snd (check_password e p c)) = current_virtual_host c"
  "session_registered (snd (check_password e p c)) = session_registered c"
  "user_manager (snd (check_password e p c)) = user_manager c"
  "data_out (snd (check_password e p c)) = data_out c"
  "dialled (snd (check_password e p c)) = dialled c"
  by (simp_all add: check_password_def Let_def)

lemma applyChroot_frame:
  "applyChroot e c = Some d \<Longrightarrow>
   tracker d = tracker c \<and> username d = username c \<and> authenticated d = authenticated c \<and>
   config d = config c \<and> has_tracker d = has_tracker c \<and> data_out d = data_out c \<and>
   current_virtual_host d = current_virtual_host c \<and> current_user d = current_user c \<and>
   session_registered d = session_registered c"
  by (auto simp: applyChroot_def Let_def split: option.splits bool.splits if_splits)

lemma handlePASS_rejected:
  assumes "handlePASS e p c = Some c'"
    and "\<not> credentials_ok e p c \<or> session_limit_reply (snd (check_password e p c)) \<noteq> None"
  shows "authenticated c' = authenticated c \<and> tracker c' = tracker c \<and>
         session_registered c' = session_registered c \<and> username c' = username c"
  using assms by (auto simp: handlePASS_def credentials_ok_def check_password_ok[symmetric] case_prod_beta
      Let_def split: if_splits option.splits)

lemma handlePASS_accepted:
  assumes "handlePASS e p c = Some c'" "credentials_ok e p c"
    and "session_limit_reply (snd (check_password e p c)) = None"
  shows "authenticated c' \<and> username c' = username c \<and>
         current_user c' = current_user (snd (check_password e p c)) \<and>
         current_virtual_host c' = current_virtual_host c \<and> has_tracker c' = has_tracker c \<and>
         (has_tracker c \<longrightarrow> session_registered c') \<and>
         tracker c' = (if has_tracker c then registerSession (tracker c) (username c) (vhost_name c)
                       else tracker c)"
proof -
  let ?k = "snd (check_password e p c)"
  let ?d = "?k\<lparr>authenticated := True, current_directory := home_of ?k\<rparr>"
  let ?ch = "chroot_enabled (security (config ?d)) \<and> chroot_directory (security (config ?d)) \<noteq> []"
  obtain f where f: "(if ?ch then applyChroot e ?d else Some ?d) = Some f"
    and c': "c' = sendResponse e ''230 User logged in, proceed''
               (if has_tracker f
                then f\<lparr>tracker := registerSession (tracker f) (username f) (vhost_name f),
                       session_registered := True\<rparr> else f)"
  proof -
    have "username c \<noteq> []" "fst (check_password e p c)"
      using assms(2) by (simp_all add: credentials_ok_def check_password_ok)
    then show ?thesis
      using assms(1,3) that
      by (auto simp: handlePASS_def case_prod_beta Let_def split: option.splits)
  qed
  have "tracker f = tracker ?d \<and> username f = username ?d \<and> authenticated f = authenticated ?d \<and>
     has_tracker f = has_tracker ?d \<and> current_virtual_host f = current_virtual_host ?d \<and>
     current_user f = current_user ?d"
    using f applyChroot_frame[of e ?d f] by (cases ?ch) auto
  then show ?thesis
    unfolding c' by (simp add: vhost_name_def)
qed

text \<open>Only \<open>PASS\<close> can authenticate a connection or move the session count.\<close>

definition login_kept :: "conn \<Rightarrow> conn \<Rightarrow> bool" where
  "login_kept c c' =
     (tracker c' = tracker c \<and> session_registered c' = session_registered c \<and>
      (authenticated c' \<longrightarrow> authenticated c) \<and> config c' = config c \<and>
      has_tracker c' = has_tracker c \<and> user_manager c' = user_manager c)"

lemma quiet_login_kept: "quiet c c' \<Longrightarrow> login_kept c c'"
  by (simp add: quiet_def login_kept_def)

lemma same_login_kept: "same_login c c' \<Longrightarrow> login_kept c c'"
  by (simp add: same_login_def login_kept_def)

lemma returns_login_kept: "returns m (quiet c) \<Longrightarrow> returns m (login_kept c)"
  by (erule returns_mono) (rule quiet_login_kept)

lemma switch_login_kept:
  "returns (handleUSER e a c) (login_kept c)" "returns (handleHOST e a c) (login_kept c)"
  by (simp_all add: handleUSER_def handleHOST_def returns_rules login_kept_def)

lemma dispatch_user_login_kept: "returns (dispatch_user e cmd a c) (login_kept c)"
  using dispatch_user_login by (rule returns_mono) (rule same_login_kept)

lemma dispatch_login_kept: "cmd \<noteq> ''PASS'' \<Longrightarrow> returns (dispatch e cmd a c) (login_kept c)"
  unfolding dispatch_def returns_if
  by (simp add: frames returns_login_kept dispatch_user_login_kept switch_login_kept quiet_login_kept)

lemma dispatch_PASS: "dispatch e ''PASS'' a c = handlePASS e a c"
  by (simp add: dispatch_def)

end
