(* ===== verification/Fs_Facts.thy ===== *)
theory Fs_Facts
  imports Filesystem
begin

text \<open>
  What the file-system model guarantees: well-formed trees and links, where path resolution can
  end, and what \<open>normalizeForComparison\<close> returns. The server's path checks rest on two
  facts. A path that passes \<open>isWithin\<close> against the home directory and names something that exists
  names a location below the home, links or not (\<open>within_existing\<close>). In a tree without links
  the normal form of every absolute path spells the location its lexical normal form names
  (\<open>normalize_no_links\<close>), so there the check also covers targets that do not exist yet
  (\<open>isWithin_spells\<close>, \<open>resolve_spells\<close>).
\<close>

subsection \<open>Well-formed trees\<close>

definition wf_tree :: "tree \<Rightarrow> bool" where
  "wf_tree t =
     (kind_at t [] = Some Directory \<and>
      (\<forall>k\<in>set (map fst t). k \<noteq> [] \<longrightarrow>
          valid_name (last k) \<and> kind_at t (butlast k) = Some Directory))"

definition wf_fs :: "filesys \<Rightarrow> bool" where
  "wf_fs fs = (wf_tree (tree fs) \<and> kind_at (tree fs) (root fs) = Some Directory)"

definition no_links :: "tree \<Rightarrow> bool" where
  "no_links t =
     (\<forall>k\<in>set (map fst t). case kind_at t k of Some (Symlink _) \<Rightarrow> False | _ \<Rightarrow> True)"

lemma kind_at_key: "kind_at t c = Some k \<Longrightarrow> c \<in> set (map fst t)"
  by (force simp: kind_at_def dest: map_of_SomeD)

lemma no_links_kind: "no_links t \<Longrightarrow> kind_at t c \<noteq> Some (Symlink s)"
  using kind_at_key[of t c "Symlink s"] unfolding no_links_def by fastforce

lemma no_linksI: "(\<And>c s. kind_at t c \<noteq> Some (Symlink s)) \<Longrightarrow> no_links t"
  by (auto simp: no_links_def split: option.splits kind.splits)

lemma wf_snoc:
  assumes "wf_tree t" "kind_at t (c @ [x]) = Some k"
  shows "valid_name x \<and> kind_at t c = Some Directory"
proof -
  have "c @ [x] \<in> set (map fst t)"
    by (rule kind_at_key[OF assms(2)])
  then show ?thesis
    using assms(1) unfolding wf_tree_def by fastforce
qed

lemma wf_treeI:
  assumes "kind_at t [] = Some Directory"
    "\<And>c x k. kind_at t (c @ [x]) = Some k \<Longrightarrow> valid_name x \<and> kind_at t c = Some Directory"
  shows "wf_tree t"
proof -
  have "valid_name (last k) \<and> kind_at t (butlast k) = Some Directory"
    if k: "k \<in> set (map fst t)" "k \<noteq> []" for k
  proof -
    obtain i where "map_of t k = Some i"
      using k(1) by (metis image_set map_of_eq_None_iff not_None_eq)
    then show ?thesis
      using assms(2)[of "butlast k" "last k"] k(2) by (simp add: kind_at_def)
  qed
  then show ?thesis
    using assms(1) unfolding wf_tree_def by blast
qed

lemma wf_names: "wf_tree t \<Longrightarrow> kind_at t c = Some k \<Longrightarrow> x \<in> set c \<Longrightarrow> valid_name x"
proof (induction c arbitrary: k rule: rev_induct)
  case (snoc y ys)
  then show ?case
    using wf_snoc[of t ys y k] by auto
qed simp

lemma wf_loc: "wf_tree t \<Longrightarrow> kind_at t c = Some k \<Longrightarrow> valid_loc c"
  by (auto simp: valid_loc_def intro: wf_names)

lemma wf_ancestor: "wf_tree t \<Longrightarrow> kind_at t (a @ b) = Some k \<Longrightarrow> b \<noteq> [] \<Longrightarrow> kind_at t a = Some Directory"
proof (induction b arbitrary: k rule: rev_induct)
  case (snoc y ys)
  then have "kind_at t (a @ ys) = Some Directory"
    using wf_snoc[of t "a @ ys" y k] by simp
  with snoc show ?case
    by (cases "ys = []") auto
qed simp

lemma wf_prefix:
  "wf_tree t \<Longrightarrow> kind_at t c = Some k \<Longrightarrow> strict_prefix a c \<Longrightarrow> kind_at t a = Some Directory"
  by (metis strict_prefixE' wf_ancestor list.distinct(1))

lemma wf_fsD:
  "wf_fs fs \<Longrightarrow> wf_tree (tree fs)" "wf_fs fs \<Longrightarrow> kind_at (tree fs) (root fs) = Some Directory"
  by (auto simp: wf_fs_def)

subsection \<open>Where a walk ends\<close>

lemma walk_At:
  assumes "walk t r n c xs = At d" "wf_tree t" "kind_at t r = Some Directory"
    "kind_at t c \<noteq> None" "prefix r c"
  shows "kind_at t d \<noteq> None \<and> prefix r d"
  using assms
proof (induction t r n c xs rule: walk.induct)
  case (2 t r n c x xs)
  have up: "c \<noteq> r \<Longrightarrow> kind_at t (butlast c) \<noteq> None \<and> prefix r (butlast c)"
    using "2.prems" wf_snoc[of t "butlast c" "last c"]
    by (cases c rule: rev_cases) (auto simp: prefix_snoc)
  show ?case
    using "2.prems" "2.IH" up
    by (auto split: if_splits option.splits kind.splits nat.splits simp: prefix_snoc)
qed auto

lemma walk_Missing:
  assumes "walk t r n c xs = Missing d x rest" "wf_tree t" "kind_at t r = Some Directory"
    "kind_at t c \<noteq> None" "prefix r c" "\<And>y. y \<in> set xs \<Longrightarrow> CHR ''/'' \<notin> set y"
  shows "kind_at t d = Some Directory \<and> kind_at t (d @ [x]) = None \<and> prefix r d \<and> valid_name x"
  using assms
proof (induction t r n c xs rule: walk.induct)
  case (2 t r n c x' xs)
  have up: "c \<noteq> r \<Longrightarrow> kind_at t (butlast c) \<noteq> None \<and> prefix r (butlast c)"
    using "2.prems" wf_snoc[of t "butlast c" "last c"]
    by (cases c rule: rev_cases) (auto simp: prefix_snoc)
  have link: "\<And>y tg. y \<in> set (split_on CHR ''/'' tg @ xs) \<Longrightarrow> CHR ''/'' \<notin> set y"
    using "2.prems"(6) split_on_parts_free by fastforce
  show ?case
    using "2.prems" "2.IH" up link
    by (auto split: if_splits option.splits kind.splits nat.splits
        simp: prefix_snoc valid_name_def)
qed auto

text \<open>Without links the walk is a plain descent: it splits at any point, keeps its budget, and
  never loops.\<close>

lemma walk_append:
  "no_links t \<Longrightarrow> walk t r n c (xs @ ys) =
     (case walk t r n c xs of
        At d \<Rightarrow> walk t r n d ys | Missing d x rest \<Rightarrow> Missing d x (rest @ ys) | w \<Rightarrow> w)"
proof (induction t r n c xs rule: walk.induct)
  case (2 t r n c x xs)
  then show ?case
    using no_links_kind[OF "2.prems"]
    by (auto split: option.splits kind.splits)
qed simp

lemma walk_no_loop: "no_links t \<Longrightarrow> walk t r n c xs \<noteq> Loop"
proof (induction t r n c xs rule: walk.induct)
  case (2 t r n c x xs)
  then show ?case
    using no_links_kind[OF "2.prems"]
    by (auto split: option.splits kind.splits)
qed simp

lemma walk_name:
  assumes "no_links t" "valid_name x"
  shows "walk t r n c (x # xs) =
     (if kind_at t c \<noteq> Some Directory then NotDir
      else if kind_at t (c @ [x]) = None then Missing c x xs
      else walk t r n (c @ [x]) xs)"
  using no_links_kind[OF assms(1)] valid_name_simps[OF assms(2)]
  by (auto split: option.splits kind.splits)

lemma walk_down:
  assumes "no_links t" "valid_loc xs"
  shows "walk t r n c xs = At d \<Longrightarrow> d = c @ xs"
  using assms(2)
proof (induction xs arbitrary: c)
  case (Cons x xs)
  then have "walk t r n (c @ [x]) xs = At d"
    using walk_name[OF assms(1), of x r n c xs] by (auto split: if_splits)
  then show ?case
    using Cons.IH[of "c @ [x]"] Cons.prems(2) by simp
qed simp

lemma walk_missing_names:
  assumes "no_links t" "valid_loc xs"
  shows "walk t r n c xs = Missing d x rest \<Longrightarrow> d @ x # rest = c @ xs"
  using assms(2)
proof (induction xs arbitrary: c)
  case (Cons y ys)
  then show ?case
    using walk_name[OF assms(1), of y r n c ys] Cons.IH[of "c @ [y]"]
    by (auto split: if_splits simp del: walk.simps)
qed simp

lemma walk_to:
  assumes "no_links t" "wf_tree t" "kind_at t (c @ xs) \<noteq> None"
  shows "walk t r n c xs = At (c @ xs)"
  using assms(3)
proof (induction xs arbitrary: c)
  case (Cons x xs)
  obtain k where k: "kind_at t (c @ x # xs) = Some k"
    using Cons.prems by auto
  have c: "kind_at t c = Some Directory"
    using wf_ancestor[OF assms(2) k] by simp
  have x: "valid_name x"
    using wf_names[OF assms(2) k] by simp
  have "kind_at t (c @ [x]) \<noteq> None"
    using k wf_ancestor[OF assms(2), of "c @ [x]" xs k] by (cases "xs = []") auto
  then show ?case
    using Cons.IH[of "c @ [x]"] k c walk_name[OF assms(1) x, of r n c xs] by simp
qed simp

subsection \<open>What normalizing returns\<close>

lemma resolve_abs:
  "is_absolute p \<Longrightarrow> resolve fs p = walk_from fs (root fs) (split_on CHR ''/'' p)"
  by (cases p) (auto simp: resolve_def start_of_def is_absolute_def)

lemma resolve_At:
  assumes "wf_fs fs" "is_absolute p" "resolve fs p = At c"
  shows "kind_at (tree fs) c \<noteq> None" "prefix (root fs) c"
  using walk_At[of "tree fs" "root fs" symlink_limit "root fs" "split_on CHR ''/'' p" c] assms
  by (auto simp: resolve_abs walk_from_def wf_fs_def)

lemma resolve_Missing:
  assumes "wf_fs fs" "is_absolute p" "resolve fs p = Missing d x rest"
  shows "kind_at (tree fs) d = Some Directory" "kind_at (tree fs) (d @ [x]) = None"
    "prefix (root fs) d" "valid_name x"
  using walk_Missing[of "tree fs" "root fs" symlink_limit "root fs" "split_on CHR ''/'' p" d x rest]
    assms split_on_parts_free[of _ "CHR ''/''" p]
  by (auto simp: resolve_abs walk_from_def wf_fs_def)

lemma valid_loc_drop: "valid_loc c \<Longrightarrow> valid_loc (drop n c)"
  by (auto simp: valid_loc_def dest: in_set_dropD)

lemma names_below_root:
  assumes "wf_fs fs" "kind_at (tree fs) c \<noteq> None"
  shows "valid_loc (drop n c)"
  using wf_loc[OF wf_fsD(1)[OF assms(1)], of c] assms(2) valid_loc_drop by auto

lemma normalize_existing:
  assumes "wf_fs fs" "is_absolute p" "resolve fs p = At c"
  shows "normalizeForComparison fs p = string_of_loc (drop (length (root fs)) c)"
  using assms(3)
  by (auto simp: normalizeForComparison_def weakly_canonical_def status_def canonical_def
      split: option.splits kind.splits)

lemma prefix_drop:
  "prefix r h \<Longrightarrow> prefix r c \<Longrightarrow> prefix (drop (length r) h) (drop (length r) c) = prefix h c"
  by (auto elim!: prefixE simp: prefix_def)

lemma within_existing:
  assumes "wf_fs fs" "is_absolute home" "is_absolute p" "resolve fs home = At h"
    and "resolve fs p = At c"
    and "isWithin (normalizeForComparison fs p) (normalizeForComparison fs home)"
  shows "prefix h c"
proof -
  note h = resolve_At[OF assms(1,2,4)] and c = resolve_At[OF assms(1,3,5)]
  have "prefix (drop (length (root fs)) h) (drop (length (root fs)) c)"
    using assms(6) isWithin_loc[OF names_below_root[OF assms(1) c(1)]
        names_below_root[OF assms(1) h(1)]]
    by (simp add: normalize_existing[OF assms(1,2,4)] normalize_existing[OF assms(1,3,5)])
  then show ?thesis
    using h(2) c(2) prefix_drop by blast
qed

text \<open>Appending one element to a path that resolves.\<close>

lemma split_trailing:
  "trailing_slash p \<Longrightarrow> \<exists>q. p = q @ ''/'' \<and> split_on CHR ''/'' p = split_on CHR ''/'' q @ [[]]"
  by (cases p rule: rev_cases) (auto simp: trailing_slash_def split_on_app)

lemma resolve_append:
  assumes "no_links (tree fs)" "is_absolute p" "resolve fs p = At c" "CHR ''/'' \<notin> set e"
  shows "resolve fs (path_append p e) = walk_from fs c [e]"
proof -
  have e: "\<not> is_absolute e" "split_on CHR ''/'' e = [e]"
    using assms(4) by (auto simp: is_absolute_def split_on_free split: list.splits)
  have p: "p \<noteq> []"
    using assms(2) by (auto simp: is_absolute_def)
  have abs: "is_absolute (path_append p e)"
    using assms(2) p e by (cases p) (auto simp: path_append_def is_absolute_def)
  show ?thesis
  proof (cases "trailing_slash p")
    case True
    then obtain q where q: "p = q @ ''/''" "split_on CHR ''/'' p = split_on CHR ''/'' q @ [[]]"
      using split_trailing by blast
    have "walk_from fs (root fs) (split_on CHR ''/'' q @ [[]]) = At c"
      using assms(2,3) q by (simp add: resolve_abs)
    then have "walk_from fs (root fs) (split_on CHR ''/'' q) = At c"
      by (auto simp: walk_from_def walk_append[OF assms(1)] split: walked.splits if_splits)
    moreover have "split_on CHR ''/'' (path_append p e) = split_on CHR ''/'' q @ [e]"
      using True e p q by (simp add: path_append_def split_on_app)
    ultimately show ?thesis
      using abs by (simp add: resolve_abs walk_from_def walk_append[OF assms(1)])
  next
    case False
    then have "split_on CHR ''/'' (path_append p e) = split_on CHR ''/'' p @ [e]"
      using p e by (simp add: path_append_def root_dir_def split_on_app)
    then show ?thesis
      using abs assms(2,3) by (simp add: resolve_abs walk_from_def walk_append[OF assms(1)])
  qed
qed

lemma path_elems_abs:
  "is_absolute p \<Longrightarrow> path_elems p = root_dir # segments p @
     (if segments p \<noteq> [] \<and> trailing_slash p then [[]] else [])"
  by (simp add: path_elems_def)

lemma leading_from_root:
  assumes "wf_fs fs"
  shows "leading_existing fs [] (root_dir # es) = leading_existing fs root_dir es"
    "resolve fs root_dir = At (root fs)" "is_absolute root_dir"
proof -
  show r: "resolve fs root_dir = At (root fs)"
    using wf_fsD(2)[OF assms]
    by (simp add: root_dir_def resolve_def start_of_def is_absolute_def walk_from_def)
  show abs: "is_absolute root_dir"
    by (simp add: root_dir_def is_absolute_def)
  show "leading_existing fs [] (root_dir # es) = leading_existing fs root_dir es"
    using r abs wf_fsD(2)[OF assms] by (simp add: path_append_def status_def)
qed

lemma leading_existing_prefix:
  assumes "no_links (tree fs)" "is_absolute p" "resolve fs p = At c"
    "\<And>e. e \<in> set es \<Longrightarrow> CHR ''/'' \<notin> set e"
  shows "\<exists>q pre rest d. leading_existing fs p es = (q, rest, False) \<and> es = pre @ rest \<and>
           is_absolute q \<and> resolve fs q = At d \<and> walk_from fs c pre = At d"
  using assms(2-4)
proof (induction es arbitrary: p c)
  case Nil
  then show ?case by (auto simp: walk_from_def)
next
  case (Cons e es)
  have r: "resolve fs (path_append p e) = walk_from fs c [e]"
    using resolve_append[OF assms(1)] Cons.prems by simp
  have stop: ?case if "status fs (path_append p e) = FNotFound"
    using that Cons.prems by (auto simp: walk_from_def)
  show ?case
  proof (cases "walk_from fs c [e]")
    case (At c')
    have w: "walk_from fs c (e # pre) = walk_from fs c' pre" for pre
      using walk_append[OF assms(1), of "root fs" symlink_limit c "[e]" pre] At
      by (simp add: walk_from_def del: walk.simps)
    have "\<exists>q pre rest d. leading_existing fs (path_append p e) es = (q, rest, False) \<and>
        es = pre @ rest \<and> is_absolute q \<and> resolve fs q = At d \<and> walk_from fs c' pre = At d"
      using Cons.IH[OF path_append_abs[OF Cons.prems(1)], of e c'] r At Cons.prems by simp
    then obtain q pre rest d where
      "leading_existing fs (path_append p e) es = (q, rest, False)" "es = pre @ rest"
      "is_absolute q" "resolve fs q = At d" "walk_from fs c (e # pre) = At d"
      using w by metis
    moreover have "status fs (path_append p e) \<in> {FDir, FFile}"
      using r At by (auto simp: status_def split: option.splits kind.splits)
    ultimately show ?thesis
      by (metis (no_types, lifting) append_Cons empty_iff ftype.simps(15,16) insert_iff
          leading_existing.simps(2))
  next
    case Missing
    then show ?thesis using r by (intro stop) (simp add: status_def)
  next
    case NotDir
    then show ?thesis using r by (intro stop) (simp add: status_def)
  next
    case Loop
    then show ?thesis
      using walk_no_loop[OF assms(1)] unfolding walk_from_def by metis
  qed
qed

text \<open>Walking keeps the stack of the lexical normal form, when there are no links.\<close>

lemma walk_stack:
  assumes "no_links t" "valid_loc st" "\<And>x. x \<in> set xs \<Longrightarrow> CHR ''/'' \<notin> set x"
    "walk t r n (r @ rev st) xs = At d"
  shows "d = r @ rev (foldl (norm_push True) st xs) \<and> valid_loc (foldl (norm_push True) st xs)"
  using assms(2-4)
proof (induction xs arbitrary: st)
  case (Cons x xs)
  have dir: "kind_at t (r @ rev st) = Some Directory"
    using Cons.prems(3) by (auto split: if_splits)
  let ?st = "norm_push True st x"
  have "walk t r n (r @ rev ?st) xs = At d \<and> valid_loc ?st"
  proof (cases "x = [] \<or> x = ''.'' \<or> x = ''..''")
    case True
    have nd: "\<And>y ys. st = y # ys \<Longrightarrow> y \<noteq> ''..''"
      using Cons.prems(1) by (auto simp: valid_name_def)
    have "walk t r n (r @ rev ?st) xs = At d"
      using True dir Cons.prems nd by (cases st) (auto split: if_splits simp: butlast_append)
    moreover have "valid_loc ?st"
      using True Cons.prems(1) nd by (cases st) auto
    ultimately show ?thesis ..
  next
    case False
    then have x: "valid_name x"
      using Cons.prems(2) by (auto simp: valid_name_def)
    then show ?thesis
      using False dir Cons.prems walk_name[OF assms(1) x, of r n "r @ rev st" xs]
      by (auto split: if_splits simp del: walk.simps)
  qed
  then show ?case
    using Cons.IH[of ?st] Cons.prems(2) by simp
qed simp

lemma resolve_At_normal:
  assumes "no_links (tree fs)" "is_absolute p" "resolve fs p = At d"
  shows "d = root fs @ normal_loc p"
  using walk_stack[OF assms(1), of "[]" "split_on CHR ''/'' p" "root fs" symlink_limit d] assms
    split_on_parts_free[of _ "CHR ''/''" p]
  by (simp add: resolve_abs walk_from_def normal_loc_split)

text \<open>Without links, normalizing an absolute path gives the location of its lexical normal form,
  whatever exists in the tree.\<close>

definition spells :: "string \<Rightarrow> loc \<Rightarrow> bool" where
  "spells p c = (p = string_of_loc c \<or> c \<noteq> [] \<and> p = string_of_loc c @ root_dir)"

lemma spells_normal: "is_absolute p \<Longrightarrow> spells (lexically_normal p) (normal_loc p)"
  using lexically_normal_abs by (simp add: spells_def)

lemma normalize_no_links:
  assumes "wf_fs fs" "no_links (tree fs)" "is_absolute p"
  shows "spells (normalizeForComparison fs p) (normal_loc p)"
proof (cases "status fs p = FNotFound")
  case False
  moreover have "status fs p \<noteq> FNone"
    using walk_no_loop[OF assms(2)] assms(3)
    by (auto simp: status_def resolve_abs walk_from_def split: walked.splits option.splits kind.splits)
  ultimately obtain c where "resolve fs p = At c"
    by (auto simp: status_def split: walked.splits)
  then show ?thesis
    using normalize_existing[OF assms(1,3)] resolve_At_normal[OF assms(2,3)]
    by (simp add: spells_def)
next
  case True
  let ?es = "segments p @ (if segments p \<noteq> [] \<and> trailing_slash p then [[]] else [])"
  have slash: "\<And>e. e \<in> set ?es \<Longrightarrow> CHR ''/'' \<notin> set e"
    using segments_free by (auto split: if_splits)
  obtain q pre rest d where q: "leading_existing fs root_dir ?es = (q, rest, False)"
      "?es = pre @ rest" "is_absolute q" "resolve fs q = At d" "walk_from fs (root fs) pre = At d"
    using leading_existing_prefix[OF assms(2) leading_from_root(3,2)[OF assms(1)] slash] by blast
  have pre: "\<And>e. e \<in> set pre \<Longrightarrow> CHR ''/'' \<notin> set e" and rest: "\<And>e. e \<in> set rest \<Longrightarrow> CHR ''/'' \<notin> set e"
    using slash q(2) by (metis UnCI set_append)+
  let ?st = "foldl (norm_push True) [] pre"
  have d: "d = root fs @ rev ?st" "valid_loc ?st"
    using walk_stack[OF assms(2), of "[]" pre "root fs" symlink_limit d] pre q(5)
    by (auto simp: walk_from_def)
  let ?r = "foldl path_append (string_of_loc (rev ?st)) rest"
  have "q \<noteq> []"
    using q(3) by (auto simp: is_absolute_def)
  then have "weakly_canonical fs p = Some (lexically_normal ?r)"
    using True q(1,4) d(1) leading_from_root(1)[OF assms(1)] path_elems_abs[OF assms(3)]
    by (simp add: weakly_canonical_def canonical_def)
  moreover have "normal_loc ?r = normal_loc p"
  proof -
    have "rev (foldl (norm_push True) ?st rest) = rev (foldl (norm_push True) [] (pre @ rest))"
      by simp
    also have "\<dots> = rev (foldl (norm_push True) [] ?es)"
      by (simp only: q(2))
    also have "\<dots> = normal_loc p"
      by (simp add: normal_loc_def norm_stack_def)
    finally show ?thesis
      using normal_loc_appends[of "rev ?st" rest] d(2) rest by simp
  qed
  moreover have "is_absolute ?r"
    using segments_appends[of "string_of_loc (rev ?st)" rest] rest by simp
  ultimately show ?thesis
    using spells_normal[of ?r] by (auto simp: normalizeForComparison_def spells_def root_dir_def)
qed

lemma isWithin_spells:
  assumes "spells p c" "spells q h" "valid_loc c" "valid_loc h" "isWithin p q"
  shows "prefix h c"
proof -
  obtain cs where cs: "path_elems p = root_dir # c @ cs" "cs = [] \<or> cs = [[]]"
    using assms(1,3) path_elems_loc path_elems_loc_slash by (auto simp: spells_def)
  obtain hs where hs: "path_elems q = root_dir # h @ hs"
    using assms(2,4) path_elems_loc path_elems_loc_slash by (auto simp: spells_def)
  have "prefix (h @ hs) (c @ cs)"
    using assms(5) by (simp add: isWithin_iff cs(1) hs)
  then have "prefix h (c @ cs)"
    by (rule append_prefixD)
  moreover have "[] \<notin> set h"
    using valid_loc_parts assms(4) by blast
  ultimately show ?thesis
    using cs(2) by (auto simp: prefix_snoc)
qed

text \<open>What a spelled location resolves to.\<close>

lemma resolve_spells:
  assumes "no_links (tree fs)" "valid_loc c" "spells p c"
  shows "resolve fs p = At d \<Longrightarrow> d = root fs @ c"
    and "resolve fs p = Missing d x rest \<Longrightarrow>
         \<exists>ys. d @ x # ys = root fs @ c \<and> (rest = ys \<or> rest = ys @ [[]])"
proof -
  have abs: "is_absolute p"
    using assms(3) by (auto simp: spells_def string_of_loc_def root_dir_def is_absolute_def)
  have n: "normal_loc p = c"
    using assms(2,3) by (auto simp: spells_def normal_loc_loc normal_loc_loc_slash)
  show "resolve fs p = At d \<Longrightarrow> d = root fs @ c"
    using resolve_At_normal[OF assms(1) abs] n by simp
  have "split_on CHR ''/'' p = [] # c @ [] \<or> split_on CHR ''/'' p = [] # c @ [[]]"
    using assms(3) split_on_loc[OF assms(2)]
    by (auto simp: spells_def root_dir_def split_on_app)
  then obtain e where e: "split_on CHR ''/'' p = [] # c @ e" "e = [] \<or> e = [[]]"
    by blast
  assume m: "resolve fs p = Missing d x rest"
  then have w: "walk_from fs (root fs) (c @ e) = Missing d x rest"
    using e(1) abs by (auto simp: resolve_abs walk_from_def split: if_splits)
  show "\<exists>ys. d @ x # ys = root fs @ c \<and> (rest = ys \<or> rest = ys @ [[]])"
  proof (cases "walk_from fs (root fs) c")
    case (Missing d' x' ys)
    have "d' @ x' # ys = root fs @ c"
      using Missing walk_missing_names[OF assms(1,2)] by (simp add: walk_from_def)
    then show ?thesis
      using Missing w e(2) by (auto simp: walk_from_def walk_append[OF assms(1)])
  qed (use w e(2) in \<open>auto simp: walk_from_def walk_append[OF assms(1)] split: if_splits\<close>)
qed

end
