(* ===== verification/Fs_Effects.thy ===== *)
theory Fs_Effects
  imports Fs_Facts
begin

text \<open>
  What each file-system operation may change. \<open>fs_step h fs fs'\<close> says that going from \<open>fs\<close> to
  \<open>fs'\<close> leaves every location outside \<open>h\<close> alone and keeps the tree well formed and free of
  links; every operation called on a path that spells a location below \<open>h\<close> makes such a step
  (the \<open>step\<close> lemmas, in the collection \<open>fs_steps\<close>), and steps compose.
\<close>

named_theorems fs_steps \<open>operations that make an fs_step\<close>

definition good :: "filesys \<Rightarrow> bool" where
  "good fs = (wf_fs fs \<and> no_links (tree fs))"

definition fs_step :: "loc \<Rightarrow> filesys \<Rightarrow> filesys \<Rightarrow> bool" where
  "fs_step h fs fs' =
     (root fs' = root fs \<and> cwd fs' = cwd fs \<and> refuses fs' = refuses fs \<and>
      (\<forall>k. \<not> prefix h k \<longrightarrow> map_of (tree fs') k = map_of (tree fs) k) \<and> good fs')"

lemma fs_step_refl: "good fs \<Longrightarrow> fs_step h fs fs"
  by (simp add: fs_step_def)

lemma fs_step_trans: "fs_step h a b \<Longrightarrow> fs_step h b c \<Longrightarrow> fs_step h a c"
  by (simp add: fs_step_def)

lemma fs_stepD:
  "fs_step h fs fs' \<Longrightarrow> root fs' = root fs" "fs_step h fs fs' \<Longrightarrow> good fs'"
  "fs_step h fs fs' \<Longrightarrow> \<not> prefix h k \<Longrightarrow> map_of (tree fs') k = map_of (tree fs) k"
  by (auto simp: fs_step_def)

lemma goodD: "good fs \<Longrightarrow> wf_fs fs" "good fs \<Longrightarrow> no_links (tree fs)" "good fs \<Longrightarrow> wf_tree (tree fs)"
  by (auto simp: good_def wf_fs_def)

text \<open>The parent of a home directory stays a directory through steps inside the home.\<close>

definition parent_dir :: "filesys \<Rightarrow> loc \<Rightarrow> bool" where
  "parent_dir fs h = (h \<noteq> root fs \<longrightarrow> kind_at (tree fs) (butlast h) = Some Directory)"

lemma butlast_not_below: "h \<noteq> [] \<Longrightarrow> \<not> prefix h (butlast h)"
  by (metis append_butlast_last_id not_Cons_self2 prefix_order.antisym prefix_snoc
      prefix_order.refl self_append_conv)

lemma parent_dir_step: "fs_step h fs fs' \<Longrightarrow> h \<noteq> [] \<Longrightarrow> parent_dir fs h \<Longrightarrow> parent_dir fs' h"
  using butlast_not_below[of h] by (simp add: fs_step_def parent_dir_def kind_at_def)

subsection \<open>Kinds after an update\<close>

lemma kind_put: "kind_at (tree (put_node fs c k m)) = (kind_at (tree fs))(c := Some k)"
  by (auto simp: kind_at_def put_node_def update_conv' fun_eq_iff)

lemma kind_del: "kind_at (tree (del_node fs c)) = (kind_at (tree fs))(c := None)"
  by (auto simp: kind_at_def del_node_def delete_conv' fun_eq_iff)

lemma map_of_rekey:
  "(\<And>k. k \<in> fst ` set l \<Longrightarrow> \<not> prefix d k) \<Longrightarrow>
   map_of (map (\<lambda>(k, i). if prefix c k then (d @ drop (length c) k, i) else (k, i)) l) k =
     (if prefix d k then map_of l (c @ drop (length d) k)
      else if prefix c k then None else map_of l k)"
proof (induction l)
  case (Cons e l)
  obtain a i where e: "e = (a, i)"
    by (cases e)
  have a: "\<not> prefix d a"
    using Cons.prems[of a] e by simp
  have IH: "map_of (map (\<lambda>(k, i). if prefix c k then (d @ drop (length c) k, i) else (k, i)) l) k =
     (if prefix d k then map_of l (c @ drop (length d) k)
      else if prefix c k then None else map_of l k)"
    using Cons.prems by (intro Cons.IH) auto
  have moved: "prefix c a \<Longrightarrow> prefix d k \<Longrightarrow>
        (k = d @ drop (length c) a) = (c @ drop (length d) k = a)"
    by (auto elim!: prefixE)
  have new: "d @ drop (length c) a \<noteq> a"
    using a by (metis prefixI)
  show ?case
  proof (cases "prefix c a")
    case True
    then show ?thesis
      using IH moved new e by auto
  next
    case False
    then show ?thesis
      using IH a e by auto
  qed
qed simp

lemma map_of_move:
  assumes "\<And>k i. strict_prefix d k \<Longrightarrow> map_of t k = None" "\<not> prefix c d"
  shows "map_of (move_tree t c d) k =
     (if prefix d k then map_of t (c @ drop (length d) k)
      else if prefix c k then None else map_of t k)"
proof -
  have "\<not> prefix d k" if "k \<in> fst ` set (AList.delete d t)" for k
  proof
    assume "prefix d k"
    then have "map_of (AList.delete d t) k = None"
      using assms(1)[of k] by (cases "k = d") (auto simp: delete_conv' strict_prefix_def)
    then show False
      using that by (auto simp: map_of_eq_None_iff)
  qed
  moreover have "c @ s \<noteq> d" for s
    using assms(2) by auto
  ultimately show ?thesis
    by (simp add: move_tree_def map_of_rekey delete_conv')
qed

lemma kind_move:
  assumes "\<And>k i. strict_prefix d k \<Longrightarrow> map_of t k = None" "\<not> prefix c d"
  shows "kind_at (move_tree t c d) k =
     (if prefix d k then kind_at t (c @ drop (length d) k)
      else if prefix c k then None else kind_at t k)"
  using map_of_move[OF assms] by (simp add: kind_at_def)

subsection \<open>Updates that are steps\<close>

lemma put_step:
  assumes "good fs" "prefix h c" "\<And>s. k \<noteq> Symlink s"
    and "kind_at (tree fs) c = None \<and> (\<exists>d x. c = d @ [x] \<and> valid_name x \<and>
           kind_at (tree fs) d = Some Directory) \<or>
         (\<exists>k0. kind_at (tree fs) c = Some k0 \<and> (k = Directory) = (k0 = Directory))"
  shows "fs_step h fs (put_node fs c k m)"
proof -
  let ?t = "tree (put_node fs c k m)"
  note wf = goodD(3)[OF assms(1)]
  have dirs: "kind_at ?t d = Some Directory" if "kind_at (tree fs) d = Some Directory" for d
    using that assms(4) by (auto simp: kind_put)
  have "wf_tree ?t"
  proof (rule wf_treeI)
    show "kind_at ?t [] = Some Directory"
      using wf by (intro dirs) (simp add: wf_tree_def)
  next
    fix d x k'
    assume k': "kind_at ?t (d @ [x]) = Some k'"
    have "valid_name x \<and> kind_at (tree fs) d = Some Directory"
      using k' assms(4) wf_snoc[OF wf, of d x] by (auto simp: kind_put split: if_splits)
    then show "valid_name x \<and> kind_at ?t d = Some Directory"
      using dirs by simp
  qed
  moreover have "kind_at ?t (root fs) = Some Directory"
    using assms(1) by (intro dirs) (simp add: good_def wf_fs_def)
  moreover have "no_links ?t"
    using no_links_kind[OF goodD(2)[OF assms(1)]] assms(3)
    by (intro no_linksI) (auto simp: kind_put)
  moreover have "map_of ?t k' = map_of (tree fs) k'" if "\<not> prefix h k'" for k'
    using that assms(2) by (auto simp: put_node_def update_conv')
  ultimately show ?thesis
    by (auto simp: fs_step_def good_def wf_fs_def put_node_def)
qed

lemma children_Nil:
  assumes "wf_tree t" "children t c = []" "strict_prefix c k"
  shows "map_of t k = None"
proof (rule ccontr)
  assume "map_of t k \<noteq> None"
  then obtain i where k: "kind_at t k = Some i"
    by (auto simp: kind_at_def)
  obtain x ys where kx: "k = c @ x # ys"
    using assms(3) by (auto elim: strict_prefixE')
  then have "kind_at t (c @ [x]) \<noteq> None"
    using k wf_ancestor[OF assms(1), of "c @ [x]" ys i] by (cases "ys = []") auto
  then have "c @ [x] \<in> set (map fst t)"
    using kind_at_key by fastforce
  then have "x \<in> set (children t c)"
    by (force simp: children_def)
  then show False
    using assms(2) by simp
qed

lemma file_no_children:
  assumes "wf_tree t" "kind_at t c \<noteq> Some Directory" "strict_prefix c k"
  shows "map_of t k = None"
  using wf_prefix[OF assms(1) _ assms(3)] assms(2) by (cases "map_of t k") (auto simp: kind_at_def)

lemma del_step:
  assumes "good fs" "prefix h c" "c \<noteq> root fs" "prefix (root fs) c"
    and "kind_at (tree fs) c = Some Directory \<longrightarrow> children (tree fs) c = []"
  shows "fs_step h fs (del_node fs c)"
proof -
  let ?t = "tree (del_node fs c)"
  note wf = goodD(3)[OF assms(1)]
  have leaf: "map_of (tree fs) k = None" if "strict_prefix c k" for k
    using that assms(5) children_Nil[OF wf, of c k] file_no_children[OF wf, of c k] by blast
  have "wf_tree ?t"
  proof (rule wf_treeI)
    have "c \<noteq> []"
      using assms(3,4) by auto
    then show "kind_at ?t [] = Some Directory"
      using wf by (simp add: kind_del wf_tree_def)
  next
    fix d x k'
    assume k': "kind_at ?t (d @ [x]) = Some k'"
    then have "kind_at (tree fs) (d @ [x]) \<noteq> None"
      by (auto simp: kind_del split: if_splits)
    then have "d \<noteq> c"
      using leaf[of "d @ [x]"] by (auto simp: kind_at_def strict_prefix_def)
    then show "valid_name x \<and> kind_at ?t d = Some Directory"
      using k' wf_snoc[OF wf, of d x] by (auto simp: kind_del split: if_splits)
  qed
  moreover have "kind_at ?t (root fs) = Some Directory"
    using assms(1,3) by (simp add: kind_del good_def wf_fs_def)
  moreover have "no_links ?t"
    using no_links_kind[OF goodD(2)[OF assms(1)]] by (intro no_linksI) (simp add: kind_del)
  moreover have "map_of ?t k' = map_of (tree fs) k'" if "\<not> prefix h k'" for k'
    using that assms(2) by (auto simp: del_node_def delete_conv')
  ultimately show ?thesis
    by (auto simp: fs_step_def good_def wf_fs_def del_node_def)
qed

lemma move_step:
  assumes "good fs" "prefix h c" "prefix h d" "prefix (root fs) c" "prefix (root fs) d"
    and "move_ok fs c d" "c \<noteq> d" "kind_at (tree fs) c \<noteq> None"
    and parent: "d = e @ [x]" "valid_name x" "kind_at (tree fs) e = Some Directory"
  shows "fs_step h fs (fs\<lparr>tree := move_tree (tree fs) c d\<rparr>)"
proof -
  let ?t = "move_tree (tree fs) c d"
  note wf = goodD(3)[OF assms(1)]
  have cd: "\<not> prefix c d" "c \<noteq> root fs" "d \<noteq> root fs"
    using assms(6,7) by (auto simp: move_ok_def strict_prefix_def)
  have leaf: "map_of (tree fs) k = None" if "strict_prefix d k" for k
    using that assms(6,7) children_Nil[OF wf, of d k] file_no_children[OF wf, of d k]
    by (auto simp: move_ok_def split: option.splits kind.splits)
  note km = kind_move[of d "tree fs" c, OF leaf cd(1)] and mm = map_of_move[of d "tree fs" c, OF leaf cd(1)]
  have ne: "c \<noteq> []" "d \<noteq> []"
    using cd assms(4) parent(1) by auto
  have above: "\<not> prefix d (root fs)" "\<not> prefix c (root fs)"
    using cd assms(4,5) prefix_order.antisym by blast+
  have "wf_tree ?t"
  proof (rule wf_treeI)
    show "kind_at ?t [] = Some Directory"
      using wf ne by (simp add: km wf_tree_def)
  next
    fix a y k'
    assume k': "kind_at ?t (a @ [y]) = Some k'"
    consider (at) "a @ [y] = d" | (below) "prefix d a" | (old) "\<not> prefix d (a @ [y])" "\<not> prefix c (a @ [y])"
      using k' by (auto simp: km prefix_snoc split: if_splits)
    then show "valid_name y \<and> kind_at ?t a = Some Directory"
    proof cases
      case at
      then have "a = e" "y = x" "\<not> prefix d a" "\<not> prefix c a"
        using parent(1) cd(1) by (auto dest: prefix_length_le simp: prefix_snoc)
      then show ?thesis
        using parent(2,3) by (simp add: km)
    next
      case below
      then have "kind_at (tree fs) ((c @ drop (length d) a) @ [y]) = Some k'"
        using k' prefix_length_le[OF below] by (simp add: km)
      then show ?thesis
        using wf_snoc[OF wf, of "c @ drop (length d) a" y k'] below by (simp add: km)
    next
      case old
      then show ?thesis
        using k' wf_snoc[OF wf, of a y k'] by (simp add: km)
    qed
  qed
  moreover have "kind_at ?t (root fs) = Some Directory"
    using assms(1) above by (simp add: km good_def wf_fs_def)
  moreover have "no_links ?t"
    using no_links_kind[OF goodD(2)[OF assms(1)]] by (intro no_linksI) (simp add: km)
  moreover have "map_of ?t k' = map_of (tree fs) k'" if "\<not> prefix h k'" for k'
    using that assms(2,3) prefix_order.trans by (auto simp: mm)
  ultimately show ?thesis
    by (auto simp: fs_step_def good_def wf_fs_def)
qed

subsection \<open>Where the operations work\<close>

text \<open>Below, \<open>c\<close> is what the path spells; its location is \<open>root fs @ c\<close>.\<close>

lemma good_resolve_At:
  assumes "good fs" "valid_loc c" "spells p c" "resolve fs p = At d"
  shows "d = root fs @ c" "kind_at (tree fs) d \<noteq> None" "prefix (root fs) d"
proof -
  have "is_absolute p"
    using assms(3) by (auto simp: spells_def string_of_loc_def root_dir_def is_absolute_def)
  then show "d = root fs @ c" "kind_at (tree fs) d \<noteq> None" "prefix (root fs) d"
    using resolve_spells(1)[OF goodD(2)[OF assms(1)] assms(2-4)]
      resolve_At[OF goodD(1)[OF assms(1)] _ assms(4)] by auto
qed

lemma good_resolve_Missing:
  assumes "good fs" "valid_loc c" "spells p c" "resolve fs p = Missing d x rest"
  shows "kind_at (tree fs) d = Some Directory" "kind_at (tree fs) (d @ [x]) = None"
    "valid_name x" "prefix (root fs) d"
    "\<exists>ys. d @ x # ys = root fs @ c \<and> (rest = ys \<or> rest = ys @ [[]])"
proof -
  have "is_absolute p"
    using assms(3) by (auto simp: spells_def string_of_loc_def root_dir_def is_absolute_def)
  then show "kind_at (tree fs) d = Some Directory" "kind_at (tree fs) (d @ [x]) = None"
    "valid_name x" "prefix (root fs) d"
    using resolve_Missing[OF goodD(1)[OF assms(1)] _ assms(4)] by auto
  show "\<exists>ys. d @ x # ys = root fs @ c \<and> (rest = ys \<or> rest = ys @ [[]])"
    by (rule resolve_spells(2)[OF goodD(2)[OF assms(1)] assms(2-4)])
qed

lemma Missing_last:
  assumes "good fs" "valid_loc c" "spells p c" "resolve fs p = Missing d x rest"
    and "\<forall>y\<in>set rest. y = []"
  shows "d @ [x] = root fs @ c"
proof -
  obtain ys where ys: "d @ x # ys = root fs @ c" "rest = ys \<or> rest = ys @ [[]]"
    using good_resolve_Missing(5)[OF assms(1-4)] by blast
  have "ys = []"
  proof (rule ccontr)
    assume "ys \<noteq> []"
    then have "suffix ys c" 
      using ys(1) good_resolve_Missing(4)[OF assms(1-4)]
      by (auto simp: suffix_def append_eq_append_conv2 prefix_def Cons_eq_append_conv)
    then have "[] \<notin> set ys"
      using valid_loc_parts[OF assms(2)] set_mono_suffix by blast
    then show False
      using ys(2) assms(5) \<open>ys \<noteq> []\<close> by (cases ys) auto
  qed
  then show ?thesis
    using ys(1) by simp
qed

lemma lresolve_resolve:
  assumes "no_links (tree fs)" "valid_loc c" "spells p c"
  shows "lresolve fs p = resolve fs p \<or>
         (\<exists>d x xs. lresolve fs p = Missing d x xs \<and> resolve fs p = Missing d x (xs @ [[]]))"
proof (cases "c = []")
  case True
  then have "split_on CHR ''/'' p = [[], []]"
    using assms(3) by (simp add: spells_def string_of_loc_def root_dir_def)
  then show ?thesis
    by (simp add: lresolve_def)
next
  case False
  then obtain b x where c: "c = b @ [x]" "valid_name x"
    using assms(2) by (cases c rule: rev_cases) auto
  note nm = valid_name_simps[OF c(2)]
  have abs: "is_absolute p" "p \<noteq> []"
    using assms(3) by (auto simp: spells_def string_of_loc_def root_dir_def is_absolute_def)
  have "split_on CHR ''/'' p = [] # c \<or> split_on CHR ''/'' p = [] # c @ [[]]"
    using assms(3) split_on_loc[OF assms(2)] False
    by (auto simp: spells_def root_dir_def split_on_app)
  then obtain e where e: "split_on CHR ''/'' p = ([] # b) @ [x] @ e" "e = [] \<or> e = [[]]"
    using c by auto
  have ws: "rev (dropWhile (\<lambda>x. x = []) (rev (split_on CHR ''/'' p))) = ([] # b) @ [x]"
    using e nm by auto
  have l: "lresolve fs p = (case walk_from fs (root fs) ([] # b) of
                 At d \<Rightarrow>
                   if kind_at (tree fs) d \<noteq> Some Directory then NotDir
                   else (case kind_at (tree fs) (d @ [x]) of
                           None \<Rightarrow> Missing d x e
                         | Some _ \<Rightarrow> if e = [] then At (d @ [x]) else resolve fs p)
               | Missing d y xs \<Rightarrow> Missing d y (xs @ [x])
               | w \<Rightarrow> w)"
    unfolding lresolve_def Let_def ws using nm e abs
    by (auto simp: start_of_def split: walked.splits option.splits)
  have r: "resolve fs p = (case walk_from fs (root fs) ([] # b) of
        At d \<Rightarrow> walk (tree fs) (root fs) symlink_limit d (x # e)
      | Missing d y xs \<Rightarrow> Missing d y (xs @ x # e) | w \<Rightarrow> w)"
    using resolve_abs[OF abs(1)] e(1) walk_append[OF assms(1), of "root fs" symlink_limit "root fs" "[] # b" "x # e"]
    by (simp add: walk_from_def del: walk.simps)
  show ?thesis
  proof (cases "walk_from fs (root fs) ([] # b)")
    case (At d)
    then show ?thesis
      using l r walk_name[OF assms(1) c(2), of "root fs" symlink_limit d e]
      by (auto split: option.splits simp del: walk.simps simp add: walk.simps(1))
  qed (use l r e(2) in auto)
qed

text \<open>Hence \<open>lresolve\<close> ends where \<open>resolve\<close> does, and what it misses is the spelled location.\<close>

lemma good_lresolve_At:
  assumes "good fs" "valid_loc c" "spells p c" "lresolve fs p = At d"
  shows "d = root fs @ c" "kind_at (tree fs) d \<noteq> None" "prefix (root fs) d"
  using good_resolve_At[OF assms(1-3), of d] lresolve_resolve[OF goodD(2)[OF assms(1)] assms(2,3)]
    assms(4) by auto

lemma good_lresolve_Missing:
  assumes "good fs" "valid_loc c" "spells p c" "lresolve fs p = Missing d x rest"
    and "\<forall>y\<in>set rest. y = []"
  shows "d @ [x] = root fs @ c" "kind_at (tree fs) d = Some Directory"
    "kind_at (tree fs) (d @ [x]) = None" "valid_name x" "prefix (root fs) d"
proof -
  have "resolve fs p = Missing d x rest \<or> resolve fs p = Missing d x (rest @ [[]])"
    using lresolve_resolve[OF goodD(2)[OF assms(1)] assms(2,3)] assms(4) by auto
  then obtain r where r: "resolve fs p = Missing d x r" "r = rest \<or> r = rest @ [[]]"
    by blast
  then show "d @ [x] = root fs @ c"
    using Missing_last[OF assms(1-3) r(1)] assms(5) by auto
  show "kind_at (tree fs) d = Some Directory"
    "kind_at (tree fs) (d @ [x]) = None" "valid_name x" "prefix (root fs) d"
    using good_resolve_Missing(1-4)[OF assms(1-3) r(1)] by auto
qed

subsection \<open>The operations are steps\<close>

text \<open>A new entry in an existing directory.\<close>

lemma new_step:
  assumes "good fs" "prefix h (d @ [x])" "kind_at (tree fs) d = Some Directory"
    "kind_at (tree fs) (d @ [x]) = None" "valid_name x" "\<And>s. k \<noteq> Symlink s"
  shows "fs_step h fs (put_node fs (d @ [x]) k m)"
  using assms by (intro put_step) blast+

lemma create_directory_step [fs_steps]:
  assumes "good fs" "valid_loc c" "spells p c" "prefix h c"
    and "create_directory fs p = Some (b, fs')"
  shows "fs_step (root fs @ h) fs fs'"
proof (cases "lresolve fs p")
  case (Missing d x xs)
  then have xs: "\<forall>y\<in>set xs. y = []" and fs': "fs' = put_node fs (d @ [x]) Directory 511"
    using assms(5) by (auto simp: create_directory_def split: if_splits)
  note m = good_lresolve_Missing[OF assms(1-3) Missing xs]
  show ?thesis
    unfolding fs' using m(2-4) assms(1,4) by (intro new_step) (auto simp: m(1))
qed (use assms in \<open>auto simp: create_directory_def intro: fs_step_refl split: if_splits\<close>)

lemma fs_remove_step [fs_steps]:
  assumes "good fs" "valid_loc c" "spells p c" "prefix h c"
    and "fs_remove fs p = Some (b, fs')"
  shows "fs_step (root fs @ h) fs fs'"
proof (cases "lresolve fs p")
  case (At d)
  note m = good_lresolve_At[OF assms(1-3) At]
  have "d \<noteq> root fs" "kind_at (tree fs) d = Some Directory \<longrightarrow> children (tree fs) d = []"
    "fs' = del_node fs d"
    using assms(5) At by (auto simp: fs_remove_def split: if_splits)
  then show ?thesis
    using m assms(1,4) by (simp add: del_step)
qed (use assms in \<open>auto simp: fs_remove_def intro: fs_step_refl split: if_splits\<close>)

lemma open_write_step [fs_steps]:
  assumes "good fs" "valid_loc c" "spells p c" "prefix h c"
    and "open_write fs p t = Some (d, fs')"
  shows "fs_step (root fs @ h) fs fs' \<and> d = root fs @ c \<and>
         (\<exists>s. kind_at (tree fs') d = Some (Regular s))"
proof (cases "resolve fs p")
  case (At e)
  note m = good_resolve_At[OF assms(1-3) At]
  obtain s where s: "kind_at (tree fs) e = Some (Regular s)" "d = e"
    "fs' = (if t then put_node fs e (Regular []) (mode_at (tree fs) e) else fs)"
    using assms(5) At by (auto simp: open_write_def split: option.splits kind.splits if_splits)
  have "fs_step (root fs @ h) fs (put_node fs e (Regular []) (mode_at (tree fs) e))"
    using s m(1) assms(1,4) by (intro put_step) auto
  then show ?thesis
    using s m(1) fs_step_refl[OF assms(1)] by (auto simp: kind_put)
next
  case (Missing e x xs)
  then have e: "xs = []" "d = e @ [x]" "fs' = put_node fs d (Regular []) 420"
    using assms(5) by (auto simp: open_write_def split: if_splits)
  note m = good_resolve_Missing(1-4)[OF assms(1-3) Missing]
  have d: "d = root fs @ c"
    using Missing_last[OF assms(1-3) Missing] e by simp
  have "fs_step (root fs @ h) fs fs'"
    unfolding e(3) e(2) using m assms(1,4) by (intro new_step) (auto simp: d[unfolded e(2)])
  then show ?thesis
    using d e(3) by (auto simp: kind_put)
qed (use assms in \<open>auto simp: open_write_def\<close>)

lemma write_at_step [fs_steps]:
  assumes "good fs" "kind_at (tree fs) d = Some (Regular s)" "prefix h d"
  shows "fs_step h fs (write_at fs d n bs) \<and> (\<exists>s. kind_at (tree (write_at fs d n bs)) d = Some (Regular s))"
  using assms unfolding write_at_def by (auto simp: kind_put intro!: put_step)

lemma fs_permissions_step [fs_steps]:
  assumes "good fs" "valid_loc c" "spells p c" "prefix h c" "fs_permissions fs p m = Some fs'"
  shows "fs_step (root fs @ h) fs fs'"
proof (cases "resolve fs p")
  case (At d)
  note r = good_resolve_At[OF assms(1-3) At]
  obtain k where k: "kind_at (tree fs) d = Some k" "fs' = put_node fs d k m"
    using assms(5) At by (auto simp: fs_permissions_def split: if_splits option.splits)
  show ?thesis
    unfolding k(2) using k(1) r(1) assms(1,4) no_links_kind[OF goodD(2)[OF assms(1)], of d]
    by (intro put_step) auto
qed (use assms in \<open>auto simp: fs_permissions_def\<close>)

lemma fs_rename_step [fs_steps]:
  assumes "good fs" "valid_loc c" "spells p c" "prefix h c" "valid_loc d" "spells q d" "prefix h d"
    and "fs_rename fs p q = Some fs'"
  shows "fs_step (root fs @ h) fs fs'"
proof (cases "lresolve fs p")
  case (At a)
  note ra = good_lresolve_At[OF assms(1-3) At]
  show ?thesis
  proof (cases "lresolve fs q")
    case (At b)
    note rb = good_lresolve_At[OF assms(1,5,6) At]
    have mv: "move_ok fs a b" "a = b \<longrightarrow> fs' = fs" "a \<noteq> b \<longrightarrow> fs' = fs\<lparr>tree := move_tree (tree fs) a b\<rparr>"
      using assms(8) At \<open>lresolve fs p = At a\<close> by (auto simp: fs_rename_def split: if_splits)
    show ?thesis
    proof (cases "a = b")
      case False
      have "b \<noteq> []"
        using mv(1) rb(3) by (auto simp: move_ok_def)
      then obtain e x where e: "b = e @ [x]"
        by (cases b rule: rev_cases) auto
      have "valid_name x \<and> kind_at (tree fs) e = Some Directory"
        using rb(2) wf_snoc[OF goodD(3)[OF assms(1)], of e x] by (auto simp: e)
      then have "fs_step (root fs @ h) fs (fs\<lparr>tree := move_tree (tree fs) a b\<rparr>)"
        using ra rb mv(1) False e assms(1,4,7) by (intro move_step) auto
      then show ?thesis
        using mv(3) False by simp
    qed (use mv fs_step_refl[OF assms(1)] in simp)
  next
    case (Missing e x xs)
    then have xs: "\<forall>y\<in>set xs. y = []" and mv: "move_ok fs a (e @ [x])"
      "fs' = fs\<lparr>tree := move_tree (tree fs) a (e @ [x])\<rparr>"
      using assms(8) At by (auto simp: fs_rename_def split: if_splits)
    note rb = good_lresolve_Missing[OF assms(1,5,6) Missing xs]
    have "a \<noteq> e @ [x]"
      using ra(2) rb(3) by auto
    moreover have "prefix (root fs @ h) (e @ [x])" "prefix (root fs) (e @ [x])" "prefix (root fs @ h) a"
      using assms(4,7) rb(1) ra(1) by simp_all
    ultimately show ?thesis
      unfolding mv(2) using ra(2,3) rb(2,4) mv(1) assms(1) by (intro move_step) auto
  qed (use assms At in \<open>auto simp: fs_rename_def\<close>)
qed (use assms in \<open>auto simp: fs_rename_def\<close>)

subsection \<open>Creating the missing directories of a path\<close>

lemma strip_slashes:
  assumes "valid_loc c" "c \<noteq> []"
  shows "dropWhile (\<lambda>c. c = CHR ''/'') (CHR ''/'' # rev (string_of_loc c)) = rev (string_of_loc c)"
    "relative_path (string_of_loc c @ q) \<noteq> []"
proof -
  have "last (string_of_loc c) \<noteq> CHR ''/''"
    using trailing_slash_loc[OF assms(1)] assms(2) by (simp add: trailing_slash_def)
  then show "dropWhile (\<lambda>c. c = CHR ''/'') (CHR ''/'' # rev (string_of_loc c)) = rev (string_of_loc c)"
    by (cases "string_of_loc c" rule: rev_cases) auto
  show "relative_path (string_of_loc c @ q) \<noteq> []"
    using \<open>last (string_of_loc c) \<noteq> CHR ''/''\<close> last_in_set[OF string_of_loc_not_Nil, of c]
    unfolding relative_path_def dropWhile_eq_Nil_conv set_append by blast
qed

lemma parent_path_spells:
  assumes "valid_loc c" "spells p c" "c \<noteq> []"
  shows "p = string_of_loc c \<and> parent_path p = string_of_loc (butlast c) \<or>
         p = string_of_loc c @ root_dir \<and> parent_path p = string_of_loc c"
proof (cases "p = string_of_loc c")
  case True
  obtain b x where c: "c = b @ [x]" "valid_name x" "valid_loc b"
    using assms(1,3) by (cases c rule: rev_cases) auto
  have slash: "dropWhile (\<lambda>c. c \<noteq> CHR ''/'') (rev x @ CHR ''/'' # ys) = CHR ''/'' # ys" for ys
    using valid_name_simps(4)[OF c(2)] by (subst dropWhile_append2) auto
  have rel: "relative_path p \<noteq> []"
    using strip_slashes(2)[OF assms(1,3), of "[]"] True by simp
  show ?thesis
  proof (cases "b = []")
    case True
    then have "p = CHR ''/'' # x"
      using \<open>p = string_of_loc c\<close> by (simp add: c string_of_loc_def root_dir_def)
    then show ?thesis
      using rel slash True by (simp add: parent_path_def Let_def c string_of_loc_def root_dir_def)
  next
    case False
    then have p: "p = string_of_loc b @ CHR ''/'' # x"
      using \<open>p = string_of_loc c\<close> by (simp add: c string_of_loc_snoc root_dir_def)
    have "rev (dropWhile (\<lambda>c. c \<noteq> CHR ''/'') (rev p)) = string_of_loc b @ ''/''"
      by (simp add: p slash)
    then have "parent_path p = string_of_loc b"
      using rel strip_slashes(1)[OF c(3) False]
        strip_slashes(2)[OF c(3) False, of "[]", unfolded relative_path_def dropWhile_eq_Nil_conv]
      by (auto simp: parent_path_def Let_def)
    then show ?thesis
      using True by (simp add: c)
  qed
next
  case False
  then have p: "p = string_of_loc c @ root_dir"
    using assms(2) by (simp add: spells_def)
  then have "parent_path p = string_of_loc c"
    using strip_slashes[OF assms(1,3)]
      strip_slashes(2)[OF assms(1,3), of "[]", unfolded relative_path_def dropWhile_eq_Nil_conv]
    by (auto simp: parent_path_def Let_def root_dir_def)
  then show ?thesis
    using p by simp
qed

lemma spells_status_dir:
  assumes "good fs" "valid_loc c" "spells p c" "kind_at (tree fs) (root fs @ c) = Some Directory"
  shows "status fs p = FDir"
proof -
  have abs: "is_absolute p"
    using assms(3) by (auto simp: spells_def string_of_loc_def root_dir_def is_absolute_def)
  have "split_on CHR ''/'' p = [] # c @ [] \<or> split_on CHR ''/'' p = [] # c @ [[]]"
    using assms(3) split_on_loc[OF assms(2)] by (auto simp: spells_def root_dir_def split_on_app)
  then obtain e where e: "split_on CHR ''/'' p = [] # c @ e" "e = [] \<or> e = [[]]"
    by blast
  have "walk (tree fs) (root fs) symlink_limit (root fs) c = At (root fs @ c)"
    using walk_to[OF goodD(2)[OF assms(1)] goodD(3)[OF assms(1)]] assms(4) by simp
  then have "resolve fs p = At (root fs @ c)"
    using e assms(4) goodD(1)[OF assms(1)]
    by (auto simp: resolve_abs[OF abs] walk_from_def walk_append[OF goodD(2)[OF assms(1)]] wf_fs_def)
  then show ?thesis
    using assms(4) by (simp add: status_def)
qed

definition dirs_ok :: "loc \<Rightarrow> string list \<Rightarrow> bool" where
  "dirs_ok h ps = (\<forall>p\<in>set ps. \<exists>e. valid_loc e \<and> spells p e \<and> prefix h e)"

lemma make_dirs_step:
  "good fs \<Longrightarrow> dirs_ok h ps \<Longrightarrow> make_dirs fs ps = Some fs' \<Longrightarrow> fs_step (root fs @ h) fs fs'"
proof (induction fs ps rule: make_dirs.induct)
  case (2 fs p ps)
  obtain b f where f: "create_directory fs p = Some (b, f)" "make_dirs f ps = Some fs'"
    using 2(4) by (auto split: option.splits)
  obtain e where "valid_loc e" "spells p e" "prefix h e"
    using 2(3) by (auto simp: dirs_ok_def)
  then have s: "fs_step (root fs @ h) fs f"
    using create_directory_step[OF 2(2)] f(1) by blast
  have "fs_step (root f @ h) f fs'"
    using 2(1)[OF f(1) refl fs_stepD(2)[OF s]] 2(3) f(2) by (simp add: dirs_ok_def)
  then show ?case
    using fs_step_trans[OF s] fs_stepD(1)[OF s] by simp
qed (simp add: fs_step_refl)

lemma above_home:
  assumes "good fs" "parent_dir fs (root fs @ h)" "strict_prefix c h"
  shows "kind_at (tree fs) (root fs @ c) = Some Directory"
proof -
  have "h \<noteq> []"
    using assms(3) by auto
  then have d: "kind_at (tree fs) (root fs @ butlast h) = Some Directory"
    using assms(2) by (simp add: parent_dir_def butlast_append)
  have "prefix c (butlast h)"
    using assms(3) \<open>h \<noteq> []\<close>
    by (cases h rule: rev_cases) (auto simp: strict_prefix_def prefix_snoc)
  then show ?thesis
    using d wf_prefix[OF goodD(3)[OF assms(1)], of "root fs @ butlast h" Directory "root fs @ c"]
    by (cases "c = butlast h") (auto simp: strict_prefix_def)
qed

lemma missing_dirs_ok:
  "good fs \<Longrightarrow> parent_dir fs (root fs @ h) \<Longrightarrow> valid_loc c \<Longrightarrow> spells p c \<Longrightarrow>
   prefix h c \<or> prefix c h \<Longrightarrow> dirs_ok h acc \<Longrightarrow> missing_dirs fs p acc = Some ps \<Longrightarrow> dirs_ok h ps"
proof (induction fs p acc arbitrary: c rule: missing_dirs.induct)
  case (1 fs p acc)
  have "p \<noteq> []"
    using 1(5) by (auto simp: spells_def string_of_loc_def root_dir_def)
  consider (dir) "ps = acc" | (missing) "status fs p = FNotFound" "length (parent_path p) < length p"
      "missing_dirs fs (parent_path p) (if filename p = ''.'' \<or> filename p = ''..'' then acc else p # acc) = Some ps"
    using 1(8) \<open>p \<noteq> []\<close>
    by (subst (asm) missing_dirs.simps) (auto split: ftype.splits if_splits)
  then show ?case
  proof cases
    case missing
    have hc: "prefix h c"
    proof (rule ccontr)
      assume "\<not> prefix h c"
      then have "strict_prefix c h"
        using 1(6) by (auto simp: strict_prefix_def)
      then show False
        using spells_status_dir[OF 1(2,4,5)] above_home[OF 1(2,3)] missing(1) by simp
    qed
    have "c \<noteq> []"
      using spells_status_dir[OF 1(2,4,5)] goodD(1)[OF 1(2)] missing(1) by (auto simp: wf_fs_def)
    have acc: "dirs_ok h (if filename p = ''.'' \<or> filename p = ''..'' then acc else p # acc)"
      using 1(4,5,7) hc by (auto simp: dirs_ok_def)
    have b: "valid_loc (butlast c)" "prefix h (butlast c) \<or> prefix (butlast c) h"
      using 1(4) hc \<open>c \<noteq> []\<close> by (cases c rule: rev_cases; auto simp: prefix_snoc)+
    obtain c' where "valid_loc c'" "spells (parent_path p) c'" "prefix h c' \<or> prefix c' h"
      using parent_path_spells[OF 1(4,5) \<open>c \<noteq> []\<close>] b 1(4) hc by (auto simp: spells_def)
    then show ?thesis
      using 1(1)[OF \<open>p \<noteq> []\<close> missing(1,2) 1(2,3) _ _ _ acc missing(3)] by blast
  qed (use 1(7) in simp)
qed

lemma create_directories_step [fs_steps]:
  assumes "good fs" "parent_dir fs (root fs @ h)" "valid_loc c" "spells p c"
    and "prefix h c \<or> prefix c h" "create_directories fs p = Some fs'"
  shows "fs_step (root fs @ h) fs fs'"
proof -
  let ?q = "if relative_path p \<noteq> [] \<and> trailing_slash p then parent_path p else p"
  have q: "spells ?q c"
  proof (cases "c = []")
    case True
    then show ?thesis
      using assms(4) by (auto simp: spells_def string_of_loc_def root_dir_def relative_path_def)
  next
    case False
    then show ?thesis
      using assms(4) parent_path_spells[OF assms(3,4)] trailing_slash_loc[OF assms(3)]
      by (auto simp: spells_def)
  qed
  consider "fs' = fs" | ps where "missing_dirs fs ?q [] = Some ps" "make_dirs fs ps = Some fs'"
    using assms(6) by (auto simp: create_directories_def Let_def split: if_splits ftype.splits option.splits)
  then show ?thesis
  proof cases
    case 2
    have "dirs_ok h ps"
      using missing_dirs_ok[OF assms(1,2,3) q assms(5) _ 2(1)] by (simp add: dirs_ok_def)
    then show ?thesis
      using make_dirs_step[OF assms(1) _ 2(2)] by blast
  qed (use fs_step_refl[OF assms(1)] in simp)
qed

end
