(* ===== verification/Confinement.thy ===== *)
theory Confinement
  imports Frames Fs_Effects
begin

text \<open>
  The containment argument for the whole command set: in a tree without symbolic links, no
  command of a logged-in client changes anything outside the home directory. \<open>settled h c\<close> is the
  invariant (\<open>h\<close> is the location of the home below the process root), \<open>settled_step h c c'\<close> says that a
  command kept it and only made \<open>fs_step\<close>s below the home. \<open>RNTO\<close> needs to know where \<open>RNFR\<close> was: with a
  source below the same home (\<open>confined\<close>) it is a step below the home too.
\<close>

definition settled :: "loc \<Rightarrow> conn \<Rightarrow> bool" where
  "settled h c =
     ((\<exists>u. current_user c = Some u \<and> spells (u_home u) h) \<and> valid_loc h \<and> good (fs c) \<and>
      parent_dir (fs c) (root (fs c) @ h) \<and>
      (\<exists>l. valid_loc l \<and> spells (current_directory c) l))"

text \<open>A stored path names a location below the home.\<close>

definition source_below :: "loc \<Rightarrow> string \<Rightarrow> bool" where
  "source_below h p = (\<exists>l. valid_loc l \<and> spells p l \<and> prefix h l)"

text \<open>What the commands other than \<open>PASS\<close> keep of the account tables, and where a rename starts.\<close>

definition kept :: "loc \<Rightarrow> conn \<Rightarrow> conn \<Rightarrow> bool" where
  "kept h c c' =
     (current_user c' = current_user c \<and> config c' = config c \<and> user_manager c' = user_manager c \<and>
      virtual_host_manager c' = virtual_host_manager c \<and> pam_auth c' = pam_auth c \<and>
      (current_virtual_host c' = current_virtual_host c \<or>
       (\<exists>m n. virtual_host_manager c = Some m \<and> current_virtual_host c' = getVirtualHost m n)) \<and>
      (rename_from_path c' = rename_from_path c \<or> rename_from_path c' = [] \<or>
       source_below h (rename_from_path c')))"

definition settled_step :: "loc \<Rightarrow> conn \<Rightarrow> conn \<Rightarrow> bool" where
  "settled_step h c c' = (settled h c' \<and> fs_step (root (fs c) @ h) (fs c) (fs c') \<and> kept h c c')"

lemma kept_refl [simp]: "kept h c c"
  by (simp add: kept_def)

lemma kept_trans: "kept h a b \<Longrightarrow> kept h b c \<Longrightarrow> kept h a c"
  by (auto simp: kept_def)

lemma kept_quiet: "quiet c c' \<Longrightarrow> kept h c c'"
  by (simp add: kept_def quiet_def)

lemma settledD:
  "settled h c \<Longrightarrow> good (fs c)" "settled h c \<Longrightarrow> valid_loc h"
  "settled h c \<Longrightarrow> parent_dir (fs c) (root (fs c) @ h)"
  by (simp_all add: settled_def)

lemma settled_step_trans: "settled_step h a b \<Longrightarrow> settled_step h b c \<Longrightarrow> settled_step h a c"
  unfolding settled_step_def using fs_stepD(1) fs_step_trans kept_trans by metis

lemma settled_step_refl: "settled h c \<Longrightarrow> settled_step h c c"
  by (simp add: settled_step_def fs_step_refl settledD)

lemma settled_quiet: "settled h c \<Longrightarrow> quiet c c' \<Longrightarrow> settled h c'"
  by (simp add: settled_def quiet_def)

lemma quiet_step: "settled h c \<Longrightarrow> quiet c c' \<Longrightarrow> settled_step h c c'"
  using settled_quiet kept_quiet by (simp add: settled_step_def quiet_def fs_step_refl settledD)

lemma quiet_fs: "quiet c d \<Longrightarrow> quiet (c\<lparr>fs := f\<rparr>) (d\<lparr>fs := f\<rparr>)"
  by (simp add: quiet_def)

lemma settled_fs:
  assumes "settled h c" "fs_step (root (fs c) @ h) (fs c) f" "quiet (c\<lparr>fs := f\<rparr>) c'"
  shows "settled_step h c c'"
proof -
  have "parent_dir f (root f @ h)"
    using parent_dir_step[OF assms(2)] fs_stepD(1)[OF assms(2)] settledD(3)[OF assms(1)]
    by (cases "h = []") (auto simp: parent_dir_def)
  then have "settled h (c\<lparr>fs := f\<rparr>)"
    using assms(1) fs_stepD(2)[OF assms(2)] by (simp add: settled_def)
  then show ?thesis
    using settled_quiet[OF _ assms(3)] assms(2,3) kept_quiet[OF assms(3), of h]
    by (simp add: settled_step_def quiet_def kept_def)
qed

lemma returns_settled: "settled h c \<Longrightarrow> returns m (quiet c) \<Longrightarrow> returns m (settled_step h c)"
  by (auto elim: returns_mono intro: quiet_step)

subsection \<open>Paths\<close>

lemma spells_abs: "spells p l \<Longrightarrow> is_absolute p"
  by (auto simp: spells_def string_of_loc_def root_dir_def is_absolute_def)

lemma spells_normal_loc: "valid_loc l \<Longrightarrow> spells p l \<Longrightarrow> normal_loc p = l"
  by (auto simp: spells_def normal_loc_loc normal_loc_loc_slash)

lemma good_normalize: "good f \<Longrightarrow> is_absolute p \<Longrightarrow> spells (normalizeForComparison f p) (normal_loc p)"
  by (rule normalize_no_links) (auto simp: good_def)

lemma settled_spells:
  assumes "settled h c"
  shows "\<exists>l. valid_loc l \<and> spells (resolvePath c p) l"
proof -
  obtain u l where u: "current_user c = Some u" "spells (u_home u) h"
      and l: "valid_loc l" "spells (current_directory c) l"
    using assms by (auto simp: settled_def)
  have "is_absolute (path_append (u_home u) q)" "is_absolute (path_append (current_directory c) q)" for q
    using spells_abs[OF u(2)] spells_abs[OF l(2)] by (auto intro: path_append_abs)
  moreover have "\<exists>l. valid_loc l \<and> spells (normalizeForComparison (fs c) q) l" if "is_absolute q" for q
    using good_normalize[OF settledD(1)[OF assms] that] normal_loc_valid by blast
  ultimately show ?thesis
    using l u(1) by (auto simp: resolvePath_def home_of_def)
qed

lemma settled_validated:
  assumes "settled h c" "valid_loc l" "spells p l" "validatePath c p"
  shows "prefix h l"
proof -
  obtain u where u: "current_user c = Some u" "spells (u_home u) h"
    using assms by (auto simp: settled_def)
  have h: "valid_loc h"
    using assms(1) by (rule settledD)
  have "isWithin (normalizeForComparison (fs c) p) (normalizeForComparison (fs c) (u_home u))"
    using validatePath_home[OF assms(4)] u(1) by (simp add: isPathWithinHome_def)
  moreover have "spells (normalizeForComparison (fs c) p) l"
    using good_normalize[OF settledD(1)[OF assms(1)] spells_abs[OF assms(3)]]
      spells_normal_loc[OF assms(2,3)] by simp
  moreover have "spells (normalizeForComparison (fs c) (u_home u)) h"
    using good_normalize[OF settledD(1)[OF assms(1)] spells_abs[OF u(2)]]
      spells_normal_loc[OF h u(2)] by simp
  ultimately show ?thesis
    using isWithin_spells assms(2) h by blast
qed

text \<open>What a handler knows of a path it resolved and validated.\<close>

lemma settled_below:
  assumes "settled h c" "validatePath c (resolvePath c p)"
  obtains l where "valid_loc l" "spells (resolvePath c p) l" "prefix h l"
  using settled_spells[OF assms(1)] settled_validated[OF assms(1) _ _ assms(2)] by blast

lemma parent_spells:
  assumes "valid_loc l" "spells p l" "prefix h l"
  shows "\<exists>l'. valid_loc l' \<and> spells (parent_path p) l' \<and> (prefix h l' \<or> prefix l' h)"
proof (cases "l = []")
  case True
  then have "p = root_dir" "parent_path p = root_dir"
    using assms(2) by (simp_all add: spells_def string_of_loc_def parent_path_def root_dir_def
        relative_path_def)
  then show ?thesis
    by (intro exI[of _ "[]"]) (simp add: spells_def string_of_loc_def)
next
  case False
  have b: "valid_loc (butlast l)" "prefix h (butlast l) \<or> prefix (butlast l) h"
    using assms(1,3) False by (cases l rule: rev_cases; auto simp: prefix_snoc)+
  show ?thesis
    using parent_path_spells[OF assms(1,2) False]
  proof
    assume "p = string_of_loc l \<and> parent_path p = string_of_loc (butlast l)"
    then show ?thesis
      using b by (intro exI[of _ "butlast l"]) (auto simp: spells_def)
  next
    assume "p = string_of_loc l @ root_dir \<and> parent_path p = string_of_loc l"
    then show ?thesis
      using assms(1,3) by (intro exI[of _ l]) (auto simp: spells_def)
  qed
qed

subsection \<open>Entries\<close>

lemma handleMKD_settled:
  assumes "settled h c"
  shows "returns (handleMKD e a c) (settled_step h c)"
proof -
  have "settled_step h c (sendResponse e r (c\<lparr>fs := f\<rparr>))"
    if "validatePath c (resolvePath c a)" "create_directory (fs c) (resolvePath c a) = Some (b, f)" for r b f
    using settled_below[OF assms that(1)] create_directory_step[OF settledD(1)[OF assms] _ _ _ that(2)]
    by (metis settled_fs[OF assms] quiet_helpers(1) quiet_refl)
  then show ?thesis
    using quiet_step[OF assms] by (simp add: handleMKD_def returns_rules)
qed

lemma remove_settled:
  assumes "settled h c" "validatePath c (resolvePath c a)"
    and "fs_remove (fs c) (resolvePath c a) = Some (b, f)"
  shows "settled_step h c (sendResponse e r (c\<lparr>fs := f\<rparr>))"
  using settled_below[OF assms(1,2)] fs_remove_step[OF settledD(1)[OF assms(1)] _ _ _ assms(3)]
  by (metis settled_fs[OF assms(1)] quiet_helpers(1) quiet_refl)

lemma handleDELE_settled: "settled h c \<Longrightarrow> returns (handleDELE e a c) (settled_step h c)"
  by (simp add: handleDELE_def returns_rules quiet_step remove_settled)

lemma handleRMD_settled: "settled h c \<Longrightarrow> returns (handleRMD e a c) (settled_step h c)"
  by (simp add: handleRMD_def returns_rules quiet_step remove_settled)

lemma site_chmod_settled:
  assumes "settled h c"
  shows "returns (site_chmod e m a c) (settled_step h c)"
proof -
  have "settled_step h c (sendResponse e r (c\<lparr>fs := f\<rparr>))"
    if "validatePath c (resolvePath c a)" "fs_permissions (fs c) (resolvePath c a) k = Some f" for r k f
    using settled_below[OF assms that(1)] fs_permissions_step[OF settledD(1)[OF assms] _ _ _ that(2)]
    by (metis settled_fs[OF assms] quiet_helpers(1) quiet_refl)
  then show ?thesis
    using quiet_step[OF assms] by (simp add: site_chmod_def returns_rules)
qed

lemma handleSITE_settled: "settled h c \<Longrightarrow> returns (handleSITE e a c) (settled_step h c)"
  by (simp add: handleSITE_def returns_rules quiet_step site_chmod_settled)

lemma settled_cd:
  assumes "settled h c"
  shows "settled_step h c (sendResponse e r (c\<lparr>current_directory := resolvePath c p\<rparr>))"
proof -
  have "settled h (c\<lparr>current_directory := resolvePath c p\<rparr>)"
    using assms settled_spells[OF assms, of p] by (simp add: settled_def)
  then show ?thesis
    using settledD(1)[OF assms] by (simp add: settled_step_def settled_quiet fs_step_refl kept_def)
qed

lemma handleCWD_settled: "settled h c \<Longrightarrow> returns (handleCWD e a c) (settled_step h c)"
  by (simp add: handleCWD_def returns_rules quiet_step settled_cd)

lemma handleCDUP_settled: "settled h c \<Longrightarrow> returns (handleCDUP e c) (settled_step h c)"
  by (simp add: handleCDUP_def returns_rules quiet_step settled_cd)

lemma handleRNFR_settled:
  assumes "settled h c"
  shows "returns (handleRNFR e a c) (settled_step h c)"
proof -
  have "settled_step h c (sendResponse e r (c\<lparr>rename_from_path := resolvePath c a\<rparr>))"
    if "validatePath c (resolvePath c a)" for r
  proof -
    have "source_below h (resolvePath c a)"
      using settled_below[OF assms that] unfolding source_below_def by metis
    moreover have "settled h (c\<lparr>rename_from_path := resolvePath c a\<rparr>)"
      using assms by (simp add: settled_def)
    ultimately show ?thesis
      using settledD(1)[OF assms] by (simp add: settled_step_def settled_quiet fs_step_refl kept_def)
  qed
  then show ?thesis
    using quiet_step[OF assms] by (simp add: handleRNFR_def returns_rules)
qed

text \<open>\<open>RNTO\<close> with its source below any location: it moves something there to below the home.\<close>

lemma handleRNTO_cases:
  assumes "settled h c" "source_below k (rename_from_path c)"
  shows "returns (handleRNTO e a c) (\<lambda>d. kept h c d \<and> current_directory d = current_directory c \<and>
           (fs d = fs c \<or> (\<exists>l m. valid_loc l \<and> spells (rename_from_path c) l \<and> prefix k l \<and>
              valid_loc m \<and> spells (resolvePath c a) m \<and> prefix h m \<and>
              fs_rename (fs c) (rename_from_path c) (resolvePath c a) = Some (fs d))))"
    (is "returns _ ?P")
proof -
  have "?P ((sendResponse e r (c\<lparr>fs := f\<rparr>))\<lparr>rename_from_path := []\<rparr>)"
    if "validatePath c (resolvePath c a)" "fs_rename (fs c) (rename_from_path c) (resolvePath c a) = Some f" for r f
    using settled_below[OF assms(1) that(1)] assms(2) that(2) unfolding source_below_def
    by (simp add: kept_def) metis
  then show ?thesis
    by (simp add: handleRNTO_def Let_def returns_rules) (simp add: kept_def)
qed

lemma handleRNTO_settled:
  assumes "settled h c" "rename_from_path c \<noteq> [] \<longrightarrow> source_below h (rename_from_path c)"
  shows "returns (handleRNTO e a c) (settled_step h c)"
proof (cases "rename_from_path c = []")
  case True
  then show ?thesis
    using quiet_step[OF assms(1)] by (simp add: handleRNTO_def Let_def)
next
  case False
  then have "source_below h (rename_from_path c)"
    using assms(2) by simp
  from handleRNTO_cases[OF assms(1) this] show ?thesis
  proof (rule returns_mono)
    fix d :: conn
    assume d: "kept h c d \<and> current_directory d = current_directory c \<and>
      (fs d = fs c \<or> (\<exists>l m. valid_loc l \<and> spells (rename_from_path c) l \<and> prefix h l \<and>
         valid_loc m \<and> spells (resolvePath c a) m \<and> prefix h m \<and>
         fs_rename (fs c) (rename_from_path c) (resolvePath c a) = Some (fs d)))"
    then have "fs_step (root (fs c) @ h) (fs c) (fs d)"
      using fs_step_refl[OF settledD(1)[OF assms(1)]] fs_rename_step[OF settledD(1)[OF assms(1)]] by metis
    from settled_fs[OF assms(1) this quiet_refl] show "settled_step h c d"
      using d by (simp add: settled_step_def settled_def kept_def)
  qed
qed

subsection \<open>Uploads\<close>

lemma write_chunk_step:
  assumes "good (up_fs u)" "kind_at (tree (up_fs u)) d = Some (Regular s)" "prefix h d"
  shows "fs_step h (up_fs u) (up_fs (write_chunk d bytes u)) \<and>
         (\<exists>s. kind_at (tree (up_fs (write_chunk d bytes u))) d = Some (Regular s))"
  using write_at_step[OF assms] by (simp add: write_chunk_def)

lemma store_loop_step:
  "good (up_fs u) \<Longrightarrow> \<exists>s. kind_at (tree (up_fs u)) d = Some (Regular s) \<Longrightarrow> prefix h d \<Longrightarrow>
   fs_step h (up_fs u) (up_fs (store_loop e max_rate d rs u))"
proof (induction e max_rate d rs u rule: store_loop.induct)
  case (3 e max_rate d bytes rs u)
  let ?u = "upload_throttle e max_rate (length bytes) u"
  have u: "up_fs ?u = up_fs u"
    by (simp add: upload_throttle_def)
  obtain s where "kind_at (tree (up_fs ?u)) d = Some (Regular s)"
    using 3(3) u by auto
  from write_chunk_step[OF _ this 3(4), of bytes]
  have w: "fs_step h (up_fs u) (up_fs (write_chunk d bytes ?u))"
      "\<exists>s. kind_at (tree (up_fs (write_chunk d bytes ?u))) d = Some (Regular s)"
    using 3(2) u by auto
  show ?case
    using 3(1)[OF _ fs_stepD(2)[OF w(1)] w(2) 3(4)] fs_step_trans[OF w(1)] fs_step_refl[OF 3(2)] by simp
qed (simp_all add: fs_step_refl)

lemma inflate_step_step:
  assumes "good (up_fs u)" "\<exists>s. kind_at (tree (up_fs u)) d = Some (Regular s)" "prefix h d"
    and "inflate_step e i d bytes u = Some v"
  shows "fs_step h (up_fs u) (up_fs v) \<and> (\<exists>s. kind_at (tree (up_fs v)) d = Some (Regular s))"
  using assms write_chunk_step[OF assms(1) _ assms(3)] fs_step_refl[OF assms(1)]
  by (auto simp: inflate_step_def split: option.splits if_splits)

lemma inflate_loop_step:
  "good (up_fs u) \<Longrightarrow> \<exists>s. kind_at (tree (up_fs u)) d = Some (Regular s) \<Longrightarrow> prefix h d \<Longrightarrow>
   fs_step h (up_fs u) (up_fs (snd (inflate_loop e max_rate d i rs u)))"
proof (induction e max_rate d i rs u rule: inflate_loop.induct)
  case (1 e max_rate d i u)
  then show ?case
    using inflate_step_step[OF 1] fs_step_refl[OF 1(1)] by (auto split: option.splits)
next
  case (3 e max_rate d i bytes rs u)
  show ?case
  proof (cases "inflate_step e i d bytes u")
    case (Some v)
    note w = inflate_step_step[OF 3(2-4) Some]
    let ?v = "upload_throttle e max_rate 0 v"
    have v: "up_fs ?v = up_fs v"
      by (simp add: upload_throttle_def)
    show ?thesis
    proof (cases "bytes = []")
      case False
      have "fs_step h (up_fs ?v) (up_fs (snd (inflate_loop e max_rate d (i + 1) rs ?v)))"
        using 3(1)[OF Some False] w 3(4) fs_stepD(2)[OF conjunct1[OF w]] by (simp only: v)
      then show ?thesis
        using fs_step_trans[of h "up_fs u" "up_fs v"] w False Some by (simp add: v)
    qed (use Some w in simp)
  qed (use fs_step_refl[OF 3(2)] in simp)
qed (simp add: fs_step_refl)

lemma append_loop_step:
  "good f \<Longrightarrow> \<exists>s. kind_at (tree f) d = Some (Regular s) \<Longrightarrow> prefix h d \<Longrightarrow>
   fs_step h f (append_loop d rs f)"
proof (induction d rs f rule: append_loop.induct)
  case (1 d bytes rs f)
  obtain s where "kind_at (tree f) d = Some (Regular s)"
    using 1(3) by blast
  note w = write_at_step[OF 1(2) this 1(4), of "length (content_at f d)" bytes]
  show ?case
    using 1(1)[OF _ fs_stepD(2)[OF conjunct1[OF w]] conjunct2[OF w] 1(4)]
      fs_step_trans[OF conjunct1[OF w]] fs_step_refl[OF 1(2)] by simp
qed (simp_all add: fs_step_refl)

lemma open_upload_step:
  assumes "good f" "valid_loc l" "spells p l" "prefix h l"
    and "open_upload f p resume = Some (Some (d, pos, f'))"
  shows "fs_step (root f @ h) f f' \<and> prefix (root f @ h) d \<and>
         (\<exists>s. kind_at (tree f') d = Some (Regular s))"
proof -
  obtain t where "open_write f p t = Some (d, f')"
    using assms(5) by (auto simp: open_upload_def Let_def split: option.splits bool.splits if_splits)
  from open_write_step[OF assms(1-4) this] show ?thesis
    using assms(4) by (metis same_prefix_prefix)
qed

lemma store_receive_settled:
  assumes "settled h c" "prefix (root (fs c) @ h) d" "\<exists>s. kind_at (tree (fs c)) d = Some (Regular s)"
  shows "returns (store_receive e fd d pos c) (settled_step h c)"
proof -
  let ?u = "\<lparr>up_fs = fs c, up_pos = pos, up_total = 0, up_slept = 0, up_step = 0\<rparr>"
  have "fs_step (root (fs c) @ h) (fs c) (up_fs (store_loop e m d rs ?u))"
    "fs_step (root (fs c) @ h) (fs c) (up_fs (snd (inflate_loop e m d i rs ?u)))" for m rs i
    using store_loop_step[of ?u] inflate_loop_step[of ?u] settledD(1)[OF assms(1)] assms(2,3)
    by simp_all
  moreover have "settled_step h c (sendResponse e r ((close_fd fd c)
      \<lparr>fs := f, slept := n, resume_position := 0\<rparr>))"
    if "fs_step (root (fs c) @ h) (fs c) f" for f r n
    using settled_fs[OF assms(1) that] quiet_fs[of c "close_fd fd c" f] by simp
  ultimately show ?thesis
    using quiet_step[OF assms(1)] by (simp add: store_receive_def returns_rules)
qed

lemma returns_settled_trans:
  "settled_step h c d \<Longrightarrow> returns m (settled_step h d) \<Longrightarrow> returns m (settled_step h c)"
  by (auto elim!: returns_mono intro: settled_step_trans)

lemma settled_dirs:
  assumes "settled h c" "valid_loc l" "spells p l" "prefix h l"
    and "(if parent_path p \<noteq> [] then create_directories (fs c) (parent_path p) else Some (fs c)) = Some f"
  shows "fs_step (root (fs c) @ h) (fs c) f"
proof -
  obtain l' where "valid_loc l'" "spells (parent_path p) l'" "prefix h l' \<or> prefix l' h"
    using parent_spells[OF assms(2-4)] by blast
  then show ?thesis
    using create_directories_step[OF settledD(1)[OF assms(1)] settledD(3)[OF assms(1)]]
      fs_step_refl[OF settledD(1)[OF assms(1)]] assms(5) by (auto split: if_splits)
qed

lemma settled_set_fs:
  assumes "settled h c" "fs_step (root (fs c) @ h) (fs c) f"
  shows "settled_step h c (c\<lparr>fs := f\<rparr>)"
  using settled_fs[OF assms] by simp

lemma store_transfer_settled:
  assumes "settled h c" "valid_loc l" "spells p l" "prefix h l"
  shows "returns (store_transfer e fd p c) (settled_step h c)"
proof -
  have failed: "settled_step h c (sendResponse e r (close_fd fd (c\<lparr>fs := f\<rparr>)))"
    if "fs_step (root (fs c) @ h) (fs c) f" for r f
    using settled_fs[OF assms(1) that] by simp
  have opened: "returns (store_receive e fd d pos (c\<lparr>fs := f'\<rparr>)) (settled_step h c)"
    if s: "fs_step (root (fs c) @ h) (fs c) f" and "open_upload f p r = Some (Some (d, pos, f'))" for f r d pos f'
  proof -
    have o: "fs_step (root (fs c) @ h) (fs c) f'" "prefix (root f' @ h) d"
      "\<exists>s. kind_at (tree f') d = Some (Regular s)"
      using open_upload_step[OF fs_stepD(2)[OF s] assms(2-4) that(2)] fs_stepD(1)[OF s]
        fs_step_trans[OF s] by (auto dest: fs_stepD(1))
    have c: "settled_step h c (c\<lparr>fs := f'\<rparr>)"
      by (rule settled_set_fs[OF assms(1) o(1)])
    then have "settled h (c\<lparr>fs := f'\<rparr>)"
      by (simp add: settled_step_def)
    then show ?thesis
      using returns_settled_trans[OF c] store_receive_settled[of h "c\<lparr>fs := f'\<rparr>"] o(2,3) by simp
  qed
  show ?thesis
    unfolding store_transfer_def Let_def
    using settled_dirs[OF assms] failed opened by (fastforce simp: returns_rules)
qed

lemma stored_settled:
  assumes "settled h c" "validatePath c (resolvePath c a)" "quiet c d"
  shows "returns (store_transfer e fd (resolvePath c a) d) (settled_step h c)"
proof -
  obtain l where "valid_loc l" "spells (resolvePath c a) l" "prefix h l"
    using settled_below[OF assms(1,2)] .
  then show ?thesis
    using store_transfer_settled[OF settled_quiet[OF assms(1,3)]]
      returns_settled_trans[OF quiet_step[OF assms(1,3)]] by blast
qed

lemma mode_z_settled: "settled h c \<Longrightarrow> mode_z_refusal e c = Some d \<Longrightarrow> settled_step h c d"
  using returnsD[OF mode_z_quiet] quiet_step by blast

lemma handleSTOR_settled: "settled h c \<Longrightarrow> returns (handleSTOR e a c) (settled_step h c)"
  by (simp add: handleSTOR_def returns_rules quiet_step stored_settled mode_z_settled)

lemma settled_step_name: "settled_step h c (d\<lparr>store_unique_name := n\<rparr>) = settled_step h c d"
  by (simp add: settled_step_def settled_def kept_def)

lemma handleSTOU_settled:
  assumes "settled h c"
  shows "returns (handleSTOU e a c) (settled_step h c)"
proof -
  have "returns (case handleSTOR e n (c\<lparr>store_unique_name := n, resume_position := 0\<rparr>) of
          None \<Rightarrow> None | Some c \<Rightarrow> Some (c\<lparr>store_unique_name := []\<rparr>)) (settled_step h c)" for n
  proof -
    let ?d = "c\<lparr>store_unique_name := n, resume_position := 0\<rparr>"
    have d: "settled_step h c ?d"
      using quiet_step[OF assms] by simp
    then have "returns (handleSTOR e n ?d) (settled_step h c)"
      using returns_settled_trans[OF d handleSTOR_settled] by (simp add: settled_step_def)
    then show ?thesis
      by (cases "handleSTOR e n ?d") (simp_all add: settled_step_name)
  qed
  then show ?thesis
    using quiet_step[OF assms] by (simp add: handleSTOU_def Let_def)
qed

lemma handleAPPE_settled:
  assumes "settled h c"
  shows "returns (handleAPPE e a c) (settled_step h c)"
proof -
  have "settled_step h c (sendResponse e r ((close_fd fd d)\<lparr>fs := append_loop k rs f, resume_position := 0\<rparr>))"
    if v: "validatePath c (resolvePath c a)" and q: "quiet c d"
      and w: "open_write (fs d) (resolvePath c a) t = Some (k, f)" for r fd d k rs f t
  proof -
    obtain l where l: "valid_loc l" "spells (resolvePath c a) l" "prefix h l"
      using settled_below[OF assms v] .
    have "fs d = fs c"
      using q by (simp add: quiet_def)
    then have o: "fs_step (root (fs c) @ h) (fs c) f" "prefix (root (fs c) @ h) k"
        "\<exists>s. kind_at (tree f) k = Some (Regular s)"
      using open_write_step[OF settledD(1)[OF assms] l, of t k f] w l(3) by auto
    have "fs_step (root (fs c) @ h) (fs c) (append_loop k rs f)"
      using append_loop_step[OF fs_stepD(2)[OF o(1)] o(3,2)] fs_step_trans[OF o(1)] by blast
    moreover have "quiet c (close_fd fd d)"
      using q by simp
    ultimately show ?thesis
      using settled_fs[OF assms _ quiet_fs] settled_fs[OF assms] quiet_fs by simp
  qed
  then show ?thesis
    using quiet_step[OF assms] by (simp add: handleAPPE_def returns_rules)
qed

subsection \<open>Every command\<close>

lemma quiet_settled: "settled h c \<Longrightarrow> returns m (quiet c) \<Longrightarrow> returns m (settled_step h c)"
  by (rule returns_settled)

lemmas user_settled = handleMKD_settled handleDELE_settled handleRMD_settled handleSITE_settled handleCWD_settled
  handleCDUP_settled handleRNFR_settled handleSTOR_settled handleSTOU_settled handleAPPE_settled

text \<open>\<open>RNTO\<close> apart, a command needs to know nothing of the source of a rename.\<close>

lemma settled_same:
  assumes "settled h c" "fs c' = fs c" "current_directory c' = current_directory c" "kept h c c'"
  shows "settled_step h c c'"
  using assms settledD(1)[OF assms(1)] by (simp add: settled_step_def settled_def fs_step_refl kept_def)

lemma handleUSER_settled: "settled h c \<Longrightarrow> returns (handleUSER e a c) (settled_step h c)"
  by (auto simp: handleUSER_def kept_def intro: settled_same)

lemma handleHOST_settled:
  assumes "settled h c"
  shows "returns (handleHOST e a c) (settled_step h c)"
proof -
  have "settled_step h c (sendResponse e r (c\<lparr>current_virtual_host := Some v\<rparr>))"
    if "virtual_host_manager c = Some m" "getVirtualHost m a = Some v" for r m v
    using that by (intro settled_same[OF assms]) (auto simp: kept_def intro: sym)
  then show ?thesis
    using quiet_step[OF assms] by (simp add: handleHOST_def returns_rules)
qed

lemma dispatch_settled:
  assumes "settled h c" "cmd \<noteq> ''PASS''"
    and "cmd = ''RNTO'' \<longrightarrow> rename_from_path c \<noteq> [] \<longrightarrow> source_below h (rename_from_path c)"
  shows "returns (dispatch e cmd a c) (settled_step h c)"
proof -
  have "returns (dispatch_user e cmd a c) (settled_step h c)"
    using assms(1,3) handleRNTO_settled[of h c e a] unfolding dispatch_user_def returns_if
    by (simp add: user_settled frames quiet_settled quiet_step)
  then show ?thesis
    using assms(1,2) unfolding dispatch_def returns_if
    by (simp add: handleUSER_settled handleHOST_settled frames quiet_settled quiet_step)
qed

subsection \<open>A session of one client\<close>

definition confined :: "loc \<Rightarrow> conn \<Rightarrow> bool" where
  "confined h c =
     ((\<exists>u. current_user c = Some u \<and> spells (u_home u) h) \<and> valid_loc h \<and> good (fs c) \<and>
      parent_dir (fs c) (root (fs c) @ h) \<and>
      (\<exists>l. valid_loc l \<and> spells (current_directory c) l) \<and>
      (rename_from_path c \<noteq> [] \<longrightarrow>
         (\<exists>l. valid_loc l \<and> spells (rename_from_path c) l \<and> prefix h l)))"

definition conf_step :: "loc \<Rightarrow> conn \<Rightarrow> conn \<Rightarrow> bool" where
  "conf_step h c c' =
     (confined h c' \<and> fs_step (root (fs c) @ h) (fs c) (fs c') \<and> current_user c' = current_user c)"

lemma confined_iff:
  "confined h c \<longleftrightarrow> settled h c \<and> (rename_from_path c \<noteq> [] \<longrightarrow> source_below h (rename_from_path c))"
  by (auto simp: confined_def settled_def source_below_def)

lemma confined_settled: "confined h c \<Longrightarrow> settled h c"
  by (simp add: confined_iff)

lemma settled_conf_step: "confined h c \<Longrightarrow> settled_step h c d \<Longrightarrow> conf_step h c d"
  by (auto simp: conf_step_def settled_step_def confined_iff kept_def)

lemmas confinedD = settledD[OF confined_settled]
lemmas resolved_below = settled_below[OF confined_settled]
lemmas validated = settled_validated[OF confined_settled]
lemmas made_dirs = settled_dirs[OF confined_settled]

lemma confined_quiet: "confined h c \<Longrightarrow> quiet c c' \<Longrightarrow> confined h c'"
  by (simp add: confined_def quiet_def)

lemma conf_step_trans: "conf_step h a b \<Longrightarrow> conf_step h b c \<Longrightarrow> conf_step h a c"
  unfolding conf_step_def using fs_stepD(1) fs_step_trans by metis

lemma conf_step_refl: "confined h c \<Longrightarrow> conf_step h c c"
  by (simp add: conf_step_def fs_step_refl confinedD)

lemma dispatch_conf:
  assumes "confined h c" "cmd \<noteq> ''PASS''"
  shows "returns (dispatch e cmd a c) (conf_step h c)"
  using returns_mono[OF dispatch_settled[OF confined_settled[OF assms(1)] assms(2)]]
    settled_conf_step[OF assms(1)] assms(1) by (simp add: confined_iff)

end
