(* ===== verification/World.thy ===== *)
theory World
  imports Login_Facts Confinement
begin

text \<open>
  Sessions as step relations. \<open>session_step\<close> is what one connection may do next: run a command,
  or notice that its peer is gone. \<open>command_loop\<close> only makes such steps
  (\<open>command_loop_session\<close>). \<open>world_step\<close> interleaves several connections over one file system
  and one session tracker, a command at a time; connections open and close in between.
\<close>

subsection \<open>One connection\<close>

inductive session_step :: "conn \<Rightarrow> string \<Rightarrow> conn \<Rightarrow> bool" where
  command: "dispatch e cmd a c = Some c' \<Longrightarrow> session_step c cmd c'"
| lost: "session_step c [] (c\<lparr>active := False\<rparr>)"

inductive_cases session_stepE: "session_step c cmd c'"

inductive session :: "(string \<Rightarrow> bool) \<Rightarrow> conn \<Rightarrow> conn \<Rightarrow> bool" for allowed where
  start: "session allowed c c"
| next_step: "session allowed a b \<Longrightarrow> session_step b cmd c \<Longrightarrow> allowed cmd \<Longrightarrow> session allowed a c"

lemma session_trans: "session P b c \<Longrightarrow> session P a b \<Longrightarrow> session P a c"
  by (induction rule: session.induct) (auto intro: session.intros)

lemma session_one: "session_step a cmd b \<Longrightarrow> P cmd \<Longrightarrow> session P a b"
  by (rule next_step[OF start])

text \<open>The invariant rule: what every allowed step keeps, a session keeps.\<close>

lemma session_invariant:
  assumes "session P a b" "I a" "\<And>b cmd c. I b \<Longrightarrow> P cmd \<Longrightarrow> session_step b cmd c \<Longrightarrow> I c"
  shows "I b"
  using assms by (induction rule: session.induct) auto

lemma readLine_session:
  assumes "readLine c input = (line, c', rest)"
  shows "session (\<lambda>_. True) c c'"
proof -
  have "fst (snd (readLine c input)) = c \<or> fst (snd (readLine c input)) = c\<lparr>active := False\<rparr>"
    by (simp add: readLine_def split: prod.split)
  then have "c' = c \<or> c' = c\<lparr>active := False\<rparr>"
    by (simp add: assms)
  then show ?thesis
    using session_one[OF lost, of "\<lambda>_. True" c] start[of "\<lambda>_. True" c] by (elim disjE) simp_all
qed

lemma session_inactive: "session (\<lambda>_. True) c (c\<lparr>active := False\<rparr>)"
  by (rule session_one[OF lost]) simp

lemma command_loop_session:
  "command_loop es n input c = Some c' \<Longrightarrow> session (\<lambda>_. True) c c'"
proof (induction es n input c rule: command_loop.induct)
  case (1 es n input c)
  show ?case
  proof (cases "active c")
    case True
    obtain line d rest where r: "readLine c input = (line, d, rest)"
      by (metis prod_cases3)
    obtain cmd a where p: "parse_command line = (cmd, a)"
      by fastforce
    note cd = readLine_session[OF r]
    show ?thesis
    proof (cases "line = []")
      case False
      obtain f where f: "dispatch (es n) cmd a d = Some f"
        using "1.prems" True r p False by (subst (asm) command_loop.simps) (auto split: option.splits)
      have df: "session (\<lambda>_. True) c f"
        using session_trans[OF session_one[OF command[OF f]] cd] by simp
      show ?thesis
      proof (cases "cmd = ''QUIT''")
        case True
        then have "c' = f\<lparr>active := False\<rparr>"
          using "1.prems" \<open>active c\<close> r p False f by (subst (asm) command_loop.simps) simp
        then show ?thesis
          using session_trans[OF session_inactive df] by simp
      next
        case cmd: False
        then have "command_loop es (n + 1) rest f = Some c'"
          using "1.prems" True r p False f by (subst (asm) command_loop.simps) simp
        then show ?thesis
          using session_trans[OF _ df] "1.IH"[of line "(d, rest)" d rest cmd a f] True r p False f cmd
          by simp
      qed
    next
      case True
      then have "c' = d\<lparr>active := False\<rparr>"
        using "1.prems" \<open>active c\<close> r by (subst (asm) command_loop.simps) simp
      then show ?thesis
        using session_trans[OF session_inactive cd] by simp
    qed
  next
    case False
    then show ?thesis
      using "1.prems" session_inactive by (subst (asm) command_loop.simps) auto
  qed
qed

subsection \<open>Several connections\<close>

record world =
  w_fs :: filesys
  w_tracker :: session_tracker
  w_conns :: "conn list"

definition attach :: "world \<Rightarrow> conn \<Rightarrow> conn" where
  "attach w c = c\<lparr>fs := w_fs w, tracker := w_tracker w\<rparr>"

definition detach :: "world \<Rightarrow> nat \<Rightarrow> conn \<Rightarrow> world" where
  "detach w i c = \<lparr>w_fs = fs c, w_tracker = tracker c, w_conns = (w_conns w)[i := c]\<rparr>"

inductive world_step :: "world \<Rightarrow> world \<Rightarrow> bool" where
  run_command: "i < length (w_conns w) \<Longrightarrow> dispatch e cmd a (attach w (w_conns w ! i)) = Some c \<Longrightarrow>
     world_step w (detach w i c)"
| open_conn: "world_step w (w\<lparr>w_conns := w_conns w @ [c]\<rparr>)"
| close_conn: "i < length (w_conns w) \<Longrightarrow>
     world_step w (detach w i (stop (attach w (w_conns w ! i))))"

inductive_cases world_stepE: "world_step w w'"

inductive world_run :: "(conn \<Rightarrow> bool) \<Rightarrow> world \<Rightarrow> world \<Rightarrow> bool" for served where
  world_start: "world_run served w w"
| world_next: "world_run served u v \<Longrightarrow> world_step v w \<Longrightarrow> \<forall>c\<in>set (w_conns w). served c \<Longrightarrow>
     world_run served u w"

subsection \<open>The session limit\<close>

text \<open>All connections are served with the same limit per user and share the tracker.\<close>

definition limited_to :: "nat \<Rightarrow> conn \<Rightarrow> bool" where
  "limited_to n c = (has_tracker c \<and> max_sessions_per_user (security (config c)) = int n)"

lemma session_limit_passed:
  assumes "limited_to n c" "0 < n" "session_limit_reply c = None"
  shows "getCountForUser (tracker c) (username c) < n"
  using assms by (auto simp: session_limit_reply_def limited_to_def split: if_splits)

lemma limited_to_kept: "login_kept c c' \<Longrightarrow> limited_to n c \<Longrightarrow> limited_to n c'"
  by (simp add: login_kept_def limited_to_def)

lemma PASS_limit:
  assumes "handlePASS e p c = Some c'" "limited_to n c" "0 < n"
    and "\<forall>k. getCountForUser (tracker c) k \<le> n"
  shows "\<forall>k. getCountForUser (tracker c') k \<le> n"
proof (cases "credentials_ok e p c \<and> session_limit_reply (snd (check_password e p c)) = None")
  case True
  have "getCountForUser (tracker c) (username c) < n"
    using session_limit_passed[of n "snd (check_password e p c)"] True assms(2,3)
    by (simp add: limited_to_def)
  moreover have "tracker c' = registerSession (tracker c) (username c) (vhost_name c)"
    using handlePASS_accepted[OF assms(1)] True assms(2) by (simp add: limited_to_def)
  ultimately show ?thesis
    using assms(4) by (simp add: tracker.reg_users)
next
  case False
  then have "tracker c' = tracker c"
    using handlePASS_rejected[OF assms(1)] by blast
  then show ?thesis
    using assms(4) by simp
qed

lemma dispatch_limit:
  assumes "dispatch e cmd a c = Some c'" "limited_to n c" "0 < n"
    and "\<forall>k. getCountForUser (tracker c) k \<le> n"
  shows "\<forall>k. getCountForUser (tracker c') k \<le> n"
proof (cases "cmd = ''PASS''")
  case True
  then show ?thesis
    using PASS_limit[OF _ assms(2-4)] assms(1) dispatch_PASS by simp
next
  case False
  then show ?thesis
    using returnsD[OF dispatch_login_kept assms(1)] assms(4) by (simp add: login_kept_def)
qed

lemma stop_counts:
  "getCountForUser (tracker (stop c)) k \<le> getCountForUser (tracker c) k"
  by (simp add: stop_def Let_def tracker.unreg_users)

lemma attach_simps [simp]:
  "tracker (attach w c) = w_tracker w" "fs (attach w c) = w_fs w"
  "limited_to n (attach w c) = limited_to n c"
  by (simp_all add: attach_def limited_to_def)

lemma world_step_limit:
  assumes "world_step w w'" "\<forall>c\<in>set (w_conns w). limited_to n c" "0 < n"
    and "\<forall>k. getCountForUser (w_tracker w) k \<le> n"
  shows "\<forall>k. getCountForUser (w_tracker w') k \<le> n"
  using assms(1)
proof (rule world_stepE)
  fix i e cmd a c
  assume i: "i < length (w_conns w)" and d: "dispatch e cmd a (attach w (w_conns w ! i)) = Some c"
    and w': "w' = detach w i c"
  have "limited_to n (attach w (w_conns w ! i))"
    using i assms(2) by simp
  then show ?thesis
    using dispatch_limit[OF d _ assms(3)] assms(4) by (simp add: w' detach_def)
next
  fix i
  assume "w' = detach w i (stop (attach w (w_conns w ! i)))"
  then show ?thesis
    using stop_counts[of "attach w (w_conns w ! i)"] assms(4) order_trans by (fastforce simp: detach_def)
qed (use assms(4) in simp)

lemma world_run_limit:
  assumes "world_run (limited_to n) v w" "\<forall>c\<in>set (w_conns v). limited_to n c" "0 < n"
    and "\<forall>k. getCountForUser (w_tracker v) k \<le> n"
  shows "\<forall>k. getCountForUser (w_tracker w) k \<le> n"
proof -
  have "(\<forall>c\<in>set (w_conns w). limited_to n c) \<and> (\<forall>k. getCountForUser (w_tracker w) k \<le> n)"
    using assms
  proof (induction rule: world_run.induct)
    case (world_next u v w)
    then show ?case
      using world_step_limit[OF world_next(2)] by blast
  qed simp
  then show ?thesis ..
qed

subsection \<open>Leaving\<close>

lemma PASS_stop:
  assumes "handlePASS e p c = Some c'" "credentials_ok e p c"
    and "session_limit_reply (snd (check_password e p c)) = None" "has_tracker c"
  shows "getCountForUser (tracker (stop c')) k = getCountForUser (tracker c) k"
    "getCountForHost (tracker (stop c')) k = getCountForHost (tracker c) k"
  using handlePASS_accepted[OF assms(1-3)] assms(4)
  by (simp_all add: stop_def Let_def vhost_name_def tracker.reg_users tracker.reg_hosts
      tracker.unreg_users tracker.unreg_hosts)

end
