(* ===== verification/Transfer_Facts.thy ===== *)
theory Transfer_Facts
  imports Frames Fs_Effects
begin

text \<open>
  What the copy loops deliver. \<open>copied content pos x y\<close>: going from \<open>x\<close> to \<open>y\<close> sent the next
  bytes of the file from position \<open>pos\<close> on, and nothing else. Each loop satisfies it whatever the
  system calls return; when every call does its full share, the rest of the file is sent.
\<close>

subsection \<open>Throttle\<close>

lemma throttle_rate_bound:
  assumes "0 < max_rate" "0 < elapsed"
  shows "int bytes * 1000 < max_rate * (elapsed + int (throttle_delay max_rate elapsed bytes) + 1)"
proof -
  let ?r = "nat max_rate" and ?t = "nat elapsed"
  let ?allowed = "?r * ?t div 1000"
  let ?d = "throttle_delay max_rate elapsed bytes"
  have a: "?allowed * 1000 \<le> ?r * ?t"
    by simp
  have "bytes * 1000 < ?r * (?t + ?d + 1)"
  proof (cases "?allowed < bytes")
    case True
    then have d: "?d = (bytes - ?allowed) * 1000 div ?r"
      using assms by (simp add: throttle_delay_def nat_mult_distrib)
    have "(bytes - ?allowed) * 1000 < ?r * (?d + 1)"
      using assms unfolding d by (metis Suc_eq_plus1 dividend_less_times_div mult.commute zero_less_nat_eq mult_Suc_right add.commute)
    moreover have "bytes * 1000 = (bytes - ?allowed) * 1000 + ?allowed * 1000"
      using True by (simp flip: add_mult_distrib)
    moreover have "?r * (?t + ?d + 1) = ?r * ?t + ?r * (?d + 1)"
      by (simp add: algebra_simps)
    ultimately show ?thesis
      using a by linarith
  next
    case False
    then show ?thesis
      using a assms by (simp add: algebra_simps)
  qed
  then have "int (bytes * 1000) < int (?r * (?t + ?d + 1))"
    by (simp only: of_nat_less_iff)
  moreover have "int (?r * (?t + ?d + 1)) = max_rate * (elapsed + int ?d + 1)"
    using assms by (simp add: algebra_simps)
  ultimately show ?thesis
    by simp
qed

subsection \<open>Copying\<close>

definition copied :: "string \<Rightarrow> nat \<Rightarrow> xfer \<Rightarrow> xfer \<Rightarrow> nat \<Rightarrow> bool" where
  "copied content pos x y n =
     (x_out y = x_out x @ take n (drop pos content) \<and> x_remaining y = x_remaining x - int n \<and>
      n \<le> length content - pos)"

lemma copied_refl: "x_out y = x_out x \<Longrightarrow> x_remaining y = x_remaining x \<Longrightarrow> copied content pos x y 0"
  by (simp add: copied_def)

lemma copied_trans:
  assumes "copied content pos x y n" "copied content (pos + n) y z m"
  shows "copied content pos x z (n + m)"
  using assms by (auto simp add: copied_def take_add add.commute[of n pos])

lemma throttle_simps [simp]:
  "x_out (apply_throttle e r x) = x_out x" "x_remaining (apply_throttle e r x) = x_remaining x"
  "x_offset (apply_throttle e r x) = x_offset x" "x_total (apply_throttle e r x) = x_total x"
  by (simp_all add: apply_throttle_def)

lemma sent_simps [simp]:
  "x_out (sent_bytes b x) = x_out x @ b" "x_remaining (sent_bytes b x) = x_remaining x - int (length b)"
  "x_offset (sent_bytes b x) = x_offset x"
  by (simp_all add: sent_bytes_def)

lemma copied_slice:
  assumes "x_out y = x_out x @ slice content (int pos) k"
    and "x_remaining y = x_remaining x - int (length (slice content (int pos) k))"
  shows "copied content pos x y (length (slice content (int pos) k))"
  using assms by (simp add: copied_def slice_def min_def)

lemma sendfile_copied:
  "0 \<le> x_offset x \<Longrightarrow>
   \<exists>n. copied content (nat (x_offset x)) x (sendfile_loop e r buf content rs x) n \<and>
       x_offset (sendfile_loop e r buf content rs x) = x_offset x + int n"
proof (induction rs arbitrary: x)
  case Nil
  then show ?case
    by (intro exI[of _ 0]) (simp add: copied_refl)
next
  case (Cons a rs)
  let ?t = "apply_throttle e r x"
  let ?chunk = "min buf (x_remaining x)"
  let ?b = "slice content (x_offset x) (min a ?chunk)"
  let ?y = "(sent_bytes ?b ?t)\<lparr>x_offset := x_offset x + int (length ?b)\<rparr>"
  have y: "copied content (nat (x_offset x)) x ?y (length ?b)"
    using Cons.prems copied_slice[of ?y x content "nat (x_offset x)"] by simp
  obtain m where m: "copied content (nat (x_offset ?y)) ?y (sendfile_loop e r buf content rs ?y) m"
      "x_offset (sendfile_loop e r buf content rs ?y) = x_offset ?y + int m"
    using Cons.IH[of ?y] Cons.prems by auto
  have ym: "copied content (nat (x_offset x)) x (sendfile_loop e r buf content rs ?y) (length ?b + m)"
    using copied_trans[OF y] m(1) Cons.prems by (simp add: nat_add_distrib)
  consider "x_remaining x \<le> 0" | "0 < x_remaining x" "?b = []" | "0 < x_remaining x" "?b \<noteq> []"
    by linarith
  then show ?case
  proof cases
    case 3
    then show ?thesis
      using y ym m(2) Cons.prems
      by (cases "int (length ?b) < ?chunk")
         (auto simp: Let_def intro!: exI[of _ "length ?b"] exI[of _ "length ?b + m"])
  qed (use Cons.prems in \<open>auto simp: Let_def copied_refl intro!: exI[of _ 0]\<close>)
qed

lemma read_loop_step:
  fixes e r buf content pos a s x
  defines "b \<equiv> slice content pos (min a (min buf (x_remaining x)))"
  defines "sent \<equiv> min s (int (length b))"
  defines "y \<equiv> sent_bytes (take (nat sent) b) (apply_throttle e r x)"
  shows "read_loop e r buf content pos ((a, s) # rs) x =
     (if x_remaining x \<le> 0 then x
      else if b = [] \<or> sent \<le> 0 then apply_throttle e r x
      else if sent < int (length b) then y
      else read_loop e r buf content (pos + int (length b)) rs y)"
  unfolding b_def sent_def y_def by (simp add: Let_def)

lemma read_copied:
  "0 \<le> pos \<Longrightarrow> \<exists>n. copied content (nat pos) x (read_loop e r buf content pos rs x) n"
proof (induction rs arbitrary: pos x)
  case Nil
  then show ?case
    by (intro exI[of _ 0]) (simp add: copied_refl)
next
  case (Cons as rs)
  obtain a s where as: "as = (a, s)"
    by (cases as)
  define b where "b = slice content pos (min a (min buf (x_remaining x)))"
  define sent where "sent = min s (int (length b))"
  define y where "y = sent_bytes (take (nat sent) b) (apply_throttle e r x)"
  note step = read_loop_step[of e r buf content pos a s rs x, folded b_def, folded sent_def, folded y_def]
  have y: "copied content (nat pos) x y (length (take (nat sent) b))"
    by (simp add: copied_def y_def b_def slice_def min_def)
  obtain m where m: "copied content (nat (pos + int (length b))) y
      (read_loop e r buf content (pos + int (length b)) rs y) m"
    using Cons.IH[of "pos + int (length b)" y] Cons.prems by auto
  consider (stop) "x_remaining x \<le> 0 \<or> b = [] \<or> sent \<le> 0"
    | (short) "0 < x_remaining x" "b \<noteq> []" "0 < sent" "sent < int (length b)"
    | (full) "0 < x_remaining x" "b \<noteq> []" "sent = int (length b)"
    unfolding sent_def by linarith
  then show ?case
  proof cases
    case stop
    then have "read_loop e r buf content pos (as # rs) x \<in> {x, apply_throttle e r x}"
      unfolding as step by auto
    then show ?thesis
      by (intro exI[of _ 0]) (auto simp: copied_refl)
  next
    case short
    then have "read_loop e r buf content pos (as # rs) x = y"
      unfolding as step by simp
    then show ?thesis
      using y by metis
  next
    case full
    then have "read_loop e r buf content pos (as # rs) x = read_loop e r buf content (pos + int (length b)) rs y"
      unfolding as step by simp
    moreover have "nat (pos + int (length b)) = nat pos + length (take (nat sent) b)"
      using full Cons.prems by (simp add: nat_add_distrib)
    ultimately show ?thesis
      using copied_trans[OF y] m by metis
  qed
qed

lemma mapped_slice:
  assumes "0 \<le> p" "0 \<le> n" "p + n \<le> int (length content)"
  shows "map (\<lambda>i. mapped_byte e content (p + int i)) [0..<nat n] = take (nat n) (drop (nat p) content)"
proof (rule nth_equalityI)
  show "length (map (\<lambda>i. mapped_byte e content (p + int i)) [0..<nat n]) =
        length (take (nat n) (drop (nat p) content))"
    using assms by simp
next
  fix i
  assume i: "i < length (map (\<lambda>i. mapped_byte e content (p + int i)) [0..<nat n])"
  then have "nat (p + int i) = nat p + i" "p + int i < int (length content)" "i < nat n"
    using assms by auto
  then show "map (\<lambda>i. mapped_byte e content (p + int i)) [0..<nat n] ! i =
        take (nat n) (drop (nat p) content) ! i"
    using assms by (simp add: mapped_byte_def)
qed

lemma mmap_loop_step:
  fixes a buf x
  defines "sent \<equiv> min a (min buf (x_remaining x))"
  shows "mmap_loop e r buf content p (a # rs) x =
     (if x_remaining x \<le> 0 then x
      else if sent \<le> 0 then apply_throttle e r x
      else mmap_loop e r buf content (p + sent) rs
             (sent_bytes (map (\<lambda>i. mapped_byte e content (p + int i)) [0..<nat sent])
                (apply_throttle e r x)))"
  unfolding sent_def by (simp add: Let_def)

lemma mmap_copied:
  "0 \<le> p \<Longrightarrow> p + x_remaining x \<le> int (length content) \<Longrightarrow>
   \<exists>n. copied content (nat p) x (mmap_loop e r buf content p rs x) n"
proof (induction rs arbitrary: p x)
  case Nil
  then show ?case
    by (intro exI[of _ 0]) (simp add: copied_refl)
next
  case (Cons a rs)
  define sent where "sent = min a (min buf (x_remaining x))"
  define y where "y = sent_bytes (take (nat sent) (drop (nat p) content)) (apply_throttle e r x)"
  show ?case
  proof (cases "x_remaining x \<le> 0 \<or> sent \<le> 0")
    case True
    then show ?thesis
      unfolding mmap_loop_step sent_def[symmetric] by (intro exI[of _ 0]) (auto simp: copied_refl)
  next
    case False
    then have len: "length (take (nat sent) (drop (nat p) content)) = nat sent"
      using Cons.prems by (simp add: sent_def)
    have "p + sent \<le> int (length content)"
      using Cons.prems(2) by (simp add: sent_def)
    then have m: "map (\<lambda>i. mapped_byte e content (p + int i)) [0..<nat sent] =
        take (nat sent) (drop (nat p) content)"
      using False Cons.prems(1) by (intro mapped_slice) auto
    have step: "mmap_loop e r buf content p (a # rs) x = mmap_loop e r buf content (p + sent) rs y"
      using False unfolding mmap_loop_step sent_def[symmetric] m y_def by simp
    have y: "copied content (nat p) x y (nat sent)"
      using False Cons.prems len by (simp add: copied_def y_def)
    have "x_remaining y = x_remaining x - sent"
      using len False by (simp add: y_def del: length_take)
    then obtain m where "copied content (nat (p + sent)) y (mmap_loop e r buf content (p + sent) rs y) m"
      using Cons.IH[of "p + sent" y] Cons.prems False by auto
    then show ?thesis
      using copied_trans[OF y] step False Cons.prems by (auto simp: nat_add_distrib)
  qed
qed

subsection \<open>Complete transfers\<close>

text \<open>Every call moves a full chunk, and there are calls enough.\<close>

definition enough :: "int \<Rightarrow> int list \<Rightarrow> int \<Rightarrow> bool" where
  "enough buf rs todo = ((\<forall>r\<in>set rs. buf \<le> r) \<and> todo \<le> buf * int (length rs))"

lemma enough_Cons: "enough buf (r # rs) todo \<Longrightarrow> buf \<le> r \<and> enough buf rs (todo - buf)"
  by (auto simp: enough_def algebra_simps)

lemma enough_less: "enough buf rs todo \<Longrightarrow> k \<le> todo \<Longrightarrow> enough buf rs k"
  by (auto simp: enough_def)

lemma sendfile_loop_step:
  fixes a buf content x e r
  defines "chunk \<equiv> min buf (x_remaining x)"
  defines "b \<equiv> slice content (x_offset x) (min a chunk)"
  defines "y \<equiv> (sent_bytes b (apply_throttle e r x))\<lparr>x_offset := x_offset x + int (length b)\<rparr>"
  shows "sendfile_loop e r buf content (a # rs) x =
     (if x_remaining x \<le> 0 then x
      else if x_offset x < 0 \<or> b = [] then apply_throttle e r x
      else if int (length b) < chunk then y
      else sendfile_loop e r buf content rs y)"
  unfolding chunk_def b_def y_def by (simp add: Let_def)

lemma sendfile_full:
  "0 < buf \<Longrightarrow> 0 \<le> x_offset x \<Longrightarrow> x_offset x + x_remaining x = int (length content) \<Longrightarrow>
   0 \<le> x_remaining x \<Longrightarrow> enough buf rs (x_remaining x) \<Longrightarrow>
   x_remaining (sendfile_loop e r buf content rs x) = 0"
proof (induction rs arbitrary: x)
  case (Cons a rs)
  define chunk where "chunk = min buf (x_remaining x)"
  define b where "b = slice content (x_offset x) chunk"
  define y where "y = (sent_bytes b (apply_throttle e r x))\<lparr>x_offset := x_offset x + int (length b)\<rparr>"
  show ?case
  proof (cases "x_remaining x = 0")
    case False
    have a: "buf \<le> a" "enough buf rs (x_remaining x - buf)"
      using enough_Cons[OF Cons.prems(5)] by simp_all
    have lb: "int (length b) = chunk"
      using Cons.prems by (simp add: b_def slice_def chunk_def)
    have "min a chunk = chunk"
      using a(1) by (simp add: chunk_def)
    then have step: "sendfile_loop e r buf content (a # rs) x = sendfile_loop e r buf content rs y"
      using False Cons.prems lb unfolding sendfile_loop_step chunk_def[symmetric]
      by (auto simp: y_def b_def[symmetric]) (auto simp: chunk_def)
    have "x_remaining y = x_remaining x - chunk" "x_offset y = x_offset x + chunk"
      using lb by (simp_all add: y_def)
    moreover have "enough buf rs (x_remaining x - chunk)"
    proof (cases "buf \<le> x_remaining x")
      case True
      then show ?thesis
        using a(2) by (simp add: chunk_def)
    next
      case False
      then show ?thesis
        using Cons.prems(1,5) by (simp add: chunk_def enough_def)
    qed
    ultimately show ?thesis
      unfolding step using Cons.prems by (intro Cons.IH) (auto simp: chunk_def)
  qed simp
qed (simp add: enough_def)

lemma mmap_full:
  "0 < buf \<Longrightarrow> 0 \<le> p \<Longrightarrow> p + x_remaining x = int (length content) \<Longrightarrow> 0 \<le> x_remaining x \<Longrightarrow>
   enough buf rs (x_remaining x) \<Longrightarrow> x_remaining (mmap_loop e r buf content p rs x) = 0"
proof (induction rs arbitrary: p x)
  case (Cons a rs)
  define chunk where "chunk = min buf (x_remaining x)"
  show ?case
  proof (cases "x_remaining x = 0")
    case False
    have a: "buf \<le> a" "enough buf rs (x_remaining x - buf)"
      using enough_Cons[OF Cons.prems(5)] by simp_all
    have c: "min a (min buf (x_remaining x)) = chunk" "0 < chunk" "chunk \<le> x_remaining x"
      using a(1) False Cons.prems by (auto simp: chunk_def)
    define y where "y = sent_bytes (map (\<lambda>i. mapped_byte e content (p + int i)) [0..<nat chunk])
        (apply_throttle e r x)"
    have step: "mmap_loop e r buf content p (a # rs) x = mmap_loop e r buf content (p + chunk) rs y"
      using False c Cons.prems unfolding mmap_loop_step c(1) y_def by simp
    have y: "x_remaining y = x_remaining x - chunk"
      using c by (simp add: y_def)
    have "enough buf rs (x_remaining x - chunk)"
    proof (cases "buf \<le> x_remaining x")
      case False
      then show ?thesis
        using Cons.prems(1,5) by (simp add: chunk_def enough_def)
    qed (use a(2) in \<open>simp add: chunk_def\<close>)
    then show ?thesis
      unfolding step using Cons.prems c y by (intro Cons.IH) auto
  qed simp
qed (simp add: enough_def)

lemma read_full:
  "0 < buf \<Longrightarrow> 0 \<le> pos \<Longrightarrow> pos + x_remaining x = int (length content) \<Longrightarrow> 0 \<le> x_remaining x \<Longrightarrow>
   enough buf (map fst rs) (x_remaining x) \<Longrightarrow> \<forall>p\<in>set rs. buf \<le> snd p \<Longrightarrow>
   x_remaining (read_loop e r buf content pos rs x) = 0"
proof (induction rs arbitrary: pos x)
  case (Cons as rs)
  obtain a s where as: "as = (a, s)"
    by (cases as)
  define chunk where "chunk = min buf (x_remaining x)"
  define b where "b = slice content pos chunk"
  define y where "y = sent_bytes b (apply_throttle e r x)"
  show ?case
  proof (cases "x_remaining x = 0")
    case False
    have a: "buf \<le> a" "enough buf (map fst rs) (x_remaining x - buf)" "buf \<le> s"
      using enough_Cons[of buf a "map fst rs"] Cons.prems(5,6) by (simp_all add: as)
    have c: "min a (min buf (x_remaining x)) = chunk" "0 < chunk" "chunk \<le> buf"
      using a(1) False Cons.prems by (auto simp: chunk_def)
    have lb: "int (length b) = chunk"
      using Cons.prems by (simp add: b_def slice_def chunk_def)
    then have s: "min s (int (length b)) = int (length b)" "b \<noteq> []"
      using a(3) c by auto
    have step: "read_loop e r buf content pos (as # rs) x = read_loop e r buf content (pos + chunk) rs y"
      using False Cons.prems c lb s unfolding as read_loop_step c(1) b_def[symmetric] y_def by simp
    have y: "x_remaining y = x_remaining x - chunk"
      using lb by (simp add: y_def)
    have "enough buf (map fst rs) (x_remaining x - chunk)"
    proof (cases "buf \<le> x_remaining x")
      case False
      then show ?thesis
        using Cons.prems(1,5) by (simp add: chunk_def enough_def)
    qed (use a(2) in \<open>simp add: chunk_def\<close>)
    then show ?thesis
      unfolding step using Cons.prems c y by (intro Cons.IH) (auto simp: chunk_def)
  qed (simp add: as)
qed (simp add: enough_def)

subsection \<open>RETR\<close>

lemma copy_buffer_pos: "0 < copy_buffer c"
  by (simp add: copy_buffer_def)

lemma start_simps [simp]:
  "x_offset (start_xfer content offset) = offset" "x_out (start_xfer content offset) = []"
  "x_remaining (start_xfer content offset) = int (length content) - offset"
  by (simp_all add: start_xfer_def)

lemma sendfile_phase_copied:
  assumes "0 \<le> x_offset x"
  shows "\<exists>n. copied content (nat (x_offset x)) x (snd (sendfile_phase e c content x)) n \<and>
     x_offset (snd (sendfile_phase e c content x)) = x_offset x + int n"
  using sendfile_copied[OF assms] copied_refl[of x x] by (force simp: sendfile_phase_def Let_def)

lemma read_phase_copied:
  assumes "0 \<le> x_offset x"
  shows "\<exists>n. x_out (fst (read_phase e c content x)) = x_out x @ take n (drop (nat (x_offset x)) content)"
  using read_copied[OF assms, of content "x\<lparr>x_remaining := int (length content) - x_offset x\<rparr>" e
      "max_transfer_rate (rate_limit (config c))" "copy_buffer c" "io_results e"] assms
  by (auto simp: read_phase_def seek_ok_def seek_pos_def copied_def max_def)

text \<open>Without \<open>mmap\<close>, whatever the calls return, the client gets a piece of the file that starts
  where it asked for.\<close>

lemma retr_copy_prefix:
  assumes "\<not> transferModeZ c" "\<not> use_mmap (transfer (config c))" "0 \<le> offset"
  shows "\<exists>n. x_out (fst (retr_copy e c content offset)) = take n (drop (nat offset) content)"
proof -
  let ?s = "snd (sendfile_phase e c content (start_xfer content offset))"
  obtain n where n: "x_out ?s = take n (drop (nat offset) content)" "x_offset ?s = offset + int n"
    using sendfile_phase_copied[of "start_xfer content offset" content e c] assms(3)
    by (auto simp: copied_def)
  obtain m where m: "x_out (fst (read_phase e c content ?s)) =
      take n (drop (nat offset) content) @ take m (drop (nat offset + n) content)"
    using read_phase_copied[of ?s e c content] n assms(3) by (auto simp: nat_add_distrib)
  have "x_out (fst (read_phase e c content ?s)) = take (n + m) (drop (nat offset) content)"
    unfolding m by (simp add: take_add add.commute[of n "nat offset"])
  moreover have "fst (retr_copy e c content offset) \<in> {?s, fst (read_phase e c content ?s)}"
    using assms(1,2) by (simp add: retr_copy_def mmap_phase_def Let_def case_prod_beta)
  ultimately show ?thesis
    using n(1) by auto
qed

text \<open>All the calls of an environment do their full share of a file of that length.\<close>

definition full_io :: "env \<Rightarrow> int \<Rightarrow> nat \<Rightarrow> bool" where
  "full_io e buf len =
     (enough buf (sendfile_results e) (int len) \<and> enough buf (send_results e) (int len) \<and>
      enough buf (map fst (io_results e)) (int len) \<and> (\<forall>p\<in>set (io_results e). buf \<le> snd p))"

lemma copied_all:
  assumes "copied content pos x y n" "x_remaining y = 0" "x_remaining x = int (length content) - int pos"
  shows "x_out y = x_out x @ drop pos content"
  using assms by (auto simp: copied_def)

lemma sendfile_phase_full:
  assumes "0 \<le> offset" "offset \<le> int (length content)" "full_io e (copy_buffer c) (length content)"
    and "sendfile_phase e c content (start_xfer content offset) = (ok, x)"
  shows "if ok then x_out x = drop (nat offset) content else x = start_xfer content offset"
proof -
  let ?r = "max_transfer_rate (rate_limit (config c))"
  let ?s = "sendfile_loop e ?r (copy_buffer c) content (sendfile_results e) (start_xfer content offset)"
  have "enough (copy_buffer c) (sendfile_results e) (int (length content) - offset)"
    using assms(1,3) by (auto simp: full_io_def elim: enough_less)
  then have r: "x_remaining ?s = 0"
    using assms(1,2) by (intro sendfile_full copy_buffer_pos) auto
  obtain n where "copied content (nat offset) (start_xfer content offset) ?s n"
    using sendfile_copied[of "start_xfer content offset"] assms(1) by fastforce
  then have "x_out ?s = drop (nat offset) content"
    using copied_all[OF _ r] assms(1) by simp
  then show ?thesis
    using assms(4) r by (auto simp: sendfile_phase_def Let_def split: if_splits)
qed

lemma mmap_phase_full:
  assumes "0 \<le> offset" "offset \<le> int (length content)" "full_io e (copy_buffer c) (length content)"
    and "mmap_phase e c content (start_xfer content offset) = (ok, x)"
  shows "if ok then x_out x = drop (nat offset) content else x = start_xfer content offset"
proof -
  let ?r = "max_transfer_rate (rate_limit (config c))"
  let ?y = "start_xfer content offset\<lparr>x_remaining := int (length content) - offset\<rparr>"
  let ?s = "mmap_loop e ?r (copy_buffer c) content offset (send_results e) ?y"
  have "enough (copy_buffer c) (send_results e) (int (length content) - offset)"
    using assms(1,3) by (auto simp: full_io_def elim: enough_less)
  then have r: "x_remaining ?s = 0"
    using assms(1,2) by (intro mmap_full copy_buffer_pos) auto
  obtain n where "copied content (nat offset) ?y ?s n"
    using mmap_copied[of offset ?y content e ?r "copy_buffer c" "send_results e"] assms(1) by auto
  then have "x_out ?s = drop (nat offset) content"
    using copied_all[OF _ r] assms(1) by simp
  then show ?thesis
    using assms(4) r by (auto simp: mmap_phase_def Let_def split: if_splits)
qed

lemma read_phase_full:
  assumes "0 \<le> offset" "offset \<le> int (length content)" "full_io e (copy_buffer c) (length content)"
  shows "x_out (fst (read_phase e c content (start_xfer content offset))) = drop (nat offset) content \<and>
         snd (read_phase e c content (start_xfer content offset)) = None"
proof -
  let ?r = "max_transfer_rate (rate_limit (config c))"
  let ?y = "start_xfer content offset\<lparr>x_remaining := int (length content) - offset\<rparr>"
  let ?s = "read_loop e ?r (copy_buffer c) content offset (io_results e) ?y"
  have "enough (copy_buffer c) (map fst (io_results e)) (int (length content) - offset)"
    using assms(1,3) by (auto simp: full_io_def elim: enough_less)
  then have r: "x_remaining ?s = 0"
    using assms by (intro read_full copy_buffer_pos) (auto simp: full_io_def)
  obtain n where "copied content (nat offset) ?y ?s n"
    using read_copied[of offset content ?y e ?r "copy_buffer c" "io_results e"] assms(1) by auto
  then have "x_out ?s = drop (nat offset) content"
    using copied_all[OF _ r] assms(1) by simp
  then show ?thesis
    using assms(1) by (simp add: read_phase_def seek_ok_def seek_pos_def max_def)
qed

lemma retr_copy_full:
  assumes "\<not> transferModeZ c" "0 \<le> offset" "offset \<le> int (length content)"
    and "full_io e (copy_buffer c) (length content)"
  shows "x_out (fst (retr_copy e c content offset)) = drop (nat offset) content \<and>
         snd (retr_copy e c content offset) = None"
proof -
  obtain ok x where s: "sendfile_phase e c content (start_xfer content offset) = (ok, x)"
    by fastforce
  obtain ok' x' where m: "mmap_phase e c content (start_xfer content offset) = (ok', x')"
    by fastforce
  show ?thesis
    using sendfile_phase_full[OF assms(2-4) s] mmap_phase_full[OF assms(2-4) m]
      read_phase_full[OF assms(2-4)] assms(1) s m
    by (auto simp: retr_copy_def Let_def split: if_splits)
qed

subsection \<open>Uploads\<close>

lemma write_bytes_append:
  assumes "a \<noteq> []"
  shows "write_bytes (write_bytes s p a) (p + length a) b = write_bytes s p (a @ b)"
  using assms by (cases "b = []") (auto simp: write_bytes_def min_def ac_simps)

lemma write_bytes_whole: "write_bytes [] 0 b = b"
  by (simp add: write_bytes_def)

lemma write_bytes_end: "write_bytes s (length s) b = s @ b"
  by (simp add: write_bytes_def)

text \<open>What the data connection delivers before it ends or fails.\<close>

fun payload :: "string option list \<Rightarrow> string" where
  "payload (Some bytes # rs) = (if bytes = [] then [] else bytes @ payload rs)"
| "payload rs = []"

lemma content_at_write [simp]:
  "content_at (write_at f d p b) d = write_bytes (content_at f d) p b"
  by (simp add: content_at_def write_at_def kind_put)

lemma store_loop_content:
  "content_at (up_fs (store_loop e r d rs u)) d =
     (if payload rs = [] then content_at (up_fs u) d
      else write_bytes (content_at (up_fs u) d) (up_pos u) (payload rs))"
proof (induction e r d rs u rule: store_loop.induct)
  case (3 e r d bytes rs u)
  show ?case
  proof (cases "bytes = []")
    case False
    let ?u = "write_chunk d bytes (upload_throttle e r (length bytes) u)"
    have u: "content_at (up_fs ?u) d = write_bytes (content_at (up_fs u) d) (up_pos u) bytes"
      "up_pos ?u = up_pos u + length bytes"
      by (simp_all add: write_chunk_def upload_throttle_def)
    show ?thesis
      using 3 False u write_bytes_append[OF False] by (auto simp: write_bytes_append[OF False])
  qed simp
qed simp_all

lemma append_loop_content: "content_at (append_loop d rs f) d = content_at f d @ payload rs"
  by (induction d rs f rule: append_loop.induct) (simp_all add: write_bytes_end)

lemma store_loop_regular:
  "kind_at (tree (up_fs u)) d = Some (Regular s) \<Longrightarrow>
   \<exists>s. kind_at (tree (up_fs (store_loop e r d rs u))) d = Some (Regular s)"
proof (induction e r d rs u arbitrary: s rule: store_loop.induct)
  case (3 e r d bytes rs u)
  have "\<exists>s. kind_at (tree (up_fs (write_chunk d bytes (upload_throttle e r (length bytes) u)))) d =
      Some (Regular s)"
    by (simp add: write_chunk_def write_at_def kind_put)
  then show ?case
    using 3 by auto
qed auto

text \<open>In a tree without links a file is found again under the path that spells its location.\<close>

lemma good_file_content:
  assumes "good f" "valid_loc l" "kind_at (tree f) (root f @ l) = Some (Regular s)"
  shows "file_content f (string_of_loc l) = Some s" "resolve f (string_of_loc l) = At (root f @ l)"
proof -
  have "l \<noteq> []"
    using assms(1,3) by (auto simp: good_def wf_fs_def)
  then have "walk_from f (root f) (split_on CHR ''/'' (string_of_loc l)) = At (root f @ l)"
    using walk_to[OF goodD(2)[OF assms(1)] goodD(3)[OF assms(1)], of "root f" l] assms
      goodD(1)[OF assms(1)]
    by (simp add: split_on_loc[OF assms(2)] walk_from_def wf_fs_def)
  then show r: "resolve f (string_of_loc l) = At (root f @ l)"
    by (simp add: resolve_abs)
  show "file_content f (string_of_loc l) = Some s"
    using assms(3) by (simp add: file_content_def r)
qed

lemma open_write_plain:
  assumes "good f" "valid_loc l" "spells p l" "open_write f p t = Some (d, f')"
  shows "p = string_of_loc l"
proof (rule ccontr)
  assume "p \<noteq> string_of_loc l"
  then have p: "l \<noteq> []" "p = string_of_loc l @ root_dir"
    using assms(3) by (auto simp: spells_def)
  have sp: "split_on CHR ''/'' p = ([] # l) @ [[]]"
    using split_on_loc[OF assms(2)] p by (simp add: root_dir_def split_on_app)
  have abs: "is_absolute p"
    using p by (simp add: is_absolute_def string_of_loc_def root_dir_def)
  have r: "resolve f p = (case walk (tree f) (root f) symlink_limit (root f) ([] # l) of
      At e \<Rightarrow> walk (tree f) (root f) symlink_limit e [[]]
    | Missing e x xs \<Rightarrow> Missing e x (xs @ [[]]) | w \<Rightarrow> w)"
    unfolding resolve_abs[OF abs] walk_from_def sp by (rule walk_append[OF goodD(2)[OF assms(1)]])
  show False
    using assms(4) unfolding open_write_def r
    by (auto split: walked.splits if_splits option.splits kind.splits)
qed

end
