(* ===== verification/Protocol_Facts.thy ===== *)
theory Protocol_Facts
  imports World Transfer_Facts
begin

text \<open>
  Facts about the protocol as a whole: every command is answered (\<open>dispatch_answers\<close>), a
  protected control connection stays protected (\<open>dispatch_secure\<close>), a client that has not logged
  in reaches neither files nor the data channel (\<open>dispatch_anonymous\<close>), and what \<open>RETR\<close> sends comes
  from a file below the home, symbolic links or not (\<open>retr_below_home\<close>).
\<close>

subsection \<open>Answers\<close>

lemma send_calls_sendResponse [simp]:
  "send_calls (sendResponse e r c) = send_calls c + (if socket_open c then 1 else 0)"
  by (simp add: sendResponse_def Let_def)

lemma send_calls_sendResponses [simp]:
  "send_calls (sendResponses e rs c) = send_calls c + (if socket_open c then length rs else 0)"
  by (induction rs arbitrary: c) simp_all

definition answered :: "conn \<Rightarrow> conn \<Rightarrow> bool" where
  "answered c d = (send_calls c < send_calls d \<and> socket_open d)"

definition started :: "conn \<Rightarrow> conn \<Rightarrow> bool" where
  "started c d = (send_calls c \<le> send_calls d \<and> socket_open d)"

lemma started_helpers:
  "started c d \<Longrightarrow> answered c (sendResponse e r d)"
  "started c d \<Longrightarrow> rs \<noteq> [] \<Longrightarrow> answered c (sendResponses e rs d)"
  "answered c d \<Longrightarrow> started c d" "socket_open c \<Longrightarrow> started c c"
  by (simp_all add: started_def answered_def) (simp add: neq_Nil_conv, auto)

lemma started_update [simp]:
  "started c (d\<lparr>config := new_config\<rparr>) = started c d"
  "started c (d\<lparr>user_manager := new_user_manager\<rparr>) = started c d"
  "started c (d\<lparr>pam_auth := new_pam_auth\<rparr>) = started c d"
  "started c (d\<lparr>active := new_active\<rparr>) = started c d"
  "started c (d\<lparr>authenticated := new_authenticated\<rparr>) = started c d"
  "started c (d\<lparr>username := new_username\<rparr>) = started c d"
  "started c (d\<lparr>current_user := new_current_user\<rparr>) = started c d"
  "started c (d\<lparr>current_directory := new_current_directory\<rparr>) = started c d"
  "started c (d\<lparr>passive_listen_socket := new_passive_listen_socket\<rparr>) = started c d"
  "started c (d\<lparr>data_socket := new_data_socket\<rparr>) = started c d"
  "started c (d\<lparr>transfer_type := new_transfer_type\<rparr>) = started c d"
  "started c (d\<lparr>transfer_mode := new_transfer_mode\<rparr>) = started c d"
  "started c (d\<lparr>protection_level := new_protection_level\<rparr>) = started c d"
  "started c (d\<lparr>active_mode_ip := new_active_mode_ip\<rparr>) = started c d"
  "started c (d\<lparr>active_mode_port := new_active_mode_port\<rparr>) = started c d"
  "started c (d\<lparr>active_mode_enabled := new_active_mode_enabled\<rparr>) = started c d"
  "started c (d\<lparr>resume_position := new_resume_position\<rparr>) = started c d"
  "started c (d\<lparr>rename_from_path := new_rename_from_path\<rparr>) = started c d"
  "started c (d\<lparr>epsv_all := new_epsv_all\<rparr>) = started c d"
  "started c (d\<lparr>utf8_enabled := new_utf8_enabled\<rparr>) = started c d"
  "started c (d\<lparr>store_unique_name := new_store_unique_name\<rparr>) = started c d"
  "started c (d\<lparr>virtual_host_manager := new_virtual_host_manager\<rparr>) = started c d"
  "started c (d\<lparr>current_virtual_host := new_current_virtual_host\<rparr>) = started c d"
  "started c (d\<lparr>has_tracker := new_has_tracker\<rparr>) = started c d"
  "started c (d\<lparr>session_registered := new_session_registered\<rparr>) = started c d"
  "started c (d\<lparr>fs := new_fs\<rparr>) = started c d"
  "started c (d\<lparr>tracker := new_tr\<rparr>) = started c d"
  "started c (d\<lparr>data_out := new_data_out\<rparr>) = started c d"
  "started c (d\<lparr>closed := new_closed\<rparr>) = started c d"
  "started c (d\<lparr>dialled := new_dialled\<rparr>) = started c d"
  "started c (d\<lparr>slept := new_slept\<rparr>) = started c d"
  "started c (d\<lparr>replies := new_replies\<rparr>) = started c d"
  "started c (d\<lparr>ssl_context := new_ssl_context\<rparr>) = started c d"
  "started c (d\<lparr>ssl_enabled := new_ssl_enabled\<rparr>) = started c d"
  "started c (d\<lparr>ssl_active := new_ssl_active\<rparr>) = started c d"
  "started c (d\<lparr>ssl_session := new_ssl_session\<rparr>) = started c d"
  "started c (close_fd fd d) = started c d"
  "started c (send_data fd b d) = started c d"
  "started c (closeDataSocket d) = started c d"
  "started c (snd (acceptDataConnection e d)) = started c d"
  "started c (snd (createPassiveDataSocket e d)) = started c d"
  by (simp_all add: started_def)

lemma answered_update [simp]:
  "answered c (d\<lparr>config := new_config\<rparr>) = answered c d"
  "answered c (d\<lparr>user_manager := new_user_manager\<rparr>) = answered c d"
  "answered c (d\<lparr>pam_auth := new_pam_auth\<rparr>) = answered c d"
  "answered c (d\<lparr>active := new_active\<rparr>) = answered c d"
  "answered c (d\<lparr>authenticated := new_authenticated\<rparr>) = answered c d"
  "answered c (d\<lparr>username := new_username\<rparr>) = answered c d"
  "answered c (d\<lparr>current_user := new_current_user\<rparr>) = answered c d"
  "answered c (d\<lparr>current_directory := new_current_directory\<rparr>) = answered c d"
  "answered c (d\<lparr>passive_listen_socket := new_passive_listen_socket\<rparr>) = answered c d"
  "answered c (d\<lparr>data_socket := new_data_socket\<rparr>) = answered c d"
  "answered c (d\<lparr>transfer_type := new_transfer_type\<rparr>) = answered c d"
  "answered c (d\<lparr>transfer_mode := new_transfer_mode\<rparr>) = answered c d"
  "answered c (d\<lparr>protection_level := new_protection_level\<rparr>) = answered c d"
  "answered c (d\<lparr>active_mode_ip := new_active_mode_ip\<rparr>) = answered c d"
  "answered c (d\<lparr>active_mode_port := new_active_mode_port\<rparr>) = answered c d"
  "answered c (d\<lparr>active_mode_enabled := new_active_mode_enabled\<rparr>) = answered c d"
  "answered c (d\<lparr>resume_position := new_resume_position\<rparr>) = answered c d"
  "answered c (d\<lparr>rename_from_path := new_rename_from_path\<rparr>) = answered c d"
  "answered c (d\<lparr>epsv_all := new_epsv_all\<rparr>) = answered c d"
  "answered c (d\<lparr>utf8_enabled := new_utf8_enabled\<rparr>) = answered c d"
  "answered c (d\<lparr>store_unique_name := new_store_unique_name\<rparr>) = answered c d"
  "answered c (d\<lparr>virtual_host_manager := new_virtual_host_manager\<rparr>) = answered c d"
  "answered c (d\<lparr>current_virtual_host := new_current_virtual_host\<rparr>) = answered c d"
  "answered c (d\<lparr>has_tracker := new_has_tracker\<rparr>) = answered c d"
  "answered c (d\<lparr>session_registered := new_session_registered\<rparr>) = answered c d"
  "answered c (d\<lparr>fs := new_fs\<rparr>) = answered c d"
  "answered c (d\<lparr>tracker := new_tr\<rparr>) = answered c d"
  "answered c (d\<lparr>data_out := new_data_out\<rparr>) = answered c d"
  "answered c (d\<lparr>closed := new_closed\<rparr>) = answered c d"
  "answered c (d\<lparr>dialled := new_dialled\<rparr>) = answered c d"
  "answered c (d\<lparr>slept := new_slept\<rparr>) = answered c d"
  "answered c (d\<lparr>replies := new_replies\<rparr>) = answered c d"
  "answered c (d\<lparr>ssl_context := new_ssl_context\<rparr>) = answered c d"
  "answered c (d\<lparr>ssl_enabled := new_ssl_enabled\<rparr>) = answered c d"
  "answered c (d\<lparr>ssl_active := new_ssl_active\<rparr>) = answered c d"
  "answered c (d\<lparr>ssl_session := new_ssl_session\<rparr>) = answered c d"
  "answered c (close_fd fd d) = answered c d"
  "answered c (send_data fd b d) = answered c d"
  "answered c (closeDataSocket d) = answered c d"
  "answered c (snd (acceptDataConnection e d)) = answered c d"
  "answered c (snd (createPassiveDataSocket e d)) = answered c d"
  by (simp_all add: answered_def)

lemmas answer_rules = started_helpers returns_rules

lemma look_answers:
  assumes "socket_open c"
  shows "returns (handlePWD e c) (answered c)" "returns (handleCWD e a c) (answered c)"
    "returns (handleCDUP e c) (answered c)" "returns (handleLIST e a c) (answered c)"
    "returns (handleMLSD e a c) (answered c)" "returns (handleMLST e a c) (answered c)"
    "returns (handleMDTM e a c) (answered c)" "returns (handleSTAT e a c) (answered c)"
    "returns (handleSIZE e a c) (answered c)"
  using assms by (simp_all add: handlePWD_def handleCWD_def handleCDUP_def handleLIST_def handleMLSD_def
      handleMLST_def handleMDTM_def handleSTAT_def handleSIZE_def finish_listing_def answer_rules
      del: sendResponses_simps)

lemma setting_answers:
  assumes "socket_open c"
  shows "returns (handlePASV e c) (answered c)" "returns (handleEPSV e a c) (answered c)"
    "returns (handlePORT e a c) (answered c)" "returns (handleEPRT e a c) (answered c)"
    "returns (handleMODE e a c) (answered c)" "returns (handleTYPE e a c) (answered c)"
    "returns (handleREST e a c) (answered c)" "returns (handleOPTS e a c) (answered c)"
    "returns (handleABOR e c) (answered c)" "returns (handleALLO e a c) (answered c)"
    "returns (handleHELP e a c) (answered c)" "returns (handleSITE e a c) (answered c)"
  using assms by (simp_all add: handlePASV_def handleEPSV_def handlePORT_def handleEPRT_def handleMODE_def
      handleTYPE_def handleREST_def handleOPTS_def handleABOR_def handleALLO_def handleHELP_def
      handleSITE_def site_chmod_def answer_rules del: sendResponses_simps)

lemma entry_answers:
  assumes "socket_open c"
  shows "returns (handleDELE e a c) (answered c)" "returns (handleMKD e a c) (answered c)"
    "returns (handleRMD e a c) (answered c)" "returns (handleRNFR e a c) (answered c)"
    "returns (handleRNTO e a c) (answered c)"
  using assms by (simp_all add: handleDELE_def handleMKD_def handleRMD_def handleRNFR_def handleRNTO_def
      answer_rules)

lemma mode_z_answers: "socket_open c \<Longrightarrow> started d c \<Longrightarrow> mode_z_refusal e c = Some c' \<Longrightarrow> answered d c'"
  by (auto simp: mode_z_refusal_def answer_rules split: if_splits)

lemma transfer_answers:
  assumes "started c d"
  shows "returns (retr_transfer e fd p d) (answered c)" "returns (store_transfer e fd p d) (answered c)"
  using assms by (simp_all add: retr_transfer_def store_transfer_def store_receive_def answer_rules)

lemma upload_answers:
  assumes "socket_open d" "started c d"
  shows "returns (handleRETR e a d) (answered c)" "returns (handleSTOR e a d) (answered c)"
    "returns (handleAPPE e a d) (answered c)"
  using assms by (simp_all add: handleRETR_def handleSTOR_def handleAPPE_def answer_rules transfer_answers
      mode_z_answers)

lemma handleSTOU_answers:
  assumes "socket_open c"
  shows "returns (handleSTOU e a c) (answered c)"
proof -
  have "answered c d" if "handleSTOR e n (c\<lparr>store_unique_name := n, resume_position := 0\<rparr>) = Some d" for n d
    using returnsD[OF upload_answers(2) that] assms by (simp add: answer_rules)
  then show ?thesis
    using assms by (simp add: handleSTOU_def answer_rules)
qed

lemma dispatch_user_answers: "socket_open c \<Longrightarrow> returns (dispatch_user e cmd a c) (answered c)"
  unfolding dispatch_user_def returns_if
  by (simp add: look_answers setting_answers entry_answers upload_answers handleSTOU_answers answer_rules)

lemma handleAUTH_answers:
  assumes "socket_open c"
  shows "returns (handleAUTH e a c) (answered c)"
  using assms by (cases "current_virtual_host c")
    (simp_all add: handleAUTH_def upgradeToSSL_def answer_rules Let_def if_distrib[of "answered c"]
      if_distrib[of "started c"])

lemma applyChroot_started: "started c d \<Longrightarrow> applyChroot e d = Some f \<Longrightarrow> started c f"
  by (auto simp: applyChroot_def Let_def split: option.splits bool.splits if_splits)

lemma handlePASS_answers:
  assumes "socket_open c"
  shows "returns (handlePASS e a c) (answered c)"
proof -
  have "started c (snd (check_password e a c))"
    using assms by (simp add: check_password_def Let_def answer_rules)
  then have k: "started c (snd (check_password e a c)\<lparr>authenticated := True, current_directory := p\<rparr>)" for p
    by simp
  have "started c f"
    if "applyChroot e (snd (check_password e a c)\<lparr>authenticated := True,
      current_directory := home_of (snd (check_password e a c))\<rparr>) = Some f" for f
    by (rule applyChroot_started[OF k that])
  then show ?thesis
    using assms k \<open>started c (snd (check_password e a c))\<close>
    by (simp add: handlePASS_def answer_rules)
qed

lemma login_answers:
  assumes "socket_open c"
  shows "returns (handleUSER e a c) (answered c)" "returns (handleQUIT e c) (answered c)"
    "returns (handleHOST e a c) (answered c)" "returns (handlePBSZ e a c) (answered c)"
    "returns (handlePROT e a c) (answered c)"
  using assms by (simp_all add: handleUSER_def handleQUIT_def handleHOST_def handlePBSZ_def handlePROT_def
      answer_rules)

lemma dispatch_answers: "socket_open c \<Longrightarrow> returns (dispatch e cmd a c) (answered c)"
  unfolding dispatch_def returns_if
  by (simp add: dispatch_user_answers login_answers handlePASS_answers handleAUTH_answers setting_answers
      answer_rules features_def del: sendResponses_simps)

subsection \<open>TLS\<close>

definition tls_on :: "conn \<Rightarrow> bool" where
  "tls_on c = (ssl_active c \<and> ssl_session c \<and> ssl_context c)"

definition secure :: "conn \<Rightarrow> conn \<Rightarrow> bool" where
  "secure c d = (tls_on d \<and> (\<exists>rs. replies d = replies c @ rs \<and> (\<forall>r\<in>set rs. fst r)))"

lemma secure_update [simp]:
  "secure c (d\<lparr>config := new_config\<rparr>) = secure c d"
  "secure c (d\<lparr>user_manager := new_user_manager\<rparr>) = secure c d"
  "secure c (d\<lparr>pam_auth := new_pam_auth\<rparr>) = secure c d"
  "secure c (d\<lparr>active := new_active\<rparr>) = secure c d"
  "secure c (d\<lparr>authenticated := new_authenticated\<rparr>) = secure c d"
  "secure c (d\<lparr>username := new_username\<rparr>) = secure c d"
  "secure c (d\<lparr>current_user := new_current_user\<rparr>) = secure c d"
  "secure c (d\<lparr>current_directory := new_current_directory\<rparr>) = secure c d"
  "secure c (d\<lparr>passive_listen_socket := new_passive_listen_socket\<rparr>) = secure c d"
  "secure c (d\<lparr>data_socket := new_data_socket\<rparr>) = secure c d"
  "secure c (d\<lparr>transfer_type := new_transfer_type\<rparr>) = secure c d"
  "secure c (d\<lparr>transfer_mode := new_transfer_mode\<rparr>) = secure c d"
  "secure c (d\<lparr>protection_level := new_protection_level\<rparr>) = secure c d"
  "secure c (d\<lparr>active_mode_ip := new_active_mode_ip\<rparr>) = secure c d"
  "secure c (d\<lparr>active_mode_port := new_active_mode_port\<rparr>) = secure c d"
  "secure c (d\<lparr>active_mode_enabled := new_active_mode_enabled\<rparr>) = secure c d"
  "secure c (d\<lparr>resume_position := new_resume_position\<rparr>) = secure c d"
  "secure c (d\<lparr>rename_from_path := new_rename_from_path\<rparr>) = secure c d"
  "secure c (d\<lparr>epsv_all := new_epsv_all\<rparr>) = secure c d"
  "secure c (d\<lparr>utf8_enabled := new_utf8_enabled\<rparr>) = secure c d"
  "secure c (d\<lparr>store_unique_name := new_store_unique_name\<rparr>) = secure c d"
  "secure c (d\<lparr>virtual_host_manager := new_virtual_host_manager\<rparr>) = secure c d"
  "secure c (d\<lparr>current_virtual_host := new_current_virtual_host\<rparr>) = secure c d"
  "secure c (d\<lparr>has_tracker := new_has_tracker\<rparr>) = secure c d"
  "secure c (d\<lparr>session_registered := new_session_registered\<rparr>) = secure c d"
  "secure c (d\<lparr>fs := new_fs\<rparr>) = secure c d"
  "secure c (d\<lparr>tracker := new_tr\<rparr>) = secure c d"
  "secure c (d\<lparr>send_calls := new_send_calls\<rparr>) = secure c d"
  "secure c (d\<lparr>data_out := new_data_out\<rparr>) = secure c d"
  "secure c (d\<lparr>closed := new_closed\<rparr>) = secure c d"
  "secure c (d\<lparr>dialled := new_dialled\<rparr>) = secure c d"
  "secure c (d\<lparr>slept := new_slept\<rparr>) = secure c d"
  "secure c (close_fd fd d) = secure c d"
  "secure c (send_data fd b d) = secure c d"
  "secure c (closeDataSocket d) = secure c d"
  "secure c (snd (acceptDataConnection e d)) = secure c d"
  "secure c (snd (createPassiveDataSocket e d)) = secure c d"
  by (simp_all add: secure_def tls_on_def)

lemma secure_send:
  assumes "secure c d"
  shows "secure c (sendResponse e r d)"
proof (cases "socket_open d \<and> reply_sent e (send_calls d)")
  case True
  then have "replies (sendResponse e r d) = replies d @ [(True, custom_reply d r @ crlf)]"
    using assms by (simp add: sendResponse_def Let_def secure_def tls_on_def)
  then show ?thesis
    using assms by (auto simp: secure_def tls_on_def)
next
  case False
  then have "replies (sendResponse e r d) = replies d"
    by (auto simp: sendResponse_def Let_def)
  then show ?thesis
    using assms by (simp add: secure_def tls_on_def)
qed

lemma secure_sends: "secure c d \<Longrightarrow> secure c (sendResponses e rs d)"
  by (induction rs arbitrary: d) (simp_all add: secure_send)

lemma secure_start: "tls_on c \<Longrightarrow> secure c c"
  by (simp add: secure_def)

lemma secure_trans: "secure a b \<Longrightarrow> secure b c \<Longrightarrow> secure a c"
  by (auto simp: secure_def)

lemmas secure_rules = secure_send secure_sends secure_start returns_rules

lemma look_secure:
  assumes "tls_on c"
  shows "returns (handlePWD e c) (secure c)" "returns (handleCWD e a c) (secure c)"
    "returns (handleCDUP e c) (secure c)" "returns (handleLIST e a c) (secure c)"
    "returns (handleMLSD e a c) (secure c)" "returns (handleMLST e a c) (secure c)"
    "returns (handleMDTM e a c) (secure c)" "returns (handleSTAT e a c) (secure c)"
    "returns (handleSIZE e a c) (secure c)"
  using assms by (simp_all add: handlePWD_def handleCWD_def handleCDUP_def handleLIST_def handleMLSD_def
      handleMLST_def handleMDTM_def handleSTAT_def handleSIZE_def finish_listing_def secure_rules
      del: sendResponses_simps)

lemma setting_secure:
  assumes "tls_on c"
  shows "returns (handlePASV e c) (secure c)" "returns (handleEPSV e a c) (secure c)"
    "returns (handlePORT e a c) (secure c)" "returns (handleEPRT e a c) (secure c)"
    "returns (handleMODE e a c) (secure c)" "returns (handleTYPE e a c) (secure c)"
    "returns (handleREST e a c) (secure c)" "returns (handleOPTS e a c) (secure c)"
    "returns (handleABOR e c) (secure c)" "returns (handleALLO e a c) (secure c)"
    "returns (handleHELP e a c) (secure c)" "returns (handleSITE e a c) (secure c)"
  using assms by (simp_all add: handlePASV_def handleEPSV_def handlePORT_def handleEPRT_def handleMODE_def
      handleTYPE_def handleREST_def handleOPTS_def handleABOR_def handleALLO_def handleHELP_def
      handleSITE_def site_chmod_def secure_rules del: sendResponses_simps)

lemma entry_secure:
  assumes "tls_on c"
  shows "returns (handleDELE e a c) (secure c)" "returns (handleMKD e a c) (secure c)"
    "returns (handleRMD e a c) (secure c)" "returns (handleRNFR e a c) (secure c)"
    "returns (handleRNTO e a c) (secure c)"
  using assms by (simp_all add: handleDELE_def handleMKD_def handleRMD_def handleRNFR_def handleRNTO_def
      secure_rules)

lemma mode_z_secure: "secure d c \<Longrightarrow> mode_z_refusal e c = Some c' \<Longrightarrow> secure d c'"
  by (auto simp: mode_z_refusal_def secure_rules split: if_splits)

lemma transfer_secure:
  assumes "secure c d"
  shows "returns (retr_transfer e fd p d) (secure c)" "returns (store_transfer e fd p d) (secure c)"
  using assms by (simp_all add: retr_transfer_def store_transfer_def store_receive_def secure_rules)

lemma upload_secure:
  assumes "secure c d"
  shows "returns (handleRETR e a d) (secure c)" "returns (handleSTOR e a d) (secure c)"
    "returns (handleAPPE e a d) (secure c)"
  using assms by (simp_all add: handleRETR_def handleSTOR_def handleAPPE_def secure_rules transfer_secure
      mode_z_secure)

lemma handleSTOU_secure:
  assumes "tls_on c"
  shows "returns (handleSTOU e a c) (secure c)"
proof -
  have "secure c d" if "handleSTOR e n (c\<lparr>store_unique_name := n, resume_position := 0\<rparr>) = Some d" for n d
    using returnsD[OF upload_secure(2) that] assms by (simp add: secure_rules)
  then show ?thesis
    using assms by (simp add: handleSTOU_def secure_rules)
qed

lemma dispatch_user_secure: "tls_on c \<Longrightarrow> returns (dispatch_user e cmd a c) (secure c)"
  unfolding dispatch_user_def returns_if
  by (simp add: look_secure setting_secure entry_secure upload_secure handleSTOU_secure secure_rules)

lemma applyChroot_secure: "secure c d \<Longrightarrow> applyChroot e d = Some f \<Longrightarrow> secure c f"
  by (auto simp: applyChroot_def Let_def split: option.splits bool.splits if_splits)

lemma handlePASS_secure:
  assumes "tls_on c"
  shows "returns (handlePASS e a c) (secure c)"
proof -
  have "secure c (snd (check_password e a c))"
    using assms by (simp add: check_password_def Let_def secure_rules)
  then have k: "secure c (snd (check_password e a c)\<lparr>authenticated := True, current_directory := p\<rparr>)" for p
    by simp
  have "secure c f"
    if "applyChroot e (snd (check_password e a c)\<lparr>authenticated := True,
      current_directory := home_of (snd (check_password e a c))\<rparr>) = Some f" for f
    by (rule applyChroot_secure[OF k that])
  then show ?thesis
    using assms k \<open>secure c (snd (check_password e a c))\<close>
    by (simp add: handlePASS_def secure_rules)
qed

lemma login_secure:
  assumes "tls_on c"
  shows "returns (handleUSER e a c) (secure c)" "returns (handleQUIT e c) (secure c)"
    "returns (handleHOST e a c) (secure c)" "returns (handlePBSZ e a c) (secure c)"
    "returns (handlePROT e a c) (secure c)" "returns (handleAUTH e a c) (secure c)"
  using assms by (simp_all add: handleUSER_def handleQUIT_def handleHOST_def handlePBSZ_def handlePROT_def
      handleAUTH_def secure_rules) (simp_all add: tls_on_def secure_def)

lemma dispatch_secure: "tls_on c \<Longrightarrow> returns (dispatch e cmd a c) (secure c)"
  unfolding dispatch_def returns_if
  by (simp add: dispatch_user_secure login_secure handlePASS_secure setting_secure secure_rules
      del: sendResponses_simps)

subsection \<open>Clients that have not logged in\<close>

definition inert :: "conn \<Rightarrow> conn \<Rightarrow> bool" where
  "inert c d = (fs d = fs c \<and> data_out d = data_out c \<and> dialled d = dialled c \<and> slept d = slept c)"

lemma inert_simps [simp]:
  "inert c c" "inert c (sendResponse e r d) = inert c d" "inert c (sendResponses e rs d) = inert c d"
  "inert c (closeDataSocket d) = inert c d"
  by (simp_all add: inert_def)

lemma inert_fields:
  "fs d = fs c \<Longrightarrow> data_out d = data_out c \<Longrightarrow> dialled d = dialled c \<Longrightarrow> slept d = slept c \<Longrightarrow> inert c d"
  by (simp add: inert_def)

lemma dispatch_anonymous:
  assumes "\<not> authenticated c" "cmd \<noteq> ''PASS''"
  shows "returns (dispatch e cmd a c) (inert c)"
proof -
  have "returns (handleAUTH e a c) (inert c)"
    by (cases "current_virtual_host c")
      (auto simp: handleAUTH_def upgradeToSSL_def returns_rules Let_def intro!: inert_fields)
  moreover have "returns (handleUSER e a c) (inert c)" "returns (handleQUIT e c) (inert c)"
      "returns (handleHOST e a c) (inert c)"
    by (simp_all add: handleUSER_def handleQUIT_def handleHOST_def returns_rules inert_def)
  moreover have "returns (handlePBSZ e a c) (inert c)" "returns (handlePROT e a c) (inert c)"
      "returns (handleOPTS e a c) (inert c)" "returns (handleHELP e a c) (inert c)"
      "returns (handleABOR e c) (inert c)"
    by (simp_all add: handlePBSZ_def handlePROT_def handleOPTS_def handleHELP_def handleABOR_def
        returns_rules inert_def del: sendResponses_simps)
  ultimately show ?thesis
    using assms unfolding dispatch_def returns_if by simp
qed

subsection \<open>What RETR reads\<close>

lemma leading_existing_not_Nil:
  "leading_existing f p es = (q, rest, err) \<Longrightarrow> p \<noteq> [] \<Longrightarrow> q \<noteq> []"
proof (induction f p es rule: leading_existing.induct)
  case (2 f p e es)
  have "path_append p e \<noteq> []"
    using 2(4) by (auto simp: path_append_def is_absolute_def)
  then show ?case
    using 2 by (auto split: ftype.splits)
qed auto

lemma foldl_append_abs: "is_absolute p \<Longrightarrow> is_absolute (foldl path_append p es)"
  by (induction es arbitrary: p) (simp_all add: path_append_abs)

lemma lexically_normal_is_abs: "is_absolute p \<Longrightarrow> is_absolute (lexically_normal p)"
  using lexically_normal_abs[of p] is_absolute_loc[of "normal_loc p"]
  by (auto simp: is_absolute_def split: list.splits)

lemma normalize_is_abs:
  assumes "wf_fs f" "is_absolute p"
  shows "is_absolute (normalizeForComparison f p)"
proof (cases "weakly_canonical f p")
  case (Some n)
  have "n \<noteq> [] \<Longrightarrow> is_absolute n"
  proof (cases "status f p = FNotFound")
    case True
    let ?es = "segments p @ (if segments p \<noteq> [] \<and> trailing_slash p then [[]] else [])"
    obtain q rest err where q: "leading_existing f root_dir ?es = (q, rest, err)"
      by (metis prod_cases3)
    then have "q \<noteq> []"
      using leading_existing_not_Nil[OF q] by (simp add: root_dir_def)
    then obtain r where "canonical f q = Some r" "n = lexically_normal (foldl path_append r rest)"
      using Some True q leading_from_root(1)[OF assms(1)] path_elems_abs[OF assms(2)]
      by (auto simp: weakly_canonical_def split: if_splits option.splits)
    then show ?thesis
      by (auto simp: canonical_def intro!: lexically_normal_is_abs foldl_append_abs split: walked.splits)
  next
    case False
    then have "canonical f p = Some n"
      using Some by (auto simp: weakly_canonical_def split: ftype.splits)
    then show ?thesis
      by (auto simp: canonical_def split: walked.splits)
  qed
  then show ?thesis
    using Some assms(2) lexically_normal_is_abs by (simp add: normalizeForComparison_def)
qed (use assms(2) lexically_normal_is_abs in \<open>simp add: normalizeForComparison_def\<close>)

lemma resolvePath_abs:
  assumes "wf_fs (fs c)" "is_absolute (current_directory c)" "is_absolute (home_of c)"
  shows "is_absolute (resolvePath c p)"
  using assms by (simp add: resolvePath_def normalize_is_abs path_append_abs)

lemma retr_transfer_source:
  assumes "retr_transfer e fd p c = Some c'"
  shows "data_out c' = data_out c \<or>
         (\<exists>s. file_content (fs c) p = Some s \<and>
            data_out c' = data_out c @ [(fd, x_out (fst (retr_copy e c s (resume_position c))))])"
  using assms by (auto simp: retr_transfer_def Let_def send_data_def close_fd_def
      split: if_splits option.splits prod.splits)

lemma handleRETR_source:
  assumes "handleRETR e a c = Some c'"
  shows "data_out c' = data_out c \<or>
         validatePath c (resolvePath c a) \<and> hasPermission c ''read'' a \<and>
         (\<exists>s fd d. file_content (fs c) (resolvePath c a) = Some s \<and> quiet c d \<and>
            transfer_mode d = transfer_mode c \<and> resume_position d = resume_position c \<and>
            data_out c' = data_out c @ [(fd, x_out (fst (retr_copy e d s (resume_position c))))])"
proof -
  define g where
    "g = acceptDataConnection e (sendResponse e (''150 Opening '' @ transfer_type c @ '' mode data connection'') c)"
  let ?R = "\<lambda>d. data_out d = data_out c \<or> hasPermission c ''read'' a \<and> validatePath c (resolvePath c a) \<and>
      retr_transfer e (fst g) (resolvePath c a) (snd g) = Some d"
  have "returns (retr_transfer e (fst g) (resolvePath c a) (snd g)) ?R"
    if "hasPermission c ''read'' a" "validatePath c (resolvePath c a)"
    using that by (auto intro: returnsI)
  moreover have "mode_z_refusal e c = Some d \<Longrightarrow> data_out d = data_out c" for d
    by (auto simp: mode_z_refusal_def split: if_splits)
  moreover have "data_out (snd g) = data_out c"
    by (simp add: g_def)
  ultimately have "returns (handleRETR e a c) ?R"
    unfolding handleRETR_def Let_def returns_if returns_option returns_bool returns_prod g_def[symmetric]
    by simp
  then have "?R c'"
    using assms by (rule returnsD)
  then show ?thesis
  proof (elim disjE conjE)
    assume *: "hasPermission c ''read'' a" "validatePath c (resolvePath c a)"
      "retr_transfer e (fst g) (resolvePath c a) (snd g) = Some c'"
    have "quiet c (snd g)" "data_out (snd g) = data_out c" "fs (snd g) = fs c"
      "transfer_mode (snd g) = transfer_mode c" "resume_position (snd g) = resume_position c"
      by (simp_all add: g_def)
    then show ?thesis
      using retr_transfer_source[OF *(3)] *(1,2) by auto
  qed simp
qed

lemma file_content_At:
  "file_content f p = Some s \<Longrightarrow> \<exists>l. resolve f p = At l \<and> kind_at (tree f) l = Some (Regular s)"
  by (auto simp: file_content_def split: walked.splits option.splits kind.splits)

lemma retr_below_home:
  assumes "handleRETR e a c = Some c'" "data_out c' \<noteq> data_out c"
    and "wf_fs (fs c)" "is_absolute (current_directory c)" "is_absolute (home_of c)"
    and "resolve (fs c) (home_of c) = At h"
  shows "\<exists>l s fd d. prefix h l \<and> kind_at (tree (fs c)) l = Some (Regular s) \<and> quiet c d \<and>
           transfer_mode d = transfer_mode c \<and>
           data_out c' = data_out c @ [(fd, x_out (fst (retr_copy e d s (resume_position c))))]"
proof -
  from handleRETR_source[OF assms(1)] assms(2) obtain s fd d where
    v: "validatePath c (resolvePath c a)" and s: "file_content (fs c) (resolvePath c a) = Some s"
    and d: "quiet c d" "transfer_mode d = transfer_mode c"
      "data_out c' = data_out c @ [(fd, x_out (fst (retr_copy e d s (resume_position c))))]"
    by blast
  obtain l where l: "resolve (fs c) (resolvePath c a) = At l" "kind_at (tree (fs c)) l = Some (Regular s)"
    using file_content_At[OF s] by blast
  obtain u where u: "current_user c = Some u"
    using validatePath_user[OF v] by blast
  have "isWithin (normalizeForComparison (fs c) (resolvePath c a)) (normalizeForComparison (fs c) (home_of c))"
    using validatePath_home[OF v] u by (simp add: isPathWithinHome_def home_of_def)
  then have "prefix h l"
    using within_existing[OF assms(3,5) resolvePath_abs[OF assms(3-5)] assms(6) l(1)] by simp
  then show ?thesis
    using l(2) d by blast
qed

end
