(* ===== verification/Files.thy ===== *)
theory Files
  imports Fs_Effects
begin

text \<open>
  Whole files: \<open>read_file\<close> is \<open>std::ifstream\<close> read to the end (a directory opens and reads as empty),
  \<open>read_written\<close> says that it reads what \<open>std::ofstream\<close> has written, also through symbolic links.
\<close>

definition read_file :: "filesys \<Rightarrow> string \<Rightarrow> string option" where
  "read_file f p = (case resolve f p of
     At c \<Rightarrow> (case kind_at (tree f) c of
                Some (Regular s) \<Rightarrow> Some s
              | Some Directory \<Rightarrow> Some []
              | _ \<Rightarrow> None)
   | _ \<Rightarrow> None)"

text \<open>What \<open>std::ofstream\<close> wrote, \<open>std::ifstream\<close> reads, also through symbolic links.\<close>

lemma walk_Missing_none: "walk t r n c xs = Missing d x rest \<Longrightarrow> kind_at t (d @ [x]) = None"
  by (induction t r n c xs rule: walk.induct) (auto split: if_splits option.splits kind.splits nat.splits)

definition with_file :: "tree \<Rightarrow> loc \<Rightarrow> string \<Rightarrow> tree \<Rightarrow> bool" where
  "with_file t d b t' = (\<forall>k. kind_at t' k = (if k = d then Some (Regular b) else kind_at t k))"

lemma walk_written:
  "walk t r n c xs = At d \<or> (\<exists>e y. d = e @ [y] \<and> walk t r n c xs = Missing e y []) \<Longrightarrow>
   with_file t d b t' \<Longrightarrow> kind_at t d \<noteq> Some Directory \<Longrightarrow> (\<And>s. kind_at t d \<noteq> Some (Symlink s)) \<Longrightarrow>
   walk t' r n c xs = At d"
proof (induction t r n c xs rule: walk.induct)
  case (2 t r n c x xs)
  have dir: "kind_at t c = Some Directory"
    using 2(6) by (auto split: if_splits)
  then have dir': "kind_at t' c = Some Directory"
    using 2(7,8) by (auto simp: with_file_def)
  note to = 2(7,8,9)
  show ?case
  proof (cases "x = [] \<or> x = ''.'' \<or> x = ''..''")
    case True
    then show ?thesis
      using 2(1,2) 2(6) to dir dir' by (auto split: if_splits)
  next
    case name: False
    show ?thesis
    proof (cases "kind_at t (c @ [x])")
      case None
      then have "d = c @ [x]" "xs = []"
        using 2(6) dir name by auto
      then show ?thesis
        using to(1) dir' name by (simp add: with_file_def)
    next
      case (Some k)
      show ?thesis
      proof (cases "\<exists>tg. k = Symlink tg")
        case True
        then obtain tg where k: "k = Symlink tg" ..
        then obtain m where n: "n = Suc m"
          using 2(6) dir name Some by (cases n) auto
        have "kind_at t' (c @ [x]) = Some (Symlink tg)"
          using to Some k by (auto simp: with_file_def)
        then show ?thesis
          using 2(5)[OF _ _ _ Some k n _ to] 2(6) dir dir' name Some k n by auto
      next
        case False
        then have step: "walk t r n c (x # xs) = walk t r n (c @ [x]) xs"
          using dir name Some by (auto split: kind.splits)
        have "\<exists>k'. kind_at t' (c @ [x]) = Some k' \<and> (\<forall>tg. k' \<noteq> Symlink tg)"
          using to(1) Some False by (auto simp: with_file_def)
        then have "walk t' r n c (x # xs) = walk t' r n (c @ [x]) xs"
          using dir' name by (auto split: kind.splits)
        moreover have "walk t' r n (c @ [x]) xs = At d"
          using 2(3,4) 2(6) step to dir name Some False by (cases k) auto
        ultimately show ?thesis
          by simp
      qed
    qed
  qed
qed auto

lemma put_with_file:
  assumes "tree f' = tree (put_node f d (Regular s) m)"
  shows "with_file (tree f) d b (tree (write_at f' d 0 b'))
           = (b = write_bytes (content_at f' d) 0 b')"
  using assms by (auto simp: with_file_def write_at_def kind_put put_node_def kind_at_def update_conv')

text \<open>\<open>std::ofstream\<close> with one write: what \<open>std::ifstream\<close> reads afterwards.\<close>

lemma read_written:
  assumes "open_write f p True = Some (d, g)"
  shows "read_file (write_at g d 0 b) p = Some b"
proof -
  let ?h = "write_at g d 0 b"
  have abs: "p \<noteq> []"
    using assms by (auto simp: open_write_def resolve_def)
  have put: "\<exists>m. g = put_node f d (Regular []) m"
    and w: "walk (tree f) (root f) symlink_limit (start_of f p) (split_on CHR ''/'' p) = At d \<or>
      (\<exists>e y. d = e @ [y] \<and> walk (tree f) (root f) symlink_limit (start_of f p) (split_on CHR ''/'' p) = Missing e y [])"
    and k: "kind_at (tree f) d \<noteq> Some Directory" "kind_at (tree f) d \<noteq> Some (Symlink s)" for s
    using assms abs walk_Missing_none
    by (auto simp: open_write_def resolve_def walk_from_def split: walked.splits option.splits kind.splits if_splits)
  obtain m where g: "g = put_node f d (Regular []) m"
    using put ..
  have e: "content_at g d = []"
    by (simp add: g content_at_def kind_put)
  have "write_bytes (content_at g d) 0 b = b"
    by (simp add: e write_bytes_def)
  moreover have "tree g = tree (put_node f d (Regular []) m)"
    by (simp add: g)
  ultimately have wf: "with_file (tree f) d b (tree ?h)"
    using put_with_file by metis
  then have "kind_at (tree ?h) d = Some (Regular b)"
    by (simp add: with_file_def)
  moreover have "root ?h = root f" "start_of ?h p = start_of f p"
    by (simp_all add: write_at_def put_node_def g start_of_def)
  ultimately show ?thesis
    using walk_written[OF w wf k] abs by (simp add: read_file_def resolve_def walk_from_def)
qed

end
