(* ===== verification/Upload_Facts.thy ===== *)
theory Upload_Facts
  imports Protocol_Facts Files
begin

text \<open>
  What the reply 226 promises. \<open>codes c d\<close> are the reply codes the connection sent on the way from
  \<open>c\<close> to \<open>d\<close>. After a 226 the file a \<open>STOR\<close> or \<open>APPE\<close> named holds what the client sent, and what
  a complete \<open>RETR\<close> sent is the file. A \<open>STOU\<close> leaves the files that exist alone.
\<close>

definition codes :: "conn \<Rightarrow> conn \<Rightarrow> string list" where
  "codes c d = map (\<lambda>x. take 3 (snd x)) (drop (length (replies c)) (replies d))"

definition avoids :: "string \<Rightarrow> conn \<Rightarrow> conn \<Rightarrow> bool" where
  "avoids k c d = (\<exists>xs. replies d = replies c @ xs \<and> (\<forall>x\<in>set xs. take 3 (snd x) \<noteq> k))"

lemma avoids_refl [simp]: "avoids k c c"
  by (simp add: avoids_def)

lemma avoids_codes: "avoids k c d \<Longrightarrow> k \<notin> set (codes c d)"
  by (auto simp: avoids_def codes_def)

lemma take_custom: "3 \<le> length r \<Longrightarrow> take 3 (custom_reply c r @ crlf) = take 3 r"
  by (auto simp: custom_reply_def Let_def split: option.split)

lemma avoids_send:
  "avoids k c d \<Longrightarrow> 3 \<le> length r \<Longrightarrow> take 3 r \<noteq> k \<Longrightarrow> avoids k c (sendResponse e r d)"
  using take_custom[of r d] by (auto simp: avoids_def sendResponse_def Let_def)

lemma avoids_update [simp]:
  "avoids k c (d\<lparr>fs := f\<rparr>) = avoids k c d" "avoids k c (d\<lparr>slept := n\<rparr>) = avoids k c d"
  "avoids k c (d\<lparr>resume_position := p\<rparr>) = avoids k c d" "avoids k c (close_fd fd d) = avoids k c d"
  "avoids k c (snd (acceptDataConnection e d)) = avoids k c d"
  by (simp_all add: avoids_def)

definition promised :: "(conn \<Rightarrow> bool) \<Rightarrow> conn \<Rightarrow> conn \<Rightarrow> bool" where
  "promised P c d = (''226'' \<in> set (codes c d) \<longrightarrow> P d)"

lemma promised_refused:
  "avoids ''226'' c d \<Longrightarrow> 3 \<le> length r \<Longrightarrow> take 3 r \<noteq> ''226'' \<Longrightarrow> promised P c (sendResponse e r d)"
  using avoids_codes avoids_send unfolding promised_def by blast

lemma promised_kept: "P d \<Longrightarrow> promised P c d"
  by (simp add: promised_def)

subsection \<open>Uploads\<close>

lemma open_write_empty: "open_write f p True = Some (d, g) \<Longrightarrow> content_at g d = []"
  by (auto simp: open_write_def content_at_def kind_put split: walked.splits option.splits kind.splits if_splits)

lemma stored_content:
  assumes "good f" "valid_loc l" "spells p l" "open_write f p True = Some (d, g)"
    and u: "u = \<lparr>up_fs = g, up_pos = 0, up_total = 0, up_slept = 0, up_step = 0\<rparr>"
  shows "file_content (up_fs (store_loop e r d rs u)) p = Some (payload rs)"
proof -
  have "prefix [] l"
    by simp
  from open_write_step[OF assms(1-3) this assms(4)]
  have g: "good g" "d = root f @ l" "root g = root f" and reg: "\<exists>s. kind_at (tree g) d = Some (Regular s)"
    by (auto dest: fs_stepD)
  let ?u = "store_loop e r d rs u"
  have "fs_step [] (up_fs u) (up_fs ?u)"
    using g(1) reg by (intro store_loop_step) (simp_all add: u)
  then have s: "good (up_fs ?u)" "root (up_fs ?u) = root f"
    using g(3) by (auto simp: u dest: fs_stepD)
  obtain b where "kind_at (tree (up_fs u)) d = Some (Regular b)"
    using reg by (auto simp: u)
  from store_loop_regular[OF this] obtain s where k: "kind_at (tree (up_fs ?u)) d = Some (Regular s)"
    by blast
  have "content_at (up_fs ?u) d = payload rs"
    using open_write_empty[OF assms(4)] by (simp add: store_loop_content u write_bytes_whole)
  then have "kind_at (tree (up_fs ?u)) (root (up_fs ?u) @ l) = Some (Regular (payload rs))"
    using k g(2) s(2) by (simp add: content_at_def)
  then show ?thesis
    using good_file_content(1)[OF s(1) assms(2)] open_write_plain[OF assms(1-4)] by simp
qed

lemma store_transfer_promised:
  assumes "confined h d" "valid_loc l" "spells p l" "prefix h l" "\<not> transferModeZ d"
    and "resume_position d \<le> 0" "avoids ''226'' c d"
  shows "returns (store_transfer e fd p d)
           (promised (\<lambda>d. file_content (fs d) p = Some (payload (received e))) c)"
proof -
  have fresh: "open_write f p True = Some (k, g) \<and> pos = 0"
    if "open_upload f p (resume_position d) = Some (Some (k, pos, g))" for f k pos g
    using that assms(6) by (auto simp: open_upload_def Let_def split: option.splits)
  have "returns (store_receive e fd k pos (d\<lparr>fs := g\<rparr>))
          (promised (\<lambda>d. file_content (fs d) p = Some (payload (received e))) c)"
    if "open_upload f p (resume_position d) = Some (Some (k, pos, g))" "fs_step (root (fs d) @ h) (fs d) f" for f k pos g
  proof -
    have z: "\<not> transferModeZ (d\<lparr>fs := g\<rparr>)"
      using assms(5) by (simp add: transferModeZ_def compressionEnabled_def)
    have "file_content (up_fs (store_loop e r k (received e)
            \<lparr>up_fs = g, up_pos = 0, up_total = 0, up_slept = 0, up_step = 0\<rparr>)) p = Some (payload (received e))" for r
      using stored_content[OF fs_stepD(2)[OF that(2)] assms(2,3) conjunct1[OF fresh[OF that(1)]] refl] .
    then show ?thesis
      using fresh[OF that(1)] by (simp add: store_receive_def Let_def z promised_kept)
  qed
  moreover have "promised P c (sendResponse e ''550 Failed to create file'' (close_fd fd (d\<lparr>fs := f\<rparr>)))" for P f
    using assms(7) by (intro promised_refused) simp_all
  ultimately show ?thesis
    unfolding store_transfer_def Let_def returns_option
    using made_dirs[OF assms(1-4)] by (fastforce simp: returns_rules)
qed

lemma STOR_promised:
  assumes "confined h c" "\<not> transferModeZ c" "resume_position c \<le> 0"
  shows "returns (handleSTOR e a c)
           (promised (\<lambda>d. file_content (fs d) (resolvePath c a) = Some (payload (received e))) c)"
proof -
  let ?P = "promised (\<lambda>d. file_content (fs d) (resolvePath c a) = Some (payload (received e))) c"
  have go: "returns (store_transfer e fd (resolvePath c a) (snd (acceptDataConnection f (sendResponse g r c)))) ?P"
    if v: "validatePath c (resolvePath c a)" and r: "3 \<le> length r" "take 3 r \<noteq> ''226''" for f fd g r
  proof -
    obtain l where l: "valid_loc l" "spells (resolvePath c a) l" "prefix h l"
      using resolved_below[OF assms(1) v] .
    show ?thesis
      using assms r avoids_send[of "''226''" c c r g] by (intro store_transfer_promised[OF _ l])
        (auto intro: confined_quiet simp: transferModeZ_def compressionEnabled_def)
  qed
  show ?thesis
    using assms(2) by (auto simp: handleSTOR_def mode_z_refusal_def returns_rules intro!: go promised_refused avoids_send)
qed

subsection \<open>Appending\<close>

definition content_of :: "filesys \<Rightarrow> string \<Rightarrow> string" where
  "content_of f p = (case file_content f p of Some s \<Rightarrow> s | None \<Rightarrow> [])"

lemma open_append_content:
  "open_write f p (\<not> exists_ec f p) = Some (d, g) \<Longrightarrow> content_at g d = content_of f p"
  by (auto simp: open_write_def content_at_def content_of_def file_content_def exists_ec_def status_def kind_put
      split: walked.splits option.splits kind.splits if_splits)

lemma append_loop_regular:
  "kind_at (tree f) d = Some (Regular s) \<Longrightarrow> \<exists>s. kind_at (tree (append_loop d rs f)) d = Some (Regular s)"
proof (induction d rs f arbitrary: s rule: append_loop.induct)
  case (1 d bytes rs f)
  have "\<exists>s. kind_at (tree (write_at f d (length (content_at f d)) bytes)) d = Some (Regular s)"
    by (simp add: write_at_def kind_put)
  then show ?case
    using 1 by auto
qed auto

lemma appended_content:
  assumes "good f" "valid_loc l" "spells p l" "open_write f p (\<not> exists_ec f p) = Some (d, g)"
  shows "file_content (append_loop d rs g) p = Some (content_of f p @ payload rs)"
proof -
  have "prefix [] l"
    by simp
  from open_write_step[OF assms(1-3) this assms(4)]
  have g: "good g" "d = root f @ l" "root g = root f" and reg: "\<exists>s. kind_at (tree g) d = Some (Regular s)"
    by (auto dest: fs_stepD)
  let ?h = "append_loop d rs g"
  have "fs_step [] g ?h"
    using g(1) reg by (intro append_loop_step) simp_all
  then have s: "good ?h" "root ?h = root f"
    using g(3) by (auto dest: fs_stepD)
  obtain b where "kind_at (tree g) d = Some (Regular b)"
    using reg by auto
  from append_loop_regular[OF this] obtain s where k: "kind_at (tree ?h) d = Some (Regular s)"
    by blast
  have "content_at ?h d = content_of f p @ payload rs"
    using open_append_content[OF assms(4)] by (simp add: append_loop_content)
  then have "kind_at (tree ?h) (root ?h @ l) = Some (Regular (content_of f p @ payload rs))"
    using k g(2) s(2) by (simp add: content_at_def)
  then show ?thesis
    using good_file_content(1)[OF s(1) assms(2)] open_write_plain[OF assms] by simp
qed

lemma APPE_promised:
  assumes "confined h c"
  shows "returns (handleAPPE e a c)
           (promised (\<lambda>d. file_content (fs d) (resolvePath c a) =
                           Some (content_of (fs c) (resolvePath c a) @ payload (received e))) c)"
proof -
  have go: "file_content (append_loop d (received e) g) (resolvePath c a) =
              Some (content_of (fs c) (resolvePath c a) @ payload (received e))"
    if v: "validatePath c (resolvePath c a)"
      and o: "fs_exists (fs c) (resolvePath c a) = Some ex" "open_write (fs c) (resolvePath c a) (\<not> ex) = Some (d, g)"
    for d g ex
  proof -
    obtain l where l: "valid_loc l" "spells (resolvePath c a) l" "prefix h l"
      using resolved_below[OF assms v] .
    have "ex = exists_ec (fs c) (resolvePath c a)"
      using o(1) by (auto simp: fs_exists_def split: if_splits)
    then show ?thesis
      using appended_content[OF confinedD(1)[OF assms] l(1,2)] o(2) by simp
  qed
  show ?thesis
    by (simp add: handleAPPE_def returns_rules promised_refused avoids_send) (simp add: promised_kept go)
qed

subsection \<open>Downloads\<close>

lemma RETR_complete:
  assumes "handleRETR e a c = Some c'" "data_out c' \<noteq> data_out c"
    and "file_content (fs c) (resolvePath c a) = Some s" "\<not> transferModeZ c"
    and "0 \<le> resume_position c" "resume_position c \<le> int (length s)"
    and "full_io e (copy_buffer c) (length s)"
  shows "\<exists>fd. data_out c' = data_out c @ [(fd, drop (nat (resume_position c)) s)]"
proof -
  obtain t fd d where d: "file_content (fs c) (resolvePath c a) = Some t" "quiet c d"
      "transfer_mode d = transfer_mode c" "resume_position d = resume_position c"
      "data_out c' = data_out c @ [(fd, x_out (fst (retr_copy e d t (resume_position c))))]"
    using handleRETR_source[OF assms(1)] assms(2) by blast
  have "\<not> transferModeZ d" "copy_buffer d = copy_buffer c"
    using assms(4) d(2,3) by (auto simp: transferModeZ_def compressionEnabled_def copy_buffer_def quiet_def)
  then show ?thesis
    using retr_copy_full[of d "resume_position c" s e] d(1,5) assms(3,5,6,7) by auto
qed

subsection \<open>What exists stays\<close>

definition keeps :: "filesys \<Rightarrow> filesys \<Rightarrow> bool" where
  "keeps f g = (\<forall>k. kind_at (tree f) k \<noteq> None \<longrightarrow> map_of (tree g) k = map_of (tree f) k)"

lemma keeps_refl [simp]: "keeps f f"
  by (simp add: keeps_def)

lemma keeps_trans: "keeps f g \<Longrightarrow> keeps g h \<Longrightarrow> keeps f h"
  by (simp add: keeps_def kind_at_def)

lemma keeps_regular: "keeps f g \<Longrightarrow> kind_at (tree f) k = Some x \<Longrightarrow> kind_at (tree g) k = Some x"
  by (auto simp: keeps_def kind_at_def)

lemma keeps_put: "kind_at (tree f) c = None \<Longrightarrow> keeps f (put_node f c k m)"
  by (auto simp: keeps_def put_node_def update_conv')

lemma lresolve_Missing: "lresolve f p = Missing d x rest \<Longrightarrow> kind_at (tree f) (d @ [x]) = None"
  by (auto simp: lresolve_def resolve_def walk_from_def Let_def dest: walk_Missing_none
      split: if_splits walked.splits option.splits)

lemma create_directory_keeps: "create_directory f p = Some (b, g) \<Longrightarrow> keeps f g"
  by (auto simp: create_directory_def split: walked.splits if_splits intro: keeps_put lresolve_Missing)

lemma make_dirs_keeps: "make_dirs f ps = Some g \<Longrightarrow> keeps f g"
  by (induction f ps rule: make_dirs.induct)
    (auto split: option.splits dest: create_directory_keeps intro: keeps_trans)

lemma create_directories_keeps: "create_directories f p = Some g \<Longrightarrow> keeps f g"
  by (auto simp: create_directories_def Let_def dest: make_dirs_keeps split: if_splits ftype.splits option.splits)

text \<open>Steps below a location where there is nothing leave everything else in place.\<close>

lemma step_keeps:
  assumes "good f" "fs_step l f g" "kind_at (tree f) l = None"
  shows "keeps f g"
proof -
  have "\<not> prefix l k" if "kind_at (tree f) k \<noteq> None" for k
    using that assms(3) file_no_children[OF goodD(3)[OF assms(1)], of l k]
    by (cases "k = l") (auto simp: kind_at_def strict_prefix_def)
  then show ?thesis
    using assms(2) by (simp add: keeps_def fs_step_def)
qed

text \<open>Directories are all that \<open>create_directories\<close> makes: where the file is to be there is no file.\<close>

lemma put_dir_kind:
  "kind_at (tree (put_node f c Directory m)) k = Some Directory \<or>
   kind_at (tree (put_node f c Directory m)) k = kind_at (tree f) k"
  by (simp add: kind_put)

lemma make_dirs_kind:
  "make_dirs f ps = Some g \<Longrightarrow>
   kind_at (tree g) k = Some Directory \<or> kind_at (tree g) k = kind_at (tree f) k"
proof (induction f ps rule: make_dirs.induct)
  case (2 f p ps)
  obtain b i where i: "create_directory f p = Some (b, i)" "make_dirs i ps = Some g"
    using 2(2) by (auto split: option.splits)
  have "i = f \<or> (\<exists>c. i = put_node f c Directory 511)"
    using i(1) by (auto simp: create_directory_def split: walked.splits if_splits)
  then have "kind_at (tree i) k = Some Directory \<or> kind_at (tree i) k = kind_at (tree f) k"
    using put_dir_kind by metis
  then show ?case
    using 2(1)[OF i(1) refl i(2)] by auto
qed simp

lemma create_directories_kind:
  "create_directories f p = Some g \<Longrightarrow>
   kind_at (tree g) k = Some Directory \<or> kind_at (tree g) k = kind_at (tree f) k"
  by (auto simp: create_directories_def Let_def dest: make_dirs_kind split: if_splits ftype.splits option.splits)

lemma open_write_file:
  assumes "good f" "valid_loc l" "spells p l" "open_write f p t = Some (d, g)"
  shows "kind_at (tree f) (root f @ l) \<noteq> Some Directory"
proof -
  have r: "resolve f p = At e \<Longrightarrow> e = root f @ l" for e
    using good_resolve_At[OF assms(1-3)] by blast
  have m: "resolve f p = Missing e x [] \<Longrightarrow> kind_at (tree f) (root f @ l) = None" for e x
    using Missing_last[OF assms(1-3)] good_resolve_Missing(2)[OF assms(1-3)] by fastforce
  show ?thesis
    using assms(4) r m by (auto simp: open_write_def split: walked.splits option.splits kind.splits if_splits)
qed

lemma store_receive_step:
  assumes "good (fs c)" "\<exists>s. kind_at (tree (fs c)) d = Some (Regular s)"
  shows "returns (store_receive e fd d pos c) (\<lambda>c'. fs_step d (fs c) (fs c'))"
proof -
  let ?u = "\<lparr>up_fs = fs c, up_pos = pos, up_total = 0, up_slept = 0, up_step = 0\<rparr>"
  have "fs_step d (fs c) (up_fs (store_loop e m d rs ?u))"
    "fs_step d (fs c) (up_fs (snd (inflate_loop e m d i rs ?u)))" for m rs i
    using store_loop_step[of ?u d d] inflate_loop_step[of ?u d d] assms by simp_all
  then show ?thesis
    using fs_step_refl[OF assms(1)] by (simp add: store_receive_def returns_rules)
qed

lemma store_transfer_keeps:
  assumes "confined h d" "valid_loc l" "spells p l" "prefix h l"
    and free: "kind_at (tree (fs d)) (root (fs d) @ l) = None"
  shows "returns (store_transfer e fd p d) (\<lambda>d'. keeps (fs d) (fs d'))"
proof -
  have opened: "returns (store_receive e fd k pos (d\<lparr>fs := g\<rparr>)) (\<lambda>d'. keeps f (fs d'))"
    if f: "fs_step (root (fs d) @ h) (fs d) f" "kind_at (tree f) (root f @ l) \<in> {None, Some Directory}"
      and o: "open_upload f p r = Some (Some (k, pos, g))" for f k pos g r
  proof -
    obtain t where w: "open_write f p t = Some (k, g)"
      using o by (auto simp: open_upload_def Let_def split: option.splits bool.splits if_splits)
    note s = open_write_step[OF fs_stepD(2)[OF f(1)] assms(2,3) prefix_order.refl w]
    have none: "kind_at (tree f) (root f @ l) = None"
      using f(2) open_write_file[OF fs_stepD(2)[OF f(1)] assms(2,3) w] by auto
    have "returns (store_receive e fd k pos (d\<lparr>fs := g\<rparr>)) (\<lambda>d'. fs_step k g (fs d'))"
      using store_receive_step[of "d\<lparr>fs := g\<rparr>" k] s by (auto dest: fs_stepD(2))
    then show ?thesis
    proof (rule returns_mono)
      fix d' :: conn
      assume "fs_step k g (fs d')"
      then have "fs_step (root f @ l) f (fs d')"
        using s fs_step_trans by blast
      then show "keeps f (fs d')"
        using step_keeps[OF fs_stepD(2)[OF f(1)] _ none] by blast
    qed
  qed
  have made: "keeps (fs d) f \<and> fs_step (root (fs d) @ h) (fs d) f \<and>
      kind_at (tree f) (root f @ l) \<in> {None, Some Directory}"
    if "(if parent_path p \<noteq> [] then create_directories (fs d) (parent_path p) else Some (fs d)) = Some f" for f
  proof -
    note s = made_dirs[OF assms(1-4) that]
    have "keeps (fs d) f \<and> (kind_at (tree f) k = Some Directory \<or> kind_at (tree f) k = kind_at (tree (fs d)) k)" for k
      using that create_directories_keeps create_directories_kind by (auto split: if_splits)
    from this[of "root (fs d) @ l"] show ?thesis
      using s free fs_stepD(1)[OF s] by auto
  qed
  have "returns (case opened of None \<Rightarrow> reply e r (close_fd fd (d\<lparr>fs := f\<rparr>))
            | Some (k, pos, g) \<Rightarrow> store_receive e fd k pos (d\<lparr>fs := g\<rparr>)) (\<lambda>d'. keeps (fs d) (fs d'))"
    if o: "open_upload f p (resume_position d) = Some opened"
      and m: "(if parent_path p \<noteq> [] then create_directories (fs d) (parent_path p) else Some (fs d)) = Some f"
    for f opened r
  proof (cases opened)
    case None
    then show ?thesis
      using made[OF m] by simp
  next
    case (Some w)
    obtain k pos g where w: "w = (k, pos, g)"
      by (cases w)
    have "returns (store_receive e fd k pos (d\<lparr>fs := g\<rparr>)) (\<lambda>d'. keeps f (fs d'))"
      using made[OF m] o Some w by (intro opened) auto
    then show ?thesis
      using keeps_trans[OF conjunct1[OF made[OF m]]] Some w by (auto elim: returns_mono)
  qed
  then show ?thesis
    by (simp add: store_transfer_def Let_def returns_option)
qed

lemma STOR_keeps:
  assumes "confined h c" "valid_loc l" "spells (resolvePath c a) l"
    and "kind_at (tree (fs c)) (root (fs c) @ l) = None"
  shows "returns (handleSTOR e a c) (\<lambda>d. keeps (fs c) (fs d))"
proof -
  have go: "returns (store_transfer e fd (resolvePath c a) d) (\<lambda>d. keeps (fs c) (fs d))"
    if "validatePath c (resolvePath c a)" "quiet c d" for fd d
  proof -
    have "prefix h l"
      by (rule validated[OF assms(1-3) that(1)])
    moreover have "fs d = fs c"
      using that(2) by (simp add: quiet_def)
    ultimately show ?thesis
      using store_transfer_keeps[OF confined_quiet[OF assms(1) that(2)] assms(2,3)] assms(4) by simp
  qed
  have "mode_z_refusal e c = Some d \<Longrightarrow> fs d = fs c" for d
    by (auto simp: mode_z_refusal_def split: if_splits)
  then show ?thesis
    by (simp add: handleSTOR_def returns_rules go)
qed

lemma unique_name_free:
  "unique_name f dir base i n \<noteq> [] \<Longrightarrow>
   (\<exists>j. unique_name f dir base i n = base @ ''.'' @ to_string (int j)) \<and>
   \<not> exists_ec f (dir @ ''/'' @ unique_name f dir base i n)"
  by (induction f dir base i n rule: unique_name.induct) (auto simp: Let_def)

subsection \<open>STOU\<close>

lemma walk_blanks:
  "kind_at t c = Some Directory \<Longrightarrow> set ys \<subseteq> {[]} \<Longrightarrow> walk t r n c (ys @ xs) = walk t r n c xs"
  by (induction ys) auto

lemma spells_split: "valid_loc l \<Longrightarrow> spells p l \<Longrightarrow>
   \<exists>ys. split_on CHR ''/'' (p @ ''/'' @ x) = [] # l @ ys @ split_on CHR ''/'' x \<and> set ys \<subseteq> {[]}"
  using split_on_loc[of l] by (auto simp: spells_def split_on_app root_dir_def)

lemma child_free:
  assumes "good f" "valid_loc l" "spells p l" "valid_name x" "\<not> exists_ec f (p @ ''/'' @ x)"
  shows "kind_at (tree f) (root f @ l @ [x]) = None"
proof (rule ccontr)
  let ?k = "root f @ l @ [x]"
  assume some: "kind_at (tree f) ?k \<noteq> None"
  then have dir: "kind_at (tree f) (root f @ l) = Some Directory"
    using wf_prefix[OF goodD(3)[OF assms(1)], of ?k _ "root f @ l"] by (auto simp: strict_prefix_def)
  obtain ys where ys: "split_on CHR ''/'' (p @ ''/'' @ x) = [] # l @ ys @ [x]" "set ys \<subseteq> {[]}"
    using spells_split[OF assms(2,3), of x] assms(4) by (auto simp: valid_name_def split_on_free)
  note to = walk_to[OF goodD(2)[OF assms(1)] goodD(3)[OF assms(1)]]
  have "walk (tree f) (root f) symlink_limit (root f) l = At (root f @ l)"
    using dir by (intro to) simp
  moreover have "walk (tree f) (root f) symlink_limit (root f @ l) [x] = At ?k"
    using to[of "root f @ l" "[x]" "root f" symlink_limit] some by (simp del: walk.simps)
  ultimately have "walk (tree f) (root f) symlink_limit (root f) (l @ ys @ [x]) = At ?k"
    by (simp only: walk_append[OF goodD(2)[OF assms(1)], where xs = l and ys = "ys @ [x]"]
        walk_blanks[OF dir ys(2)] walked.case)
  then have "walk_from f (root f) ([] # l @ ys @ [x]) = At ?k"
    using goodD(1)[OF assms(1)] by (simp add: walk_from_def wf_fs_def)
  moreover have "is_absolute (p @ ''/'' @ x)"
    using assms(3) by (auto simp: spells_def string_of_loc_def root_dir_def is_absolute_def)
  ultimately have "resolve f (p @ ''/'' @ x) = At ?k"
    by (simp only: resolve_abs ys(1))
  then show False
    using assms(5) some by (auto simp: exists_ec_def status_def split: option.splits kind.splits)
qed

lemma child_path:
  assumes "is_absolute p" "valid_name x"
  shows "normal_loc (path_append p x) = normal_loc p @ [x]"
proof -
  have "p \<noteq> []"
    using assms(1) by (auto simp: is_absolute_def)
  then show ?thesis
    using segments_append[of p x] assms(2)
    by (simp add: normal_loc_def norm_stack_def valid_name_def)
qed

lemma numbered_name: "CHR ''/'' \<notin> set b \<Longrightarrow> valid_name (b @ ''.'' @ to_string (int j))"
proof -
  obtain c cs where c: "dec_of_nat j = c # cs"
    by (cases "dec_of_nat j") auto
  have "CHR ''.'' \<notin> set (dec_of_nat j)" "CHR ''/'' \<notin> set (dec_of_nat j)"
    by (simp_all add: dec_digits_only digit_val_def)
  then show "CHR ''/'' \<notin> set b \<Longrightarrow> ?thesis"
    by (auto simp: valid_name_def to_string_def c append_eq_Cons_conv)
qed

lemma filename_free: "CHR ''/'' \<notin> set (filename p)"
  using split_on_parts_free[of "filename p" "CHR ''/''" p] by (simp add: filename_def)

lemma STOU_keeps:
  assumes "confined h c"
  shows "returns (handleSTOU e a c) (\<lambda>d. keeps (fs c) (fs d))"
proof -
  let ?b = "if a = [] then ''ftpd'' else filename a"
  define u where "u = unique_name (fs c) (current_directory c) ?b 0 10000"
  define c' where "c' = c\<lparr>store_unique_name := u, resume_position := 0\<rparr>"
  have stored: "returns (handleSTOR e u c') (\<lambda>d. keeps (fs c) (fs d))" if ne: "u \<noteq> []"
  proof -
    obtain j where u: "u = ?b @ ''.'' @ to_string (int j)" "\<not> exists_ec (fs c) (current_directory c @ ''/'' @ u)"
      using unique_name_free[of "fs c" "current_directory c" ?b 0 10000] ne unfolding u_def by blast
    have x: "valid_name u"
      unfolding u(1) using filename_free[of a] by (intro numbered_name) auto
    obtain l where l: "valid_loc l" "spells (current_directory c) l"
      using assms by (auto simp: confined_def)
    have "\<not> is_absolute u"
      using x by (cases u) (auto simp: valid_name_def is_absolute_def)
    then have "resolvePath c' u = normalizeForComparison (fs c) (path_append (current_directory c) u)"
      using ne by (simp add: resolvePath_def c'_def)
    moreover have "normal_loc (path_append (current_directory c) u) = l @ [u]"
      using child_path[OF spells_abs[OF l(2)] x] spells_normal_loc[OF l] by simp
    ultimately have "spells (resolvePath c' u) (l @ [u])"
      using good_normalize[OF confinedD(1)[OF assms] path_append_abs[OF spells_abs[OF l(2)]], of u] by simp
    moreover have "valid_loc (l @ [u])"
      using l(1) x by (simp add: valid_loc_def)
    moreover have "kind_at (tree (fs c)) (root (fs c) @ l @ [u]) = None"
      using child_free[OF confinedD(1)[OF assms] l x u(2)] .
    moreover have "confined h c'"
      using assms by (simp add: c'_def confined_def)
    ultimately show ?thesis
      using STOR_keeps[of h c' "l @ [u]" u e] by (simp add: c'_def)
  qed
  then show ?thesis
    unfolding handleSTOU_def Let_def u_def[symmetric] c'_def[symmetric]
    by (cases "handleSTOR e u c'") (auto simp: returns_rules)
qed

end
