(* ===== verification/Session_Laws.thy ===== *)
theory Session_Laws
  imports Protocol_Facts
begin

text \<open>
  The contract between the command handlers and everything that runs commands. A handler collection
  keeps a property of the connection when every allowed command does and losing the peer does;
  then so does every session and every run of the command loop. The handlers' frames are the
  instances.
\<close>

lemma session_weaken: "session P a b \<Longrightarrow> (\<And>cmd. P cmd \<Longrightarrow> Q cmd) \<Longrightarrow> session Q a b"
  by (induction rule: session.induct) (auto intro: session.intros)

locale command_invariant =
  fixes inv :: "conn \<Rightarrow> bool" and allowed :: "string \<Rightarrow> bool"
  assumes keeps: "inv c \<Longrightarrow> allowed cmd \<Longrightarrow> returns (dispatch e cmd a c) inv"
    and survives_loss: "inv c \<Longrightarrow> inv (c\<lparr>active := False\<rparr>)"
begin

lemma session_step_keeps: "session_step c cmd d \<Longrightarrow> allowed cmd \<Longrightarrow> inv c \<Longrightarrow> inv d"
  by (erule session_stepE) (use returnsD[OF keeps] survives_loss in blast)+

lemma session_keeps:
  assumes "session allowed c d" "inv c"
  shows "inv d"
  using assms by (rule session_invariant[where I = inv]) (rule session_step_keeps)

lemma loop_keeps:
  assumes "allowed = (\<lambda>_. True)" "command_loop es n input c = Some d" "inv c"
  shows "inv d"
  using session_keeps[of c d] command_loop_session[OF assms(2)] assms(1,3) by simp

end

interpretation tls: command_invariant "secure c" "\<lambda>_. True" for c
proof
  fix d cmd e a
  assume k: "secure c d"
  then have "tls_on d"
    by (simp add: secure_def)
  from dispatch_secure[OF this] show "returns (dispatch e cmd a d) (secure c)"
    by (rule returns_mono) (rule secure_trans[OF k])
qed (simp add: secure_def tls_on_def)

interpretation login: command_invariant "login_kept c" "\<lambda>cmd. cmd \<noteq> ''PASS''" for c
proof
  fix d cmd e a
  assume k: "login_kept c d" and "cmd \<noteq> ''PASS''"
  from dispatch_login_kept[OF this(2)] show "returns (dispatch e cmd a d) (login_kept c)"
    by (rule returns_mono) (use k in \<open>simp add: login_kept_def\<close>)
qed (simp add: login_kept_def)

interpretation home: command_invariant "conf_step h c" "\<lambda>cmd. cmd \<noteq> ''PASS''" for h c
proof
  fix d cmd e a
  assume k: "conf_step h c d" and p: "cmd \<noteq> ''PASS''"
  then have "confined h d"
    by (simp add: conf_step_def)
  from dispatch_conf[OF this p] show "returns (dispatch e cmd a d) (conf_step h c)"
    by (rule returns_mono) (rule conf_step_trans[OF k])
qed (auto simp: conf_step_def confined_def)

end
