(* ===== verification/File_Store.thy ===== *)
theory File_Store
  imports Upload_Facts Session_Laws
begin

text \<open>
  What the commands promise about files, without the tree: a store is a map from locations to
  contents, an \<open>edit\<close> is what one command may ask of it, and \<open>requested\<close> reads the edit off the
  text of the command. The handlers refine this (\<open>carried_out\<close>): a command makes exactly the edit it
  asks for, or none, and then it does not answer with one of the codes of success for edits.
\<close>

subsection \<open>The store\<close>

type_synonym store = "loc \<Rightarrow> string option"

definition files :: "filesys \<Rightarrow> store" where
  "files f k = (case kind_at (tree f) k of Some (Regular s) \<Rightarrow> Some s | _ \<Rightarrow> None)"

definition held :: "store \<Rightarrow> loc \<Rightarrow> string" where
  "held m k = (case m k of None \<Rightarrow> [] | Some s \<Rightarrow> s)"

datatype edit =
  Untouched
| Replace loc string          \<comment> \<open>the new content\<close>
| Patch loc nat string        \<comment> \<open>overwrite from an offset on\<close>
| Extend loc string           \<comment> \<open>append\<close>
| Discard loc
| Relocate loc loc            \<comment> \<open>everything below one location to another\<close>

fun edited :: "edit \<Rightarrow> store \<Rightarrow> store" where
  "edited Untouched m = m"
| "edited (Replace k b) m = m(k \<mapsto> b)"
| "edited (Patch k n b) m = m(k \<mapsto> write_bytes (held m k) n b)"
| "edited (Extend k b) m = m(k \<mapsto> held m k @ b)"
| "edited (Discard k) m = m(k := None)"
| "edited (Relocate a d) m =
     (\<lambda>k. if prefix d k then m (a @ drop (length d) k) else if prefix a k then None else m k)"

fun edit_places :: "edit \<Rightarrow> loc set" where
  "edit_places Untouched = {}"
| "edit_places (Replace k b) = {k}"
| "edit_places (Patch k n b) = {k}"
| "edit_places (Extend k b) = {k}"
| "edit_places (Discard k) = {k}"
| "edit_places (Relocate a d) = {a, d}"

text \<open>What a command asks for; \<open>b\<close> are the bytes of the upload.\<close>

definition place :: "conn \<Rightarrow> string \<Rightarrow> loc" where
  "place c p = root (fs c) @ normal_loc p"

definition upload_name :: "conn \<Rightarrow> string \<Rightarrow> string" where
  "upload_name c a =
     unique_name (fs c) (current_directory c) (if a = [] then ''ftpd'' else filename a) 0 10000"

definition stored_edit :: "conn \<Rightarrow> loc \<Rightarrow> string \<Rightarrow> edit" where
  "stored_edit c k b =
     (if 0 < resume_position c \<and> files (fs c) k \<noteq> None then Patch k (nat (resume_position c)) b
      else Replace k b)"

definition requested :: "conn \<Rightarrow> string \<Rightarrow> string \<Rightarrow> string \<Rightarrow> edit" where
  "requested c command a b =
     (let k = place c (resolvePath c a)
      in if command = ''STOR'' then stored_edit c k b
         else if command = ''STOU'' then Replace (place c (resolvePath c (upload_name c a))) b
         else if command = ''APPE'' then Extend k b
         else if command = ''DELE'' then Discard k
         else if command = ''RNTO'' then Relocate (place c (rename_from_path c)) k
         else Untouched)"

subsection \<open>Updates of the tree seen as edits\<close>

lemma files_Some: "files f k = Some s \<longleftrightarrow> kind_at (tree f) k = Some (Regular s)"
  by (auto simp: files_def split: option.splits kind.splits)

lemma files_kind: "kind_at (tree g) k = kind_at (tree f) k \<Longrightarrow> files g k = files f k"
  by (simp add: files_def)

lemma held_content: "held (files f) k = content_at f k"
  by (auto simp: held_def files_def content_at_def split: option.split kind.split)

text \<open>Steps inside one location that end with a file there change that file only.\<close>

lemma files_step:
  assumes "good f" "fs_step k f g" "kind_at (tree f) k \<noteq> Some Directory"
    and "kind_at (tree g) k = Some (Regular s)"
  shows "files g = (files f)(k \<mapsto> s)"
proof
  fix l
  show "files g l = ((files f)(k \<mapsto> s)) l"
  proof (cases "strict_prefix k l")
    case True
    then have "map_of (tree f) l = None" "map_of (tree g) l = None"
      using assms(3,4) file_no_children[OF goodD(3)[OF assms(1)], of k]
        file_no_children[OF goodD(3)[OF fs_stepD(2)[OF assms(2)]], of k] by auto
    then show ?thesis
      using True by (simp add: files_def kind_at_def)
  next
    case False
    then show ?thesis
      using assms(4) fs_stepD(3)[OF assms(2), of l]
      by (auto simp: files_def kind_at_def strict_prefix_def)
  qed
qed

lemma files_made:
  assumes "create_directories f p = Some g"
  shows "files g = files f"
proof
  fix k
  have "keeps f g"
    by (rule create_directories_keeps[OF assms])
  then show "files g k = files f k"
    using create_directories_kind[OF assms, of k] keeps_regular[of f g k]
    by (cases "kind_at (tree f) k") (auto simp: files_def split: kind.splits)
qed

lemma files_create: "create_directory f p = Some (b, g) \<Longrightarrow> files g = files f"
  by (auto simp: create_directory_def files_def kind_put fun_eq_iff dest!: lresolve_Missing
      split: walked.splits if_splits)

lemma files_permissions: "fs_permissions f p m = Some g \<Longrightarrow> files g = files f"
  by (auto simp: fs_permissions_def files_def kind_put fun_eq_iff split: walked.splits if_splits option.splits)

lemma files_removed:
  assumes "good f" "valid_loc l" "spells p l" "fs_remove f p = Some (b, g)"
  shows "files g = (if b then (files f)(root f @ l := None) else files f)"
  using assms(4) good_lresolve_At(1)[OF assms(1-3)]
  by (auto simp: fs_remove_def files_def kind_del fun_eq_iff split: walked.splits if_splits)

text \<open>Removing a directory removes no file: it is empty.\<close>

lemma files_rmdir:
  assumes "good f" "valid_loc l" "spells p l" "fs_remove f p = Some (b, g)" "status f p = FDir"
  shows "files g = files f"
proof -
  have "kind_at (tree f) (root f @ l) = Some Directory"
    using assms(5) good_resolve_At(1)[OF assms(1-3)]
    by (auto simp: status_def split: walked.splits option.splits kind.splits)
  then show ?thesis
    using files_removed[OF assms(1-4)] by (auto simp: files_def fun_eq_iff)
qed

text \<open>What a rename leaves: the subtree of the source under the target.\<close>

lemma moved_map:
  assumes "good f" "move_ok f a d" "a \<noteq> d"
  shows "map_of (move_tree (tree f) a d) k =
     (if prefix d k then map_of (tree f) (a @ drop (length d) k)
      else if prefix a k then None else map_of (tree f) k)"
proof (rule map_of_move)
  show "map_of (tree f) k = None" if "strict_prefix d k" for k
    using that assms children_Nil[OF goodD(3)[OF assms(1)], of d k] file_no_children[OF goodD(3)[OF assms(1)], of d k]
    by (auto simp: move_ok_def split: option.splits kind.splits)
  show "\<not> prefix a d"
    using assms(2,3) by (auto simp: move_ok_def strict_prefix_def)
qed

lemma renamed_tree:
  assumes "good f" "valid_loc l" "spells p l" "valid_loc m" "spells q m" "fs_rename f p q = Some g"
  shows "move_ok f (root f @ l) (root f @ m)"
    "g = (if l = m then f else f\<lparr>tree := move_tree (tree f) (root f @ l) (root f @ m)\<rparr>)"
  using assms(6) good_lresolve_At[OF assms(1-3)] good_lresolve_At[OF assms(1,4,5)]
    good_lresolve_Missing(1,3)[OF assms(1,4,5)]
  by (fastforce simp: fs_rename_def split: walked.splits if_splits)+

lemma files_renamed:
  assumes "good f" "valid_loc l" "spells p l" "valid_loc m" "spells q m" "fs_rename f p q = Some g"
  shows "files g = edited (Relocate (root f @ l) (root f @ m)) (files f)"
proof (cases "l = m")
  case True
  then show ?thesis
    using renamed_tree(2)[OF assms] by (auto simp: fun_eq_iff elim!: prefixE)
next
  case False
  then show ?thesis
    using renamed_tree(2)[OF assms] moved_map[OF assms(1) renamed_tree(1)[OF assms]]
    by (auto simp: files_def kind_at_def)
qed

subsection \<open>Commands that refine their edit\<close>

definition inside :: "loc \<Rightarrow> edit \<Rightarrow> bool" where
  "inside h x = (\<forall>k\<in>edit_places x. prefix h k)"

lemma inside_simps [simp]:
  "inside h Untouched" "inside h (Replace k b) = prefix h k" "inside h (Patch k n b) = prefix h k"
  "inside h (Extend k b) = prefix h k" "inside h (Discard k) = prefix h k"
  "inside h (Relocate k l) = (prefix h k \<and> prefix h l)"
  by (simp_all add: inside_def)

definition carried_out :: "loc \<Rightarrow> edit \<Rightarrow> conn \<Rightarrow> conn \<Rightarrow> bool" where
  "carried_out h x c d =
     (inside (root (fs c) @ h) x \<and> files (fs d) = edited x (files (fs c)) \<or>
      files (fs d) = files (fs c) \<and> avoids ''226'' c d \<and> avoids ''250'' c d)"

text \<open>A connection on which nothing was stored and no success was announced so far.\<close>

definition pending :: "conn \<Rightarrow> conn \<Rightarrow> bool" where
  "pending c d = (files (fs d) = files (fs c) \<and> avoids ''226'' c d \<and> avoids ''250'' c d)"

lemma pending_refl [simp]: "pending c c"
  by (simp add: pending_def)

lemma pending_send:
  "pending c d \<Longrightarrow> 3 \<le> length r \<Longrightarrow> take 3 r \<noteq> ''226'' \<Longrightarrow> take 3 r \<noteq> ''250'' \<Longrightarrow>
   pending c (sendResponse e r d)"
  by (simp add: pending_def avoids_send)

lemma pending_helpers [simp]:
  "pending c (close_fd fd d) = pending c d" "pending c (snd (acceptDataConnection e d)) = pending c d"
  "pending c (d\<lparr>resume_position := p\<rparr>) = pending c d"
  "pending c (d\<lparr>rename_from_path := q\<rparr>) = pending c d"
  "pending c (d\<lparr>store_unique_name := n\<rparr>) = pending c d"
  by (auto simp: pending_def avoids_def)

lemma pending_fs: "files f = files (fs d) \<Longrightarrow> pending c (d\<lparr>fs := f\<rparr>) = pending c d"
  by (simp add: pending_def)

lemma carried_refused: "pending c d \<Longrightarrow> carried_out h x c d"
  by (simp add: pending_def carried_out_def)

lemma carried_done: "inside (root (fs c) @ h) x \<Longrightarrow> files (fs d) = edited x (files (fs c)) \<Longrightarrow> carried_out h x c d"
  by (auto simp: carried_out_def)

lemma carried_quiet: "quiet c d \<Longrightarrow> carried_out h Untouched c d"
  by (simp add: carried_out_def quiet_def)

lemma carried_same: "files (fs d) = files (fs c) \<Longrightarrow> carried_out h Untouched c d"
  by (simp add: carried_out_def)


text \<open>The location a validated path names.\<close>

lemma placed:
  assumes "confined h c" "validatePath c (resolvePath c a)"
  obtains l where "valid_loc l" "spells (resolvePath c a) l" "prefix h l"
    "place c (resolvePath c a) = root (fs c) @ l"
  using resolved_below[OF assms] spells_normal_loc by (metis place_def)

lemma placed_inside:
  assumes "confined h c" "validatePath c (resolvePath c a)"
  shows "prefix (root (fs c) @ h) (place c (resolvePath c a))"
  using placed[OF assms] by (metis same_prefix_prefix)

lemma DELE_carried:
  assumes "confined h c"
  shows "returns (handleDELE e a c) (carried_out h (Discard (place c (resolvePath c a))) c)"
proof -
  have removed: "files f = (if b then (files (fs c))(place c (resolvePath c a) := None) else files (fs c))"
    if v: "validatePath c (resolvePath c a)" and r: "fs_remove (fs c) (resolvePath c a) = Some (b, f)" for b f
    using placed[OF assms v] files_removed[OF confinedD(1)[OF assms] _ _ r] by metis
  then have "carried_out h (Discard (place c (resolvePath c a))) c (sendResponse e r (c\<lparr>fs := f\<rparr>))"
    if "validatePath c (resolvePath c a)" "fs_remove (fs c) (resolvePath c a) = Some (True, f)" for r f
    using that placed_inside[OF assms] by (simp add: carried_out_def)
  moreover have "pending c (c\<lparr>fs := f\<rparr>)"
    if "validatePath c (resolvePath c a)" "fs_remove (fs c) (resolvePath c a) = Some (False, f)" for f
    using removed[OF that] by (simp add: pending_fs)
  ultimately show ?thesis
    by (simp add: handleDELE_def returns_rules carried_refused pending_send)
qed

lemma RMD_carried:
  assumes "confined h c"
  shows "returns (handleRMD e a c) (carried_out h Untouched c)"
proof -
  have "files f = files (fs c)"
    if v: "validatePath c (resolvePath c a)" and r: "fs_remove (fs c) (resolvePath c a) = Some (b, f)"
      "fs_is_directory (fs c) (resolvePath c a) = Some True" for b f
    using resolved_below[OF assms v] files_rmdir[OF confinedD(1)[OF assms] _ _ r(1)] r(2)
    by (metis fs_is_directory_def is_directory_ec_def option.inject option.simps(3))
  then show ?thesis
    by (simp add: handleRMD_def returns_rules carried_same)
qed

lemma MKD_carried: "returns (handleMKD e a c) (carried_out h Untouched c)"
  by (simp add: handleMKD_def returns_rules carried_same files_create)

lemma SITE_carried: "returns (handleSITE e a c) (carried_out h Untouched c)"
  by (simp add: handleSITE_def site_chmod_def returns_rules carried_same files_permissions)

lemma RNFR_carried: "returns (handleRNFR e a c) (carried_out h Untouched c)"
  by (simp add: handleRNFR_def returns_rules carried_same)

lemma CWD_carried: "returns (handleCWD e a c) (carried_out h Untouched c)"
  by (simp add: handleCWD_def returns_rules carried_same)

lemma CDUP_carried: "returns (handleCDUP e c) (carried_out h Untouched c)"
  by (simp add: handleCDUP_def returns_rules carried_same)

lemma USER_carried: "returns (handleUSER e a c) (carried_out h Untouched c)"
  by (simp add: handleUSER_def returns_rules carried_same)

lemma HOST_carried: "returns (handleHOST e a c) (carried_out h Untouched c)"
  by (simp add: handleHOST_def returns_rules carried_same)

lemma RNTO_carried:
  assumes "confined h c"
  shows "returns (handleRNTO e a c)
           (carried_out h (Relocate (place c (rename_from_path c)) (place c (resolvePath c a))) c)"
    (is "returns _ (carried_out h ?E c)")
proof -
  have "files f = edited (Relocate (place c (rename_from_path c)) (place c (resolvePath c a))) (files (fs c)) \<and>
      prefix (root (fs c) @ h) (place c (rename_from_path c))"
    if v: "validatePath c (resolvePath c a)" and r: "rename_from_path c \<noteq> []"
      and f: "fs_rename (fs c) (rename_from_path c) (resolvePath c a) = Some f" for f
  proof -
    obtain l where l: "valid_loc l" "spells (rename_from_path c) l" "prefix h l"
      using assms r by (auto simp: confined_def)
    obtain m where m: "valid_loc m" "spells (resolvePath c a) m" "place c (resolvePath c a) = root (fs c) @ m"
      using placed[OF assms v] by metis
    show ?thesis
      using files_renamed[OF confinedD(1)[OF assms] l(1,2) m(1,2) f] m(3) spells_normal_loc[OF l(1,2)] l(3)
      by (simp add: place_def)
  qed
  then have "carried_out h ?E c ((sendResponse e r (c\<lparr>fs := f\<rparr>))\<lparr>rename_from_path := []\<rparr>)"
    if "validatePath c (resolvePath c a)" "rename_from_path c \<noteq> []"
      "fs_rename (fs c) (rename_from_path c) (resolvePath c a) = Some f" for f r
    using that placed_inside[OF assms] by (simp add: carried_out_def)
  then show ?thesis
    by (simp add: handleRNTO_def Let_def returns_rules carried_refused pending_send)
qed

subsection \<open>Uploads\<close>

definition holds_file :: "filesys \<Rightarrow> loc \<Rightarrow> bool" where
  "holds_file f k = (\<exists>s. kind_at (tree f) k = Some (Regular s))"

lemma holds_content: "holds_file f k \<Longrightarrow> kind_at (tree f) k = Some (Regular (content_at f k))"
  by (auto simp: holds_file_def content_at_def)

lemma holds_write [simp]: "holds_file (up_fs (write_chunk k bs u)) k"
  by (simp add: holds_file_def write_chunk_def write_at_def kind_put)

lemma holds_throttle [simp]: "up_fs (upload_throttle e r n u) = up_fs u"
  by (simp add: upload_throttle_def)

lemma store_loop_holds: "holds_file (up_fs u) k \<Longrightarrow> holds_file (up_fs (store_loop e r k rs u)) k"
  using store_loop_regular by (fastforce simp: holds_file_def)

lemma inflate_step_holds: "inflate_step e i k bs u = Some v \<Longrightarrow> holds_file (up_fs u) k \<Longrightarrow> holds_file (up_fs v) k"
  by (auto simp: inflate_step_def split: option.splits if_splits)

lemma inflate_loop_holds:
  "holds_file (up_fs u) k \<Longrightarrow> holds_file (up_fs (snd (inflate_loop e r k i rs u))) k"
  by (induction e r k i rs u rule: inflate_loop.induct)
    (auto split: option.split dest: inflate_step_holds)

lemma append_loop_holds: "holds_file f k \<Longrightarrow> holds_file (append_loop k rs f) k"
  using append_loop_regular by (fastforce simp: holds_file_def)

text \<open>Opening a file for writing and working on it there is an edit of that file.\<close>

lemma open_write_content:
  "open_write f p t = Some (k, g) \<Longrightarrow>
   content_at g k = (if t \<and> exists_ec f p then [] else held (files f) k)"
  by (auto simp: open_write_def held_content content_at_def exists_ec_def status_def kind_put resolve_def walk_from_def
      dest: walk_Missing_none split: walked.splits option.splits kind.splits if_splits)

lemma open_write_edit:
  assumes "good f" "valid_loc l" "spells p l" "open_write f p t = Some (k, g)"
    and "good g \<Longrightarrow> holds_file g k \<Longrightarrow> fs_step k g g' \<and> holds_file g' k"
  shows "k = root f @ l" "files g' = (files f)(k \<mapsto> content_at g' k)"
proof -
  note o = open_write_step[OF assms(1-3) prefix_order.refl assms(4)]
  then show k: "k = root f @ l"
    by blast
  have g: "good g" "holds_file g k"
    using o fs_stepD(2) by (auto simp: holds_file_def)
  have "fs_step k f g'"
    using o assms(5)[OF g] k fs_step_trans by blast
  then show "files g' = (files f)(k \<mapsto> content_at g' k)"
    using open_write_file[OF assms(1-4)] holds_content[of g' k] assms(5)[OF g] k
    by (intro files_step[OF assms(1)]) auto
qed

text \<open>What an upload brings: what the client sent, and in MODE Z what zlib makes of it, up to the first
  piece it refuses.\<close>

fun inflated :: "env \<Rightarrow> nat \<Rightarrow> string option list \<Rightarrow> string" where
  "inflated e i [] = (case zlib e i [] True of None \<Rightarrow> [] | Some plain \<Rightarrow> plain)"
| "inflated e i (None # rs) = []"
| "inflated e i (Some bytes # rs) = (case zlib e i bytes (bytes = []) of
     None \<Rightarrow> []
   | Some plain \<Rightarrow> if bytes = [] then plain else plain @ inflated e (i + 1) rs)"

definition uploaded :: "env \<Rightarrow> conn \<Rightarrow> string" where
  "uploaded e c =
     (if \<not> transferModeZ c then payload (received e)
      else if zlib_valid e then inflated e 0 (received e) else [])"

lemma write_bytes_Nil [simp]: "write_bytes s p [] = s"
  by (simp add: write_bytes_def)

lemma inflate_loop_content:
  "content_at (up_fs (snd (inflate_loop e r k i rs u))) k =
     write_bytes (content_at (up_fs u) k) (up_pos u) (inflated e i rs)"
proof (induction e r k i rs u rule: inflate_loop.induct)
  case (1 e r k i u)
  then show ?case
    by (auto simp: inflate_step_def write_chunk_def split: option.split)
next
  case (3 e r k i bytes rs u)
  have app: "write_bytes (write_bytes s p x) (p + length x) y = write_bytes s p (x @ y)" for s p x y
    by (cases "x = []") (simp_all add: write_bytes_append)
  show ?case
  proof (cases "zlib e i bytes (bytes = [])")
    case None
    then show ?thesis
      by (simp add: inflate_step_def)
  next
    case (Some plain)
    define v where "v = (if plain = [] then u else write_chunk k plain u)"
    have v: "inflate_step e i k bytes u = Some v"
        "content_at (up_fs v) k = write_bytes (content_at (up_fs u) k) (up_pos u) plain"
        "up_pos v = up_pos u + length plain"
      using Some by (simp_all add: v_def inflate_step_def write_chunk_def)
    show ?thesis
    proof (cases "bytes = []")
      case True
      then show ?thesis
        using Some v(1,2) by simp
    next
      case False
      then show ?thesis
        using 3[OF v(1) False] Some v by (simp add: upload_throttle_def app)
    qed
  qed
qed simp

lemma uploaded_quiet: "transfer_mode d = transfer_mode c \<Longrightarrow> uploaded e d = uploaded e c"
  by (simp add: uploaded_def transferModeZ_def)

lemma APPE_carried:
  assumes "confined h c"
  shows "returns (handleAPPE e a c) (carried_out h (Extend (place c (resolvePath c a)) (uploaded e c)) c)"
proof -
  have "files (append_loop k (received e) g) =
      edited (Extend (place c (resolvePath c a)) (payload (received e))) (files (fs c))"
    if v: "validatePath c (resolvePath c a)" and x: "fs_exists (fs c) (resolvePath c a) = Some ex"
      and o: "open_write (fs c) (resolvePath c a) (\<not> ex) = Some (k, g)" for k g ex
  proof -
    obtain l where l: "valid_loc l" "spells (resolvePath c a) l" "place c (resolvePath c a) = root (fs c) @ l"
      using placed[OF assms v] by metis
    have loop: "fs_step k g (append_loop k (received e) g) \<and> holds_file (append_loop k (received e) g) k"
      if "good g" "holds_file g k"
      using that append_loop_step[of g k k] append_loop_holds by (auto simp: holds_file_def)
    note u = open_write_edit[OF confinedD(1)[OF assms] l(1,2) o loop]
    have "ex = exists_ec (fs c) (resolvePath c a)"
      using x by (auto simp: fs_exists_def split: if_splits)
    then show ?thesis
      using u l(3) open_write_content[OF o] by (simp add: append_loop_content)
  qed
  then have "carried_out h (Extend (place c (resolvePath c a)) (uploaded e c)) c
        (sendResponse e r (d\<lparr>fs := append_loop k (received e) g, resume_position := 0\<rparr>))"
    if "validatePath c (resolvePath c a)" "fs_exists (fs c) (resolvePath c a) = Some ex"
      "open_write (fs c) (resolvePath c a) (\<not> ex) = Some (k, g)" "\<not> transferModeZ c" for r d k g ex
    using that placed_inside[OF assms] by (simp add: carried_out_def uploaded_def)
  then show ?thesis
    by (simp add: handleAPPE_def returns_rules carried_refused pending_send)
qed

text \<open>The receiving half leaves in the file what the client sent, from the write position on.\<close>

lemma store_receive_content:
  assumes "good (fs d)" "holds_file (fs d) k"
  shows "returns (store_receive e fd k pos d) (\<lambda>d'. fs_step k (fs d) (fs d') \<and> holds_file (fs d') k \<and>
           content_at (fs d') k = write_bytes (content_at (fs d) k) pos (uploaded e d))"
proof -
  let ?u = "\<lparr>up_fs = fs d, up_pos = pos, up_total = 0, up_slept = 0, up_step = 0\<rparr>"
  have "holds_file (up_fs (store_loop e m k rs ?u)) k" "holds_file (up_fs (snd (inflate_loop e m k i rs ?u))) k" for m rs i
    using assms(2) by (simp_all add: store_loop_holds inflate_loop_holds)
  then show ?thesis
    using store_receive_step[of d k] assms fs_step_refl[OF assms(1)]
    by (auto simp: store_receive_def returns_rules holds_file_def store_loop_content inflate_loop_content
        uploaded_def Let_def)
qed

lemma open_upload_cases:
  assumes "open_upload f p r = Some (Some (k, pos, g))"
  obtains (fresh) "open_write f p True = Some (k, g)" "pos = 0" "\<not> (0 < r \<and> files f k \<noteq> None)"
  | (resumed) "open_write f p False = Some (k, g)" "pos = nat r" "0 < r \<and> files f k \<noteq> None"
  using assms
  by (fastforce simp: open_upload_def open_write_def fs_exists_def exists_ec_def status_def files_def resolve_def
      walk_from_def Let_def dest: walk_Missing_none split: option.splits walked.splits kind.splits if_splits)

lemma store_transfer_carried:
  assumes "confined h d" "valid_loc l" "spells p l" "prefix h l" "pending c d" "fs d = fs c"
  shows "returns (store_transfer e fd p d)
           (carried_out h (stored_edit d (root (fs d) @ l) (uploaded e d)) c)" (is "returns _ (carried_out h ?E c)")
proof -
  have opened: "returns (store_receive e fd k pos (d\<lparr>fs := g\<rparr>)) (carried_out h ?E c)"
    if f: "fs_step (root (fs d) @ h) (fs d) f" "files f = files (fs d)"
      and o: "open_upload f p (resume_position d) = Some (Some (k, pos, g))" for f k pos g
  proof -
    obtain t where w: "open_write f p t = Some (k, g)"
      using open_upload_cases[OF o] by metis
    note gf = fs_stepD(2)[OF f(1)]
    note s = open_write_step[OF gf assms(2,3) prefix_order.refl w]
    have "good g" "holds_file g k"
      using s fs_stepD(2) by (auto simp: holds_file_def)
    then have "returns (store_receive e fd k pos (d\<lparr>fs := g\<rparr>)) (\<lambda>d'. fs_step k g (fs d') \<and> holds_file (fs d') k \<and>
        content_at (fs d') k = write_bytes (content_at g k) pos (uploaded e d))"
      using store_receive_content[of "d\<lparr>fs := g\<rparr>" k e fd pos] uploaded_quiet[of "d\<lparr>fs := g\<rparr>" d e] by simp
    then show ?thesis
    proof (rule returns_mono)
      fix d' :: conn
      assume d': "fs_step k g (fs d') \<and> holds_file (fs d') k \<and>
        content_at (fs d') k = write_bytes (content_at g k) pos (uploaded e d)"
      have u: "k = root (fs d) @ l" "files (fs d') = (files (fs d))(k \<mapsto> content_at (fs d') k)"
        using open_write_edit[OF gf assms(2,3) w, of "fs d'"] d' f(2) fs_stepD(1)[OF f(1)] by auto
      from o show "carried_out h ?E c d'"
      proof (cases rule: open_upload_cases)
        case fresh
        then have "content_at (fs d') k = uploaded e d"
          using d' open_write_empty by (simp add: write_bytes_whole)
        then show ?thesis
          using u fresh(3) f(2) by (intro carried_done) (auto simp: stored_edit_def assms(4,6))
      next
        case resumed
        then have "content_at (fs d') k = write_bytes (held (files (fs d)) k) (nat (resume_position d)) (uploaded e d)"
          using d' open_write_content[OF resumed(1)] f(2) by simp
        then show ?thesis
          using u resumed(3) f(2) by (intro carried_done) (auto simp: stored_edit_def assms(4,6))
      qed
    qed
  qed
  have made: "files f = files (fs d)"
    if "(if parent_path p \<noteq> [] then create_directories (fs d) (parent_path p) else Some (fs d)) = Some f" for f
    using that files_made by (auto split: if_splits)
  show ?thesis
    unfolding store_transfer_def Let_def returns_option
    using made_dirs[OF assms(1-4)] opened made assms(5)
    by (fastforce simp: returns_rules carried_refused pending_send pending_fs)
qed

lemma STOR_carried:
  assumes "confined h c"
  shows "returns (handleSTOR e a c)
           (carried_out h (stored_edit c (place c (resolvePath c a)) (uploaded e c)) c)" (is "returns _ ?P")
proof -
  have go: "returns (store_transfer e fd (resolvePath c a) (snd (acceptDataConnection f (sendResponse g r c)))) ?P"
    if v: "validatePath c (resolvePath c a)" and r: "take 3 r = ''150''" for f fd g r
  proof -
    let ?d = "snd (acceptDataConnection f (sendResponse g r c))"
    obtain l where l: "valid_loc l" "spells (resolvePath c a) l" "prefix h l" "place c (resolvePath c a) = root (fs c) @ l"
      using placed[OF assms v] .
    have "3 \<le> length r"
      using arg_cong[OF r, of length] by simp
    then have "pending c ?d"
      using r by (simp add: pending_send)
    moreover have "confined h ?d"
      by (rule confined_quiet[OF assms]) simp
    moreover have "stored_edit ?d k = stored_edit c k" "uploaded e ?d = uploaded e c" for k
      by (simp_all add: fun_eq_iff stored_edit_def uploaded_def transferModeZ_def)
    ultimately show ?thesis
      using store_transfer_carried[of h ?d l "resolvePath c a" c e fd] l by simp
  qed
  show ?thesis
    by (auto simp: handleSTOR_def mode_z_refusal_def returns_rules intro!: go carried_refused pending_send
        split: if_splits)
qed

lemma STOU_carried:
  assumes "confined h c"
  shows "returns (handleSTOU e a c)
           (carried_out h (Replace (place c (resolvePath c (upload_name c a))) (uploaded e c)) c)" (is "returns _ ?P")
proof -
  have "returns (case handleSTOR e n (c\<lparr>store_unique_name := n, resume_position := 0\<rparr>) of
          None \<Rightarrow> None | Some c \<Rightarrow> Some (c\<lparr>store_unique_name := []\<rparr>)) ?P"
    if n: "n = upload_name c a" for n
  proof -
    let ?d = "c\<lparr>store_unique_name := n, resume_position := 0\<rparr>"
    have "confined h ?d"
      by (rule confined_quiet[OF assms]) simp
    moreover have "stored_edit ?d k (uploaded e ?d) = Replace k (uploaded e c)" for k
      by (simp add: stored_edit_def uploaded_def transferModeZ_def)
    moreover have "place ?d (resolvePath ?d n) = place c (resolvePath c n)"
      by (simp add: place_def resolvePath_def home_of_def)
    moreover have "carried_out h x c (d\<lparr>store_unique_name := []\<rparr>) = carried_out h x ?d d" for x d
      by (simp add: carried_out_def avoids_def)
    ultimately show ?thesis
      using STOR_carried[of h ?d e n] n by (simp add: returns_def split: option.splits)
  qed
  then show ?thesis
    by (auto simp: handleSTOU_def upload_name_def Let_def intro!: carried_refused pending_send)
qed

subsection \<open>Every command\<close>

lemma quiet_carried: "returns m (quiet c) \<Longrightarrow> returns m (carried_out h Untouched c)"
  by (auto elim: returns_mono intro: carried_quiet)

lemmas edits_carried = STOR_carried STOU_carried APPE_carried DELE_carried RNTO_carried RMD_carried

lemmas files_carried = MKD_carried SITE_carried RNFR_carried CWD_carried CDUP_carried USER_carried HOST_carried

lemma dispatch_user_carried:
  assumes "confined h c"
  shows "returns (dispatch_user e cmd a c) (carried_out h (requested c cmd a (uploaded e c)) c)"
  unfolding dispatch_user_def returns_if
  by (simp add: requested_def Let_def edits_carried[OF assms] files_carried frames quiet_carried carried_quiet)

lemma dispatch_carried:
  "confined h c \<Longrightarrow> cmd \<noteq> ''PASS'' \<Longrightarrow>
   returns (dispatch e cmd a c) (carried_out h (requested c cmd a (uploaded e c)) c)"
  unfolding dispatch_def returns_if
  by (simp add: dispatch_user_carried carried_refused pending_send)
    (simp add: requested_def files_carried frames quiet_carried carried_quiet)

lemma carried_codes:
  "carried_out h x c d \<Longrightarrow>
     inside (root (fs c) @ h) x \<and> files (fs d) = edited x (files (fs c)) \<or>
     files (fs d) = files (fs c) \<and> ''226'' \<notin> set (codes c d) \<and> ''250'' \<notin> set (codes c d)"
  by (auto simp: carried_out_def avoids_codes)

subsection \<open>Sessions\<close>

text \<open>The state of the store after a session: a list of edits inside the home.\<close>

definition edits_inside :: "loc \<Rightarrow> conn \<Rightarrow> conn \<Rightarrow> bool" where
  "edits_inside h c d =
     (\<exists>xs. (\<forall>x\<in>set xs. inside (root (fs c) @ h) x) \<and> files (fs d) = fold edited xs (files (fs c)))"

lemma edits_refl: "files (fs d) = files (fs c) \<Longrightarrow> edits_inside h c d"
  unfolding edits_inside_def by (intro exI[of _ "[]"]) simp

lemma edits_trans:
  assumes "edits_inside h a b" "edits_inside h b c" "root (fs b) = root (fs a)"
  shows "edits_inside h a c"
proof -
  obtain xs ys where xs: "\<forall>x\<in>set xs. inside (root (fs a) @ h) x" "files (fs b) = fold edited xs (files (fs a))"
    and ys: "\<forall>x\<in>set ys. inside (root (fs a) @ h) x" "files (fs c) = fold edited ys (files (fs b))"
    using assms by (auto simp: edits_inside_def)
  show ?thesis
    unfolding edits_inside_def using xs ys by (intro exI[of _ "xs @ ys"]) auto
qed

lemma carried_edits: "carried_out h x c d \<Longrightarrow> edits_inside h c d"
  by (auto simp: carried_out_def intro: edits_refl) (auto simp: edits_inside_def intro!: exI[of _ "[x]" for x])

lemma dispatch_edits:
  assumes "confined h c" "cmd \<noteq> ''PASS''"
  shows "returns (dispatch e cmd a c) (edits_inside h c)"
  by (rule returns_mono[OF dispatch_carried[OF assms]]) (rule carried_edits)

interpretation edits: command_invariant "\<lambda>d. conf_step h c d \<and> edits_inside h c d" "\<lambda>cmd. cmd \<noteq> ''PASS''" for h c
proof
  fix d cmd e a
  assume k: "conf_step h c d \<and> edits_inside h c d" and p: "cmd \<noteq> ''PASS''"
  then have d: "confined h d" "root (fs d) = root (fs c)"
    by (auto simp: conf_step_def dest: fs_stepD(1))
  show "returns (dispatch e cmd a d) (\<lambda>d. conf_step h c d \<and> edits_inside h c d)"
  proof (rule returnsI)
    fix d'
    assume r: "dispatch e cmd a d = Some d'"
    show "conf_step h c d' \<and> edits_inside h c d'"
      using returnsD[OF dispatch_conf[OF d(1) p] r] returnsD[OF dispatch_edits[OF d(1) p] r] k d(2)
        conf_step_trans edits_trans by blast
  qed
qed (auto simp: conf_step_def confined_def edits_inside_def)

lemma session_edits:
  assumes "session (\<lambda>cmd. cmd \<noteq> ''PASS'') c d" "confined h c"
  shows "edits_inside h c d"
  using edits.session_keeps[OF assms(1)] conf_step_refl[OF assms(2)] edits_refl by blast

end
