(* ===== verification/Permissions.thy ===== *)
theory Permissions
  imports File_Store
begin

text \<open>
  Who may do what: no command of a logged-in client changes the tree of files without the write
  permission for a path it names and has validated, and none sends anything on the data connection
  without the permission to read or to list. \<open>allowed_change\<close> and \<open>allowed_data\<close> say so of one command;
  the handlers that touch neither are in the collection \<open>data_frames\<close>.
\<close>

named_theorems data_frames \<open>handlers that send nothing on the data connection\<close>

text \<open>The path a command acts on, and the permission the data connection needs.\<close>

definition subject :: "conn \<Rightarrow> string \<Rightarrow> string \<Rightarrow> string" where
  "subject c command a =
     (if command = ''STOU'' then upload_name c a
      else if command = ''SITE'' then trim_left (snd (read_word (snd (read_word a))))
      else a)"

definition may_write :: "conn \<Rightarrow> string \<Rightarrow> bool" where
  "may_write c p = (hasPermission c ''write'' p \<and> validatePath c (resolvePath c p))"

definition may_send :: "conn \<Rightarrow> string \<Rightarrow> string \<Rightarrow> bool" where
  "may_send c command a =
     (command = ''RETR'' \<and> hasPermission c ''read'' a \<and> validatePath c (resolvePath c a) \<or>
      (command = ''LIST'' \<or> command = ''NLST'') \<and> hasPermission c ''list'' [] \<or>
      command = ''MLSD'' \<and> hasPermission c ''list'' a)"

definition allowed_change :: "conn \<Rightarrow> string \<Rightarrow> conn \<Rightarrow> bool" where
  "allowed_change c p d = (fs d = fs c \<or> may_write c p)"

definition data_kept :: "conn \<Rightarrow> conn \<Rightarrow> bool" where
  "data_kept c d = (data_out d = data_out c)"

lemma allowed_quiet: "quiet c d \<Longrightarrow> allowed_change c p d"
  by (simp add: allowed_change_def quiet_def)

lemma allowed_may: "may_write c p \<Longrightarrow> allowed_change c p d"
  by (simp add: allowed_change_def)

lemma returns_may: "may_write c p \<Longrightarrow> returns m (allowed_change c p)"
  by (simp add: allowed_change_def returns_def split: option.split)

subsection \<open>Changes\<close>

lemma DELE_allowed: "returns (handleDELE e a c) (allowed_change c a)"
  by (cases "may_write c a") (auto simp: handleDELE_def may_write_def returns_may allowed_quiet)

lemma MKD_allowed: "returns (handleMKD e a c) (allowed_change c a)"
  by (cases "may_write c a") (auto simp: handleMKD_def may_write_def returns_may allowed_quiet)

lemma RMD_allowed: "returns (handleRMD e a c) (allowed_change c a)"
  by (cases "may_write c a") (auto simp: handleRMD_def may_write_def returns_may allowed_quiet)

lemma APPE_allowed: "returns (handleAPPE e a c) (allowed_change c a)"
  by (cases "may_write c a") (auto simp: handleAPPE_def may_write_def returns_may allowed_quiet)

lemma STOR_allowed: "returns (handleSTOR e a c) (allowed_change c a)"
  by (cases "may_write c a") (auto simp: handleSTOR_def may_write_def returns_may allowed_quiet)

lemma RNTO_allowed: "returns (handleRNTO e a c) (allowed_change c a)"
  by (cases "may_write c a")
    (auto simp: handleRNTO_def may_write_def returns_may Let_def allowed_change_def)

lemma STOU_allowed: "returns (handleSTOU e a c) (allowed_change c (upload_name c a))"
proof -
  have "returns (case handleSTOR e n (c\<lparr>store_unique_name := n, resume_position := 0\<rparr>) of
          None \<Rightarrow> None | Some c \<Rightarrow> Some (c\<lparr>store_unique_name := []\<rparr>)) (allowed_change c n)" for n
  proof -
    let ?d = "c\<lparr>store_unique_name := n, resume_position := 0\<rparr>"
    have "allowed_change ?d n d = allowed_change c n (d\<lparr>store_unique_name := []\<rparr>)" for d
      by (auto simp: allowed_change_def may_write_def hasPermission_def validatePath_def isPathWithinHome_def
          resolvePath_def home_of_def split: option.split)
    then show ?thesis
      using STOR_allowed[of e n ?d] by (simp add: returns_def split: option.splits)
  qed
  then show ?thesis
    by (simp add: handleSTOU_def upload_name_def Let_def allowed_quiet)
qed

lemma SITE_allowed: "returns (handleSITE e a c) (allowed_change c (subject c ''SITE'' a))"
proof -
  have "returns (site_chmod e m p c) (allowed_change c p)" for m p
    by (cases "may_write c p") (auto simp: site_chmod_def may_write_def returns_may allowed_quiet)
  then show ?thesis
    by (simp add: handleSITE_def subject_def returns_rules allowed_quiet)
qed

lemma quiet_allowed: "returns m (quiet c) \<Longrightarrow> returns m (allowed_change c p)"
  by (auto elim: returns_mono intro: allowed_quiet)

lemma setting_allowed:
  "returns (handleUSER e a c) (allowed_change c p)" "returns (handleHOST e a c) (allowed_change c p)"
  "returns (handleCWD e a c) (allowed_change c p)" "returns (handleCDUP e c) (allowed_change c p)"
  "returns (handleRNFR e a c) (allowed_change c p)"
  by (simp_all add: handleUSER_def handleHOST_def handleCWD_def handleCDUP_def handleRNFR_def returns_rules
      allowed_change_def)

lemmas changes_allowed = DELE_allowed MKD_allowed RMD_allowed APPE_allowed STOR_allowed RNTO_allowed
  STOU_allowed SITE_allowed setting_allowed

lemma dispatch_allowed:
  assumes "cmd \<noteq> ''PASS''"
  shows "returns (dispatch e cmd a c) (allowed_change c (subject c cmd a))"
proof -
  have "returns (dispatch_user e cmd a c) (allowed_change c (subject c cmd a))"
    unfolding dispatch_user_def returns_if
    by (simp add: changes_allowed frames quiet_allowed allowed_quiet)
      (simp add: subject_def changes_allowed)
  then show ?thesis
    using assms unfolding dispatch_def returns_if
    by (simp add: changes_allowed frames quiet_allowed allowed_quiet)
qed

subsection \<open>Bytes on the data connection\<close>

lemma data_kept_simps [simp]:
  "data_kept c c" "data_kept c (sendResponse e r d) = data_kept c d"
  "data_kept c (sendResponses e rs d) = data_kept c d" "data_kept c (close_fd fd d) = data_kept c d"
  "data_kept c (closeDataSocket d) = data_kept c d"
  "data_kept c (snd (acceptDataConnection e d)) = data_kept c d"
  by (simp_all add: data_kept_def)

lemma data_kept_fields: "data_out d = data_out c \<Longrightarrow> data_kept c d"
  by (simp add: data_kept_def)

lemma listing_data [data_frames]:
  "returns (handlePWD e c) (data_kept c)" "returns (handleCWD e a c) (data_kept c)"
  "returns (handleCDUP e c) (data_kept c)" "returns (handleMLST e a c) (data_kept c)"
  "returns (handleMDTM e a c) (data_kept c)" "returns (handleSTAT e a c) (data_kept c)"
  "returns (handleSIZE e a c) (data_kept c)"
  by (simp_all add: handlePWD_def handleCWD_def handleCDUP_def handleMLST_def handleMDTM_def handleSTAT_def
      handleSIZE_def returns_rules data_kept_fields)

lemma setting_data [data_frames]:
  "returns (handleALLO e a c) (data_kept c)" "returns (handlePASV e c) (data_kept c)"
  "returns (handleEPSV e a c) (data_kept c)" "returns (handlePORT e a c) (data_kept c)"
  "returns (handleEPRT e a c) (data_kept c)" "returns (handleMODE e a c) (data_kept c)"
  "returns (handleTYPE e a c) (data_kept c)" "returns (handleREST e a c) (data_kept c)"
  "returns (handleOPTS e a c) (data_kept c)" "returns (handleHELP e a c) (data_kept c)"
  "returns (handleABOR e c) (data_kept c)" "returns (handleQUIT e c) (data_kept c)"
  by (simp_all add: handleALLO_def handlePASV_def handleEPSV_def handlePORT_def handleEPRT_def handleMODE_def
      handleTYPE_def handleREST_def handleOPTS_def handleHELP_def handleABOR_def handleQUIT_def
      returns_rules data_kept_fields)

lemma login_data [data_frames]:
  "returns (handleUSER e a c) (data_kept c)" "returns (handleHOST e a c) (data_kept c)"
  "returns (handlePBSZ e a c) (data_kept c)" "returns (handlePROT e a c) (data_kept c)"
  by (simp_all add: handleUSER_def handleHOST_def handlePBSZ_def handlePROT_def returns_rules data_kept_fields)

lemma AUTH_data [data_frames]: "returns (handleAUTH e a c) (data_kept c)"
  by (cases "current_virtual_host c")
    (auto simp: handleAUTH_def upgradeToSSL_def returns_rules Let_def intro!: data_kept_fields)

lemma entry_data [data_frames]:
  "returns (handleDELE e a c) (data_kept c)" "returns (handleMKD e a c) (data_kept c)"
  "returns (handleRMD e a c) (data_kept c)" "returns (handleRNFR e a c) (data_kept c)"
  "returns (handleRNTO e a c) (data_kept c)" "returns (handleSITE e a c) (data_kept c)"
  "returns (handleAPPE e a c) (data_kept c)"
  by (simp_all add: handleDELE_def handleMKD_def handleRMD_def handleRNFR_def handleRNTO_def handleSITE_def
      site_chmod_def handleAPPE_def Let_def returns_rules data_kept_fields)

lemma mode_z_data: "mode_z_refusal e c = Some d \<Longrightarrow> data_out d = data_out c"
  by (auto simp: mode_z_refusal_def split: if_splits)

lemma STOR_data [data_frames]: "returns (handleSTOR e a c) (data_kept c)"
proof -
  have "returns (store_transfer e fd p d) (data_kept d)" for fd p d
    by (simp add: store_transfer_def store_receive_def returns_rules data_kept_fields)
  then have "returns (store_transfer e fd p d) (data_kept c)" if "data_kept c d" for fd p d
    using that by (auto intro: returns_mono[of _ "data_kept d"] simp: data_kept_def)
  then show ?thesis
    by (simp add: handleSTOR_def returns_rules data_kept_fields mode_z_data)
qed

lemma STOU_data [data_frames]: "returns (handleSTOU e a c) (data_kept c)"
proof -
  have "data_out d = data_out c"
    if "handleSTOR e n (c\<lparr>store_unique_name := n, resume_position := 0\<rparr>) = Some d" for n d
    using returnsD[OF STOR_data that] by (simp add: data_kept_def)
  then show ?thesis
    by (simp add: handleSTOU_def returns_rules data_kept_fields)
qed

lemma returns_True: "returns m (\<lambda>_. True)"
  by (simp add: returns_def split: option.split)

lemma RETR_sends: "returns (handleRETR e a c) (\<lambda>d. data_kept c d \<or> may_send c ''RETR'' a)"
  by (cases "may_send c ''RETR'' a"; auto simp: handleRETR_def may_send_def returns_True)

lemma LIST_sends: "returns (handleLIST e a c) (\<lambda>d. data_kept c d \<or> may_send c ''LIST'' a)"
  by (cases "may_send c ''LIST'' a"; auto simp: handleLIST_def may_send_def returns_True)

lemma MLSD_sends: "returns (handleMLSD e a c) (\<lambda>d. data_kept c d \<or> may_send c ''MLSD'' a)"
  by (cases "may_send c ''MLSD'' a"; auto simp: handleMLSD_def may_send_def returns_True)

lemmas senders = RETR_sends LIST_sends MLSD_sends

lemma kept_data: "returns m (data_kept c) \<Longrightarrow> returns m (\<lambda>d. data_kept c d \<or> P)"
  by (auto elim: returns_mono)

lemma dispatch_data:
  assumes "cmd \<noteq> ''PASS''"
  shows "returns (dispatch e cmd a c) (\<lambda>d. data_kept c d \<or> may_send c cmd a)"
proof -
  have "may_send c ''NLST'' a = may_send c ''LIST'' a"
    by (simp add: may_send_def)
  then have "returns (dispatch_user e cmd a c) (\<lambda>d. data_kept c d \<or> may_send c cmd a)"
    unfolding dispatch_user_def returns_if by (simp add: data_frames kept_data senders)
  then show ?thesis
    using assms unfolding dispatch_def returns_if
    by (simp add: data_frames kept_data)
qed

end
