(* ===== verification/Exceptions.thy ===== *)
theory Exceptions
  imports Permissions
begin

text \<open>
  Exceptions that leave the thread of a client. \<open>handleClient\<close> catches nothing, so a \<open>filesystem_error\<close>
  that a handler lets out reaches \<open>std::terminate\<close>: the whole daemon ends. In the model it is the value
  \<open>None\<close> of the handler and of the command loop. \<open>RMD\<close> and \<open>MKD\<close> call the overloads that throw; here is
  when they do, exactly, in a tree without links.
\<close>

subsection \<open>Where a path leads\<close>

lemma spells_walk:
  assumes "good f" "valid_loc l" "spells p l"
  obtains e where "resolve f p = walk_from f (root f) (l @ e)" "e = [] \<or> e = [[]]"
proof -
  have abs: "is_absolute p"
    using assms(3) by (auto simp: spells_def string_of_loc_def root_dir_def is_absolute_def)
  have "split_on CHR ''/'' p = [] # l @ [] \<or> split_on CHR ''/'' p = [] # l @ [[]]"
    using assms(3) split_on_loc[OF assms(2)] by (auto simp: spells_def root_dir_def split_on_app)
  then obtain e where "split_on CHR ''/'' p = [] # l @ e" "e = [] \<or> e = [[]]"
    by blast
  then show thesis
    using that[of e] goodD(1)[OF assms(1)] by (simp add: resolve_abs[OF abs] walk_from_def wf_fs_def)
qed

lemma status_not_none:
  assumes "good f" "valid_loc l" "spells p l"
  shows "status f p \<noteq> FNone"
proof -
  have "resolve f p \<noteq> Loop"
    using spells_walk[OF assms] walk_no_loop[OF goodD(2)[OF assms(1)]] by (metis walk_from_def)
  then show ?thesis
    by (auto simp: status_def split: walked.splits option.splits kind.splits)
qed

lemma status_dir_iff:
  assumes "good f" "valid_loc l" "spells p l"
  shows "status f p = FDir \<longleftrightarrow> kind_at (tree f) (root f @ l) = Some Directory"
  using spells_status_dir[OF assms] good_resolve_At(1)[OF assms]
  by (auto simp: status_def split: walked.splits option.splits kind.splits)

lemma lresolve_dir:
  assumes "good f" "valid_loc l" "spells p l" "kind_at (tree f) (root f @ l) = Some Directory"
  shows "lresolve f p = At (root f @ l)"
proof -
  have "status f p = FDir"
    using status_dir_iff[OF assms(1-3)] assms(4) by simp
  then obtain k where "resolve f p = At k"
    by (auto simp: status_def split: walked.splits)
  then show ?thesis
    using lresolve_resolve[OF goodD(2)[OF assms(1)] assms(2,3)] good_resolve_At(1)[OF assms(1-3)] by auto
qed

text \<open>A free name in an existing directory.\<close>

lemma lresolve_free:
  assumes "good f" "valid_loc l" "spells p l" "l = b @ [x]"
    and "kind_at (tree f) (root f @ b) = Some Directory" "kind_at (tree f) (root f @ l) = None"
  shows "\<exists>xs. lresolve f p = Missing (root f @ b) x xs \<and> set xs \<subseteq> {[]}"
proof -
  obtain e where e: "resolve f p = walk_from f (root f) (b @ x # e)" "e = [] \<or> e = [[]]"
    using spells_walk[OF assms(1-3)] assms(4) by auto
  have "valid_name x"
    using assms(2,4) by simp
  then have "resolve f p = Missing (root f @ b) x e"
    using e(1) walk_to[OF goodD(2)[OF assms(1)] goodD(3)[OF assms(1)], of "root f" b "root f" symlink_limit] assms(4-6)
    by (simp add: walk_from_def walk_append[OF goodD(2)[OF assms(1)]] valid_name_def)
  then show ?thesis
    using lresolve_resolve[OF goodD(2)[OF assms(1)] assms(2,3)] e(2) by auto
qed

subsection \<open>The directory commands\<close>

definition throws :: "filesys \<Rightarrow> string \<Rightarrow> loc \<Rightarrow> bool" where
  "throws f command k =
     (if command = ''RMD'' then
        kind_at (tree f) k = Some Directory \<and> (k = root f \<or> refuses f k \<or> children (tree f) k \<noteq> [])
      else
        command = ''MKD'' \<and> kind_at (tree f) k \<noteq> Some Directory \<and>
        (kind_at (tree f) k = None \<longrightarrow> kind_at (tree f) (butlast k) \<noteq> Some Directory \<or> refuses f k))"

lemma create_directory_throws:
  assumes "good f" "valid_loc l" "spells p l"
  shows "create_directory f p = None \<longleftrightarrow> throws f ''MKD'' (root f @ l)"
proof -
  consider (dir) "kind_at (tree f) (root f @ l) = Some Directory"
    | (reg) s where "kind_at (tree f) (root f @ l) = Some (Regular s)"
    | (free) "kind_at (tree f) (root f @ l) = None"
    using no_links_kind[OF goodD(2)[OF assms(1)], of "root f @ l"]
    by (metis kind.exhaust not_None_eq)
  then show ?thesis
  proof cases
    case dir
    then show ?thesis
      using lresolve_dir[OF assms dir] status_dir_iff[OF assms]
      by (simp add: create_directory_def is_directory_ec_def throws_def)
  next
    case reg
    then have "\<not> is_directory_ec f p"
      using status_dir_iff[OF assms] by (simp add: is_directory_ec_def)
    then have "create_directory f p = None"
      using reg good_lresolve_Missing(1,3)[OF assms]
      by (fastforce simp: create_directory_def split: walked.split)
    then show ?thesis
      using reg by (simp add: throws_def)
  next
    case free
    then have "l \<noteq> []"
      using goodD(1)[OF assms(1)] by (auto simp: wf_fs_def)
    then obtain b x where l: "l = b @ [x]"
      by (cases l rule: rev_cases) auto
    show ?thesis
    proof (cases "kind_at (tree f) (root f @ b) = Some Directory")
      case True
      then obtain xs where "lresolve f p = Missing (root f @ b) x xs" "set xs \<subseteq> {[]}"
        using lresolve_free[OF assms l True free] by blast
      then show ?thesis
        using free True by (auto simp: create_directory_def throws_def l butlast_append)
    next
      case False
      have "create_directory f p = None"
      proof (cases "lresolve f p")
        case (Missing d y ys)
        have "d = root f @ b \<and> kind_at (tree f) d = Some Directory" if "\<forall>z\<in>set ys. z = []"
          using good_lresolve_Missing(1,2)[OF assms Missing that] l by simp
        then show ?thesis
          using Missing False by (auto simp: create_directory_def)
      next
        case (At d)
        then show ?thesis
          using good_lresolve_At(1,2)[OF assms At] free by simp
      qed (simp_all add: create_directory_def)
      then show ?thesis
        using free False by (simp add: throws_def l butlast_append)
    qed
  qed
qed

lemma MKD_throws:
  assumes "confined h c"
  shows "handleMKD e a c = None \<longleftrightarrow> may_write c a \<and> throws (fs c) ''MKD'' (place c (resolvePath c a))"
proof (cases "may_write c a")
  case True
  then have w: "hasPermission c ''write'' a" "validatePath c (resolvePath c a)"
    by (simp_all add: may_write_def)
  obtain l where l: "valid_loc l" "spells (resolvePath c a) l" "place c (resolvePath c a) = root (fs c) @ l"
    using placed[OF assms w(2)] by metis
  show ?thesis
    using create_directory_throws[OF confinedD(1)[OF assms] l(1,2)] True w l(3)
    by (auto simp: handleMKD_def split: option.splits bool.splits)
qed (auto simp: handleMKD_def may_write_def)

lemma RMD_throws:
  assumes "confined h c"
  shows "handleRMD e a c = None \<longleftrightarrow> may_write c a \<and> throws (fs c) ''RMD'' (place c (resolvePath c a))"
proof (cases "may_write c a")
  case True
  then have w: "hasPermission c ''write'' a" "validatePath c (resolvePath c a)"
    by (simp_all add: may_write_def)
  obtain l where l: "valid_loc l" "spells (resolvePath c a) l" "place c (resolvePath c a) = root (fs c) @ l"
    using placed[OF assms w(2)] by metis
  note g = confinedD(1)[OF assms]
  have "fs_is_directory (fs c) (resolvePath c a) = Some (kind_at (tree (fs c)) (root (fs c) @ l) = Some Directory)"
    using status_not_none[OF g l(1,2)] status_dir_iff[OF g l(1,2)] by (simp add: fs_is_directory_def is_directory_ec_def)
  then show ?thesis
    using lresolve_dir[OF g l(1,2)] w l(3) True
    by (cases "kind_at (tree (fs c)) (root (fs c) @ l) = Some Directory")
      (simp_all add: handleRMD_def fs_remove_def throws_def)
qed (auto simp: handleRMD_def may_write_def)

subsection \<open>The other commands\<close>

definition defined :: "'a option \<Rightarrow> bool" where
  "defined m = (m \<noteq> None)"

lemma defined_Some [simp]: "defined (Some x)" "\<not> defined None"
  by (simp_all add: defined_def)

lemma defined_if: "defined (if b then x else y) = ((b \<longrightarrow> defined x) \<and> (\<not> b \<longrightarrow> defined y))"
  by simp

lemma defined_option:
  "defined (case m of None \<Rightarrow> x | Some a \<Rightarrow> f a) =
     ((m = None \<longrightarrow> defined x) \<and> (\<forall>a. m = Some a \<longrightarrow> defined (f a)))"
  by (simp split: option.split)

lemma defined_bool:
  "defined (case b of True \<Rightarrow> x | False \<Rightarrow> y) = ((b \<longrightarrow> defined x) \<and> (\<not> b \<longrightarrow> defined y))"
  by (simp split: bool.split)

lemma defined_Let: "defined (let x = a in f x) = defined (f a)"
  by simp

lemma defined_prod: "defined (case p of (a, b) \<Rightarrow> f a b) = defined (f (fst p) (snd p))"
  by (simp add: case_prod_beta)

lemmas defined_rules = defined_if defined_option defined_bool defined_Let defined_prod

text \<open>In a tree without links the queries on a path of the client do not throw.\<close>

lemma queries_defined:
  assumes "good f" "valid_loc l" "spells p l"
  shows "fs_exists f p \<noteq> None" "fs_is_directory f p \<noteq> None" "fs_is_regular f p \<noteq> None"
    "fs_is_regular f p = Some True \<Longrightarrow> file_size f p \<noteq> None"
    "fs_exists f p = Some True \<Longrightarrow> fs_is_directory f p = Some False \<Longrightarrow> file_size f p \<noteq> None"
proof -
  have "file_size f p \<noteq> None" if s: "status f p = FFile"
  proof -
    obtain k where k: "resolve f p = At k" "kind_at (tree f) k \<noteq> Some Directory"
      using s by (auto simp: status_def split: walked.splits option.splits kind.splits)
    moreover have "kind_at (tree f) k \<noteq> None" "\<And>s. kind_at (tree f) k \<noteq> Some (Symlink s)"
      using good_resolve_At(2)[OF assms k(1)] no_links_kind[OF goodD(2)[OF assms(1)]] by auto
    ultimately show ?thesis
      by (auto simp: file_size_def file_content_def split: option.splits kind.splits)
  qed
  then show "fs_is_regular f p = Some True \<Longrightarrow> file_size f p \<noteq> None"
      "fs_exists f p = Some True \<Longrightarrow> fs_is_directory f p = Some False \<Longrightarrow> file_size f p \<noteq> None"
    by (auto simp: fs_is_regular_def fs_exists_def fs_is_directory_def exists_ec_def is_directory_ec_def
        split: if_splits)
qed (use status_not_none[OF assms] in \<open>simp_all add: fs_exists_def fs_is_directory_def fs_is_regular_def\<close>)

text \<open>What the paths of a client need to be well formed, logged in or not.\<close>

definition oriented :: "conn \<Rightarrow> bool" where
  "oriented c =
     (good (fs c) \<and> is_absolute (home_of c) \<and> (\<exists>l. valid_loc l \<and> spells (current_directory c) l))"

lemma settled_oriented: "settled h c \<Longrightarrow> oriented c"
  by (auto simp: settled_def oriented_def home_of_def intro: spells_abs)

lemma oriented_spells:
  assumes "oriented c"
  shows "\<exists>l. valid_loc l \<and> spells (resolvePath c p) l"
proof -
  obtain l where l: "valid_loc l" "spells (current_directory c) l" and h: "is_absolute (home_of c)"
    using assms by (auto simp: oriented_def)
  have "\<exists>l. valid_loc l \<and> spells (normalizeForComparison (fs c) q) l" if "is_absolute q" for q
    using good_normalize[OF _ that] assms normal_loc_valid unfolding oriented_def by metis
  then show ?thesis
    using l h spells_abs[OF l(2)] by (auto simp: resolvePath_def intro: path_append_abs)
qed

lemma client_queries:
  assumes "oriented c"
  shows "fs_exists (fs c) (resolvePath c p) \<noteq> None" "fs_is_directory (fs c) (resolvePath c p) \<noteq> None"
    "fs_is_regular (fs c) (resolvePath c p) \<noteq> None"
    "fs_is_regular (fs c) (resolvePath c p) = Some True \<Longrightarrow> file_size (fs c) (resolvePath c p) \<noteq> None"
    "fs_exists (fs c) (resolvePath c p) = Some True \<Longrightarrow> fs_is_directory (fs c) (resolvePath c p) = Some False \<Longrightarrow>
     file_size (fs c) (resolvePath c p) \<noteq> None"
proof -
  obtain l where l: "valid_loc l" "spells (resolvePath c p) l"
    using oriented_spells[OF assms] by blast
  have "good (fs c)"
    using assms by (simp add: oriented_def)
  note q = queries_defined[OF this l]
  show "fs_exists (fs c) (resolvePath c p) \<noteq> None" "fs_is_directory (fs c) (resolvePath c p) \<noteq> None"
    "fs_is_regular (fs c) (resolvePath c p) \<noteq> None"
    "fs_is_regular (fs c) (resolvePath c p) = Some True \<Longrightarrow> file_size (fs c) (resolvePath c p) \<noteq> None"
    "fs_exists (fs c) (resolvePath c p) = Some True \<Longrightarrow> fs_is_directory (fs c) (resolvePath c p) = Some False \<Longrightarrow>
     file_size (fs c) (resolvePath c p) \<noteq> None"
    using q by blast+
qed

lemma listing_defined:
  assumes "oriented c"
  shows "defined (handlePWD e c)" "defined (handleCWD e a c)" "defined (handleCDUP e c)"
    "defined (handleMLSD e a c)" "defined (handleMLST e a c)" "defined (handleMDTM e a c)"
    "defined (handleSTAT e a c)" "defined (handleSIZE e a c)" "defined (handleRNFR e a c)"
    "defined (handleRNTO e a c)"
  using client_queries[OF assms]
  by (simp_all add: handlePWD_def handleCWD_def handleCDUP_def handleMLSD_def handleMLST_def handleMDTM_def
      handleSTAT_def handleSIZE_def handleRNFR_def handleRNTO_def finish_listing_def Let_def defined_rules)

lemma LIST_defined:
  assumes "oriented c"
  shows "defined (handleLIST e a c)"
proof -
  have r: "(if a = [] then current_directory c else resolvePath c a) = resolvePath c a"
    by (simp add: resolvePath_def)
  show ?thesis
    using client_queries[OF assms, of a]
    unfolding handleLIST_def r by (simp add: finish_listing_def Let_def defined_rules)
qed

lemma setting_defined:
  "defined (handleALLO e a c)" "defined (handlePASV e c)" "defined (handleEPSV e a c)"
  "defined (handlePORT e a c)" "defined (handleEPRT e a c)" "defined (handleMODE e a c)"
  "defined (handleTYPE e a c)" "defined (handleREST e a c)" "defined (handleOPTS e a c)"
  "defined (handleHELP e a c)" "defined (handleABOR e c)" "defined (handleQUIT e c)"
  "defined (handleSITE e a c)"
  by (simp_all add: handleALLO_def handlePASV_def handleEPSV_def handlePORT_def handleEPRT_def handleMODE_def
      handleTYPE_def handleREST_def handleOPTS_def handleHELP_def handleABOR_def handleQUIT_def handleSITE_def
      site_chmod_def defined_rules)

lemma login_defined:
  "defined (handleUSER e a c)" "defined (handleHOST e a c)" "defined (handlePBSZ e a c)"
  "defined (handlePROT e a c)" "defined (handleAUTH e a c)"
  by (simp_all add: handleUSER_def handleHOST_def handlePBSZ_def handlePROT_def handleAUTH_def Let_def defined_rules)

lemma transfer_defined:
  assumes "oriented c"
  shows "defined (handleRETR e a c)" "defined (handleAPPE e a c)"
proof -
  have "defined (retr_transfer e fd p d)" for fd p d
    by (simp add: retr_transfer_def Let_def defined_rules)
  then show "defined (handleRETR e a c)"
    using client_queries[OF assms] by (simp add: handleRETR_def Let_def defined_rules)
  show "defined (handleAPPE e a c)"
    using client_queries[OF assms] by (simp add: handleAPPE_def Let_def defined_rules)
qed

text \<open>The commands that can throw ask for the permission first.\<close>

lemma writers_defined:
  assumes "\<not> may_write c a"
  shows "defined (handleSTOR e a c)" "defined (handleDELE e a c)" "defined (handleMKD e a c)"
    "defined (handleRMD e a c)"
  using assms by (auto simp: handleSTOR_def handleDELE_def handleMKD_def handleRMD_def may_write_def)

lemma STOU_defined:
  assumes "\<not> may_write c (upload_name c a)"
  shows "defined (handleSTOU e a c)"
proof -
  have "defined (case handleSTOR e n (c\<lparr>store_unique_name := n, resume_position := 0\<rparr>) of
          None \<Rightarrow> None | Some c \<Rightarrow> Some (c\<lparr>store_unique_name := []\<rparr>))" if "\<not> may_write c n" for n
  proof -
    let ?d = "c\<lparr>store_unique_name := n, resume_position := 0\<rparr>"
    have "\<not> may_write ?d n"
      using that by (auto simp: may_write_def hasPermission_def validatePath_def isPathWithinHome_def
          resolvePath_def home_of_def split: option.split_asm)
    then show ?thesis
      using writers_defined(1)[of ?d n e] by (auto simp: defined_def)
  qed
  then show ?thesis
    using assms by (simp add: handleSTOU_def upload_name_def Let_def)
qed

definition throwing :: "string list" where
  "throwing = [''STOR'', ''STOU'', ''DELE'', ''MKD'', ''XMKD'', ''RMD'', ''XRMD'']"

lemma dispatch_defined:
  assumes "oriented c" "cmd \<noteq> ''PASS''"
    and "\<not> (authenticated c \<and> cmd \<in> set throwing \<and> may_write c (subject c cmd a))"
  shows "defined (dispatch e cmd a c)"
proof -
  have "defined (dispatch_user e cmd a c)" if "authenticated c"
  proof -
    have "cmd = ''STOU'' \<longrightarrow> \<not> may_write c (upload_name c a)"
      "cmd = ''STOR'' \<or> cmd = ''DELE'' \<or> cmd = ''MKD'' \<or> cmd = ''XMKD'' \<or> cmd = ''RMD'' \<or> cmd = ''XRMD'' \<longrightarrow>
       \<not> may_write c a"
      using assms(3) that by (auto simp: throwing_def subject_def)
    then show ?thesis
      unfolding dispatch_user_def defined_if
      by (simp add: writers_defined STOU_defined listing_defined[OF assms(1)] LIST_defined[OF assms(1)]
          setting_defined transfer_defined[OF assms(1)])
  qed
  then show ?thesis
    using assms(2) unfolding dispatch_def defined_if by (simp add: login_defined setting_defined)
qed

subsection \<open>The end of the thread\<close>

lemma loop_throws:
  assumes "active c" "readLine c input = (line, d, rest)" "line \<noteq> []" "parse_command line = (cmd, a)"
    and "dispatch (es n) cmd a d = None"
  shows "command_loop es n input c = None"
  using assms by (subst command_loop.simps) simp

lemma dispatch_throws:
  assumes "confined h c" "cmd \<noteq> ''PASS''" "dispatch e cmd a c = None"
  shows "authenticated c \<and> cmd \<in> set throwing \<and> may_write c (subject c cmd a)"
  using dispatch_defined[OF settled_oriented[OF confined_settled[OF assms(1)]] assms(2), of a e] assms(3) by (auto simp: defined_def)

lemma directory_throws:
  assumes "confined h c" "authenticated c" "cmd = ''MKD'' \<or> cmd = ''RMD''"
  shows "dispatch e cmd a c = None \<longleftrightarrow> may_write c a \<and> throws (fs c) cmd (place c (resolvePath c a))"
  using MKD_throws[OF assms(1)] RMD_throws[OF assms(1)] assms(2,3) by (auto simp: dispatch_def dispatch_user_def)

end
