(* ===== verification/Tenants.thy ===== *)
theory Tenants
  imports File_Store
begin

text \<open>
  The server as a whole: any number of connections over one file system, with logins, refused passwords,
  changes of the virtual host and renames pending across them. When every account has its home in a
  set \<open>H\<close> of locations none of which lies inside another (\<open>homes\<close>), the connections of the accounts
  (\<open>tenant\<close>) change nothing outside of \<open>H\<close>, whatever they send and however their commands interleave.
  Neither \<open>chroot\<close> nor PAM is on; both bring directories that no table of accounts names.
\<close>

subsection \<open>The homes\<close>

definition homes :: "loc set \<Rightarrow> filesys \<Rightarrow> bool" where
  "homes H f =
     (good f \<and> (\<forall>h\<in>H. valid_loc h \<and> parent_dir f (root f @ h) \<and> (\<forall>k\<in>H. prefix h k \<longrightarrow> h = k)))"

definition steps_in :: "loc set \<Rightarrow> filesys \<Rightarrow> filesys \<Rightarrow> bool" where
  "steps_in H f g =
     (root g = root f \<and> good g \<and>
      (\<forall>k. (\<forall>h\<in>H. \<not> prefix (root f @ h) k) \<longrightarrow> map_of (tree g) k = map_of (tree f) k))"

lemma steps_refl: "good f \<Longrightarrow> steps_in H f f"
  by (simp add: steps_in_def)

lemma steps_trans: "steps_in H a b \<Longrightarrow> steps_in H b c \<Longrightarrow> steps_in H a c"
  by (simp add: steps_in_def)

lemma step_in: "fs_step (root f @ h) f g \<Longrightarrow> h \<in> H \<Longrightarrow> steps_in H f g"
  by (simp add: steps_in_def fs_step_def)

lemma homes_good: "homes H f \<Longrightarrow> good f"
  by (simp add: homes_def)

lemma homes_kept:
  assumes "homes H f" "steps_in H f g"
  shows "homes H g"
proof -
  have "parent_dir g (root g @ h)" if h: "h \<in> H" for h
  proof (cases "h = []")
    case False
    have "\<not> prefix (root f @ k) (root f @ butlast h)" if "k \<in> H" for k
    proof
      assume "prefix (root f @ k) (root f @ butlast h)"
      then have k: "prefix k (butlast h)"
        by simp
      then have "prefix k h"
        using prefix_order.trans prefixeq_butlast by blast
      then have "k = h"
        using assms(1) h that by (auto simp: homes_def)
      then show False
        using k butlast_not_below[OF False] by simp
    qed
    then have "map_of (tree g) (root f @ butlast h) = map_of (tree f) (root f @ butlast h)"
      using assms(2) by (simp add: steps_in_def)
    then show ?thesis
      using assms h False by (simp add: homes_def steps_in_def parent_dir_def kind_at_def butlast_append)
  qed (simp add: parent_dir_def)
  then show ?thesis
    using assms by (simp add: homes_def steps_in_def)
qed

lemma rename_in:
  assumes "good f" "valid_loc l" "spells p l" "valid_loc m" "spells q m" "fs_rename f p q = Some g"
    and "h \<in> H" "prefix h l" "k \<in> H" "prefix k m"
  shows "steps_in H f g"
proof -
  have s: "fs_step (root f @ []) f g"
    by (rule fs_rename_step[OF assms(1-3) _ assms(4,5) _ assms(6)]) simp_all
  have "map_of (tree g) x = map_of (tree f) x" if x: "\<forall>h\<in>H. \<not> prefix (root f @ h) x" for x
  proof (cases "l = m")
    case False
    have "\<not> prefix (root f @ l) x" "\<not> prefix (root f @ m) x"
      using x assms(7-10) by (meson append_prefixD prefix_order.trans same_prefix_prefix)+
    then show ?thesis
      using renamed_tree(2)[OF assms(1-6)] moved_map[OF assms(1) renamed_tree(1)[OF assms(1-6)]] False by simp
  qed (use renamed_tree(2)[OF assms(1-6)] in simp)
  then show ?thesis
    using s by (simp add: steps_in_def fs_step_def)
qed

subsection \<open>The accounts of a connection\<close>

definition account_in :: "loc set \<Rightarrow> ftp_user \<Rightarrow> bool" where
  "account_in H u = (\<exists>h\<in>H. spells (u_home u) h)"

text \<open>\<open>Q\<close> says what is asked of an account; its home is in \<open>H\<close> at least.\<close>

definition housed :: "(ftp_user \<Rightarrow> bool) \<Rightarrow> loc set \<Rightarrow> bool" where
  "housed Q H = (\<forall>u. Q u \<longrightarrow> account_in H u)"

definition accounts_in :: "(ftp_user \<Rightarrow> bool) \<Rightarrow> user_manager \<Rightarrow> bool" where
  "accounts_in Q m = (\<forall>e\<in>set (users m). Q (snd e))"

definition host_in :: "(ftp_user \<Rightarrow> bool) \<Rightarrow> virtual_host \<Rightarrow> bool" where
  "host_in Q v = (case vh_users v of None \<Rightarrow> True | Some m \<Rightarrow> accounts_in Q m)"

definition tenant :: "(ftp_user \<Rightarrow> bool) \<Rightarrow> loc set \<Rightarrow> conn \<Rightarrow> bool" where
  "tenant Q H c =
     (accounts_in Q (user_manager c) \<and> \<not> pam_auth c \<and> \<not> chroot_enabled (security (config c)) \<and>
      (\<forall>v. current_virtual_host c = Some v \<longrightarrow> host_in Q v) \<and>
      (\<forall>m. virtual_host_manager c = Some m \<longrightarrow> (\<forall>e\<in>set (virtual_hosts m). host_in Q (snd e))) \<and>
      (\<forall>u. current_user c = Some u \<longrightarrow> Q u) \<and>
      (\<exists>l. valid_loc l \<and> spells (current_directory c) l) \<and>
      (rename_from_path c \<noteq> [] \<longrightarrow> (\<exists>h\<in>H. source_below h (rename_from_path c))))"

lemma tenant_kept:
  assumes "tenant Q H c" "kept h c d" "\<exists>l. valid_loc l \<and> spells (current_directory d) l"
    and "rename_from_path d \<noteq> [] \<longrightarrow> (\<exists>h\<in>H. source_below h (rename_from_path d))"
  shows "tenant Q H d"
proof -
  have "host_in Q v" if v: "current_virtual_host d = Some v" for v
  proof (cases "current_virtual_host d = current_virtual_host c")
    case False
    then obtain m n where m: "virtual_host_manager c = Some m" "map_of (virtual_hosts m) n = Some v"
      using assms(2) v by (auto simp: kept_def getVirtualHost_def)
    then have "(n, v) \<in> set (virtual_hosts m)"
      by (auto dest: map_of_SomeD)
    then show ?thesis
      using assms(1) m(1) by (fastforce simp: tenant_def)
  qed (use assms(1) v in \<open>simp add: tenant_def\<close>)
  then show ?thesis
    using assms by (simp add: tenant_def kept_def)
qed

lemma account_of:
  "tenant Q H c \<Longrightarrow> getUser (auth_manager c) n = Some u \<Longrightarrow> Q u"
  by (auto simp: tenant_def auth_manager_def getUser_def accounts_in_def host_in_def
      split: option.splits dest!: map_of_SomeD)

lemma tenant_home:
  "tenant Q H c \<Longrightarrow> housed Q H \<Longrightarrow> current_user c = Some u \<Longrightarrow> \<exists>h\<in>H. spells (u_home u) h"
  unfolding tenant_def housed_def account_in_def by blast

lemma tenant_settled:
  assumes "tenant Q H c" "homes H (fs c)" "housed Q H" "current_user c = Some u"
  obtains h where "h \<in> H" "settled h c"
proof -
  obtain h where "h \<in> H" "spells (u_home u) h"
    using tenant_home[OF assms(1,3,4)] by blast
  then show thesis
    using that[of h] assms by (auto simp: tenant_def homes_def settled_def)
qed

subsection \<open>One command\<close>

text \<open>A connection without an account changes nothing.\<close>

definition idle :: "conn \<Rightarrow> conn \<Rightarrow> bool" where
  "idle c d = (fs d = fs c \<and> current_directory d = current_directory c \<and> (\<forall>h. kept h c d) \<and>
     (rename_from_path d = rename_from_path c \<or> rename_from_path d = []))"

lemma idle_quiet: "quiet c d \<Longrightarrow> idle c d"
  using kept_quiet by (simp add: idle_def quiet_def)

lemma nobody: "current_user c = None \<Longrightarrow> \<not> hasPermission c op p" "current_user c = None \<Longrightarrow> \<not> validatePath c q"
  by (simp_all add: hasPermission_def validatePath_def)

lemma nobody_idle:
  assumes "current_user c = None" "cmd \<noteq> ''PASS''"
  shows "returns (dispatch e cmd a c) (idle c)"
proof -
  note none = nobody[OF assms(1)]
  have fields: "returns (handleUSER e a c) (idle c)" "returns (handleRNTO e a c) (idle c)"
    using none by (auto simp: handleUSER_def handleRNTO_def Let_def returns_rules idle_def kept_def)
  have "idle c (sendResponse e r (c\<lparr>current_virtual_host := Some v\<rparr>))"
    if "virtual_host_manager c = Some m" "getVirtualHost m a = Some v" for r m v
    using that by (auto simp: idle_def kept_def intro: sym)
  then have host: "returns (handleHOST e a c) (idle c)"
    by (simp add: handleHOST_def returns_rules idle_quiet)
  have entries: "returns (handleDELE e a c) (idle c)" "returns (handleMKD e a c) (idle c)"
      "returns (handleRMD e a c) (idle c)" "returns (handleRNFR e a c) (idle c)"
      "returns (handleSTOR e a c) (idle c)" "returns (handleAPPE e a c) (idle c)"
      "returns (handleCWD e a c) (idle c)" "returns (handleCDUP e c) (idle c)"
    using none by (simp_all add: handleDELE_def handleMKD_def handleRMD_def handleRNFR_def handleSTOR_def
        handleAPPE_def handleCWD_def handleCDUP_def idle_quiet)
  have site: "returns (handleSITE e a c) (idle c)"
    using none by (simp add: handleSITE_def site_chmod_def returns_rules idle_quiet)
  have stou: "returns (handleSTOU e a c) (idle c)"
    using assms(1) by (simp add: handleSTOU_def handleSTOR_def hasPermission_def returns_rules idle_quiet)
  have quiet: "returns m (quiet c) \<Longrightarrow> returns m (idle c)" for m
    by (auto elim: returns_mono intro: idle_quiet)
  have "returns (dispatch_user e cmd a c) (idle c)"
    unfolding dispatch_user_def returns_if by (simp add: fields host entries site stou frames quiet idle_quiet)
  then show ?thesis
    using assms(2) unfolding dispatch_def returns_if by (simp add: fields host frames quiet idle_quiet)
qed

lemma idle_tenant: "tenant Q H c \<Longrightarrow> idle c d \<Longrightarrow> tenant Q H d"
  by (rule tenant_kept) (auto simp: tenant_def idle_def)

text \<open>A login or a refused password: the account comes from one of the tables.\<close>

lemma PASS_tenant:
  assumes "tenant Q H c" "homes H (fs c)" "housed Q H"
  shows "returns (handlePASS e p c) (\<lambda>d. tenant Q H d \<and> fs d = fs c)"
proof -
  let ?k = "snd (check_password e p c)"
  have off: "\<not> pam_auth c" "\<not> chroot_enabled (security (config c))"
    using assms by (auto simp: tenant_def)
  have k: "?k = c\<lparr>current_user := getUser (auth_manager c) (username c)\<rparr>"
    using off(1) by (simp add: check_password_def Let_def)
  then have tk: "tenant Q H ?k"
    using assms(1) account_of[OF assms(1)] by (simp add: tenant_def)
  have cd: "\<exists>l. valid_loc l \<and> spells (home_of ?k) l" if "fst (check_password e p c)"
  proof -
    have "getUser (auth_manager c) (username c) \<noteq> None"
      using that off(1) by (auto simp: check_password_ok authenticateUser_def split: option.splits)
    then obtain u where u: "current_user ?k = Some u"
      using arg_cong[OF k, of current_user] by auto
    then obtain h where "h \<in> H" "spells (u_home u) h"
      using tenant_home[OF tk assms(3) u] by blast
    then show ?thesis
      using assms(2) u by (auto simp: home_of_def homes_def)
  qed
  have entered: "tenant Q H (sendResponse e r (?k\<lparr>authenticated := True, current_directory := home_of ?k\<rparr>))"
    "tenant Q H (sendResponse e r (?k\<lparr>authenticated := True, current_directory := home_of ?k,
       tracker := t, session_registered := True\<rparr>))" if "fst (check_password e p c)" for r t
    using tk cd[OF that] by (simp_all add: tenant_def)
  have "tenant Q H (sendResponse e r c)" "tenant Q H (sendResponse e r ?k)" for r
    using assms(1) tk by (simp_all add: tenant_def)
  then show ?thesis
    using entered off by (simp add: handlePASS_def returns_rules)
qed

lemma RNTO_tenant:
  assumes "tenant Q H c" "homes H (fs c)" "housed Q H" "current_user c = Some u"
  shows "returns (handleRNTO e a c) (\<lambda>d. tenant Q H d \<and> steps_in H (fs c) (fs d))"
proof -
  obtain h where h: "h \<in> H" "settled h c"
    using tenant_settled[OF assms] .
  note g = homes_good[OF assms(2)]
  show ?thesis
  proof (cases "rename_from_path c = []")
    case True
    then show ?thesis
      using assms(1) g by (simp add: handleRNTO_def Let_def steps_refl tenant_def)
  next
    case False
    then obtain k where k: "k \<in> H" "source_below k (rename_from_path c)"
      using assms(1) by (auto simp: tenant_def)
    show ?thesis
    proof (rule returns_mono[OF handleRNTO_cases[OF h(2) k(2)]])
      fix d :: conn
      assume d: "kept h c d \<and> current_directory d = current_directory c \<and>
        (fs d = fs c \<or> (\<exists>l m. valid_loc l \<and> spells (rename_from_path c) l \<and> prefix k l \<and>
           valid_loc m \<and> spells (resolvePath c a) m \<and> prefix h m \<and>
           fs_rename (fs c) (rename_from_path c) (resolvePath c a) = Some (fs d)))"
      then have "tenant Q H d"
        using assms(1) h(1) by (intro tenant_kept[OF assms(1), of h]) (auto simp: tenant_def kept_def)
      moreover have "steps_in H (fs c) (fs d)"
        using d steps_refl[OF g] rename_in[OF g, of _ _ _ _ _ k H h] h(1) k(1) by metis
      ultimately show "tenant Q H d \<and> steps_in H (fs c) (fs d)" ..
    qed
  qed
qed

lemma dispatch_tenant:
  assumes "tenant Q H c" "homes H (fs c)" "housed Q H"
  shows "returns (dispatch e cmd a c) (\<lambda>d. tenant Q H d \<and> steps_in H (fs c) (fs d))"
proof -
  note g = homes_good[OF assms(2)]
  consider (login) "cmd = ''PASS''" | (nobody) "cmd \<noteq> ''PASS''" "current_user c = None"
    | (rename) u where "cmd = ''RNTO''" "authenticated c" "current_user c = Some u"
    | (user) u where "cmd \<noteq> ''PASS''" "cmd \<noteq> ''RNTO'' \<or> \<not> authenticated c" "current_user c = Some u"
    by (cases "current_user c") auto
  then show ?thesis
  proof cases
    case login
    then show ?thesis
      using returns_mono[OF PASS_tenant[OF assms]] steps_refl[OF g] by (simp add: dispatch_PASS)
  next
    case nobody
    then show ?thesis
      using idle_tenant[OF assms(1)] steps_refl[OF g]
      by (intro returns_mono[OF nobody_idle[OF nobody(2,1)]]) (simp add: idle_def)
  next
    case rename
    then show ?thesis
      using RNTO_tenant[OF assms rename(3)] by (simp add: dispatch_def dispatch_user_def)
  next
    case user
    obtain h where h: "h \<in> H" "settled h c"
      using tenant_settled[OF assms user(3)] .
    have "returns (dispatch e cmd a c) (settled_step h c)"
    proof (cases "cmd = ''RNTO''")
      case True
      then show ?thesis
        using user(2) quiet_step[OF h(2)] by (simp add: dispatch_def)
    qed (use dispatch_settled[OF h(2) user(1)] in simp)
    then show ?thesis
    proof (rule returns_mono)
      fix d :: conn
      assume d: "settled_step h c d"
      have "tenant Q H d"
        using d h(1) assms(1) by (intro tenant_kept[OF assms(1), of h]) (auto simp: settled_step_def settled_def kept_def tenant_def)
      then show "tenant Q H d \<and> steps_in H (fs c) (fs d)"
        using d h(1) step_in by (auto simp: settled_step_def)
    qed
  qed
qed

subsection \<open>All connections\<close>

text \<open>A run of the server: commands and departures of the connections in any order, and clients who
  arrive, each with a connection that satisfies \<open>fresh\<close>.\<close>

inductive served_run :: "(conn \<Rightarrow> bool) \<Rightarrow> world \<Rightarrow> world \<Rightarrow> bool" for fresh where
  served_start: "served_run fresh w w"
| served_next: "served_run fresh u v \<Longrightarrow> world_step v w \<Longrightarrow>
     \<forall>c\<in>set (drop (length (w_conns v)) (w_conns w)). fresh c \<Longrightarrow> served_run fresh u w"

lemma attach_tenant [simp]: "tenant Q H (attach w c) = tenant Q H c"
  by (simp add: attach_def tenant_def)

lemma stop_tenant: "tenant Q H (stop c) = tenant Q H c" "fs (stop c) = fs c"
  by (simp_all add: stop_def Let_def tenant_def)

lemma detach_tenants:
  assumes "\<forall>c\<in>set (w_conns w). tenant Q H c" "tenant Q H c"
  shows "\<forall>c\<in>set (w_conns (detach w i c)). tenant Q H c"
  using assms set_update_subset_insert[of "w_conns w" i c] by (auto simp: detach_def)

lemma world_step_tenants:
  assumes "world_step v w" "\<forall>c\<in>set (drop (length (w_conns v)) (w_conns w)). tenant Q H c"
    and "\<forall>c\<in>set (w_conns v). tenant Q H c" "homes H (w_fs v)" "housed Q H"
  shows "(\<forall>c\<in>set (w_conns w). tenant Q H c) \<and> steps_in H (w_fs v) (w_fs w)"
  using assms(1)
proof (rule world_stepE)
  fix i e cmd a c
  assume i: "i < length (w_conns v)" and d: "dispatch e cmd a (attach v (w_conns v ! i)) = Some c"
    and w: "w = detach v i c"
  have "tenant Q H c \<and> steps_in H (w_fs v) (fs c)"
    using returnsD[OF dispatch_tenant d, of Q H] assms(3-5) i by simp
  then show ?thesis
    using detach_tenants[OF assms(3), of c i] by (auto simp: w detach_def)
next
  fix c
  assume "w = v\<lparr>w_conns := w_conns v @ [c]\<rparr>"
  then show ?thesis
    using assms(2,3) steps_refl[OF homes_good[OF assms(4)]] by simp
next
  fix i
  assume i: "i < length (w_conns v)" and w: "w = detach v i (stop (attach v (w_conns v ! i)))"
  have "tenant Q H (stop (attach v (w_conns v ! i)))"
    using assms(3) i by (simp add: stop_tenant)
  then show ?thesis
    using detach_tenants[OF assms(3), of "stop (attach v (w_conns v ! i))" i] steps_refl[OF homes_good[OF assms(4)]]
    by (auto simp: w detach_def stop_tenant)
qed

lemma served_run_tenants:
  assumes "served_run (tenant Q H) v w" "\<forall>c\<in>set (w_conns v). tenant Q H c" "homes H (w_fs v)" "housed Q H"
  shows "(\<forall>c\<in>set (w_conns w). tenant Q H c) \<and> steps_in H (w_fs v) (w_fs w) \<and> homes H (w_fs w)"
  using assms
proof (induction rule: served_run.induct)
  case (served_start w)
  then show ?case
    by (simp add: steps_refl homes_good)
next
  case (served_next u v w)
  then have v: "\<forall>c\<in>set (w_conns v). tenant Q H c" "steps_in H (w_fs u) (w_fs v)" "homes H (w_fs v)"
    by simp_all
  note s = world_step_tenants[OF served_next.hyps(2,3) v(1,3) served_next.prems(3)]
  show ?case
    using s steps_trans[OF v(2)] homes_kept[OF v(3)] by blast
qed

end
