(* ===== verification/Readers.thy ===== *)
theory Readers
  imports Exceptions Tenants
begin

text \<open>
  A server whose accounts can only read. Whatever its clients send, a login with any password included,
  no file changes and no handler throws, so that every thread of a client comes to its end.
\<close>

text \<open>An account that lists its permissions, none of them for \<open>write\<close> or \<open>all\<close>, in any scope.\<close>

definition reader :: "ftp_user \<Rightarrow> bool" where
  "reader u =
     (u_permissions u \<noteq> [] \<and>
      (\<forall>p\<in>set (u_permissions u).
         (case cut_at CHR '':'' p of None \<Rightarrow> p | Some (x, _) \<Rightarrow> x) \<notin> {''write'', ''all''}))"

lemma reader_refused: "reader u \<Longrightarrow> \<not> user_hasPermission f u ''write'' p"
  by (fastforce simp: reader_def user_hasPermission_iff grants_def split: option.splits)

definition readers_in :: "loc set \<Rightarrow> ftp_user \<Rightarrow> bool" where
  "readers_in H u = (account_in H u \<and> reader u)"

lemma readers_housed: "housed (readers_in H) H"
  by (simp add: housed_def readers_in_def)

lemma reader_cannot_write: "tenant (readers_in H) H c \<Longrightarrow> \<not> may_write c p"
  using reader_refused by (auto simp: tenant_def readers_in_def may_write_def hasPermission_def split: option.splits)

lemma tenant_oriented:
  assumes "tenant Q H c" "homes H (fs c)" "housed Q H"
  shows "oriented c"
proof -
  have "is_absolute (home_of c)"
    using tenant_home[OF assms(1,3)] spells_abs
    by (cases "current_user c") (auto simp: home_of_def is_absolute_def)
  then show ?thesis
    using assms(1) homes_good[OF assms(2)] by (simp add: oriented_def tenant_def)
qed

lemma PASS_defined: "\<not> chroot_enabled (security (config c)) \<Longrightarrow> defined (handlePASS e p c)"
  by (simp add: handlePASS_def Let_def defined_rules)

lemma reader_command:
  assumes "tenant (readers_in H) H c" "homes H (fs c)"
  obtains d where "dispatch e cmd a c = Some d" "tenant (readers_in H) H d" "fs d = fs c"
proof -
  note w = reader_cannot_write[OF assms(1)]
  have "defined (dispatch e cmd a c)"
  proof (cases "cmd = ''PASS''")
    case True
    then show ?thesis
      using assms(1) by (simp add: dispatch_PASS PASS_defined tenant_def)
  qed (use dispatch_defined[OF tenant_oriented[OF assms readers_housed]] w in blast)
  then obtain d where d: "dispatch e cmd a c = Some d"
    by (auto simp: defined_def)
  have "fs d = fs c"
  proof (cases "cmd = ''PASS''")
    case True
    then show ?thesis
      using returnsD[OF PASS_tenant[OF assms readers_housed]] d by (simp add: dispatch_PASS)
  qed (use returnsD[OF dispatch_allowed d] w in \<open>simp add: allowed_change_def\<close>)
  then show thesis
    using that d returnsD[OF dispatch_tenant[OF assms readers_housed] d] by blast
qed

lemma readers_loop:
  "tenant (readers_in H) H c \<Longrightarrow> homes H (fs c) \<Longrightarrow>
   \<exists>d. command_loop es n input c = Some d \<and> fs d = fs c \<and> \<not> active d"
proof (induction es n input c rule: command_loop.induct)
  case (1 es n input c)
  show ?case
  proof (cases "active c")
    case active: True
    obtain line d rest where r: "readLine c input = (line, d, rest)"
      by (cases "readLine c input")
    have d: "tenant (readers_in H) H d" "fs d = fs c"
      using r 1(2) by (auto simp: readLine_def tenant_def split: if_splits prod.splits)
    show ?thesis
    proof (cases "line = []")
      case True
      then show ?thesis
        using active r d(2) by (subst command_loop.simps) simp
    next
      case False
      obtain cmd a where p: "parse_command line = (cmd, a)"
        by (cases "parse_command line")
      obtain f where f: "dispatch (es n) cmd a d = Some f" "tenant (readers_in H) H f" "fs f = fs d"
        using reader_command[OF d(1)] 1(3) d(2) by metis
      show ?thesis
      proof (cases "cmd = ''QUIT''")
        case True
        then show ?thesis
          using active r False p f d(2) by (subst command_loop.simps) simp
      next
        case go: False
        have "\<exists>g. command_loop es (n + 1) rest f = Some g \<and> fs g = fs f \<and> \<not> active g"
          using "1.IH"[of line "(d, rest)" d rest cmd a f] active r False p f(1) go f(2,3) 1(3) d(2) by simp
        then show ?thesis
          using active r False p f(1,3) go d(2) by (subst command_loop.simps) simp
      qed
    qed
  next
    case False
    then show ?thesis
      by (subst command_loop.simps) simp
  qed
qed

lemma readers_client:
  assumes "tenant (readers_in H) H c" "homes H (fs c)"
  shows "\<exists>d. handleClient es input c = Some d \<and> fs d = fs c \<and> \<not> active d"
  using readers_loop[of H "sendResponse (es 0) ''220 Welcome to Simple Secure FTP Daemon'' c"] assms
  by (simp add: handleClient_def tenant_def)

end
