(* ===== verification/Samples.thy ===== *)
theory Samples
  imports Upload_Facts World Transfer_Facts Readers
begin

text \<open>
  A small installation on which the properties are tried: a file system with the homes of two
  users, a quiet environment in which every system call succeeds, and a connection on which
  \<open>alice\<close> is logged in.
\<close>

definition dir_node :: inode where
  "dir_node = \<lparr>ikind = Directory, imode = 493\<rparr>"

definition file_node :: "string \<Rightarrow> inode" where
  "file_node s = \<lparr>ikind = Regular s, imode = 420\<rparr>"

definition s_fs :: filesys where
  "s_fs = \<lparr>tree = [([], dir_node), ([''srv''], dir_node), ([''srv'', ''alice''], dir_node),
             ([''srv'', ''bob''], dir_node), ([''etc''], dir_node),
             ([''srv'', ''alice'', ''notes''], file_node ''hello world''),
             ([''srv'', ''alice'', ''d''], dir_node), ([''srv'', ''alice'', ''d'', ''x''], file_node []),
             ([''srv'', ''bob'', ''mail''], file_node ''private''),
             ([''etc'', ''shadow''], file_node ''secret'')],
           root = [], cwd = [], refuses = (\<lambda>_. False)\<rparr>"

text \<open>A stand-in for PBKDF2 that keeps distinct short passwords apart.\<close>

definition s_kdf :: kdf where
  "s_kdf p s n = Some (take 32 (p @ s @ replicate 32 CHR ''x''))"

definition s_env :: env where
  "s_env = \<lparr>reply_sent = (\<lambda>_. True), listen_fd = 5, can_bind = (\<lambda>_. True), can_listen = (\<lambda>_. True),
     peer_waiting = True, accept_fd = 6, connect_fd = 7, can_connect = True,
     received = [Some ''abc'', Some ''def''], open_ok = True, sendfile_results = [40000],
     mmap_ok = True, send_results = [40000], io_results = [(40000, 40000)], zlib_valid = True,
     zlib = (\<lambda>_ s _. Some s), elapsed_ms = (\<lambda>_. 0), stray_byte = (\<lambda>_. CHR ''?''), clock = 1000,
     kdf = s_kdf, rand = Some ''0123456789abcdef'', pam_available = False,
     pam_accepts = (\<lambda>_ _. False), passwd_dir = (\<lambda>_. None), tls_init_ok = True,
     tls_create_ok = True, tls_accept_ok = True, chroot_ok = False, mtime_of = (\<lambda>_. Some 0),
     error_text = ''error''\<rparr>"

definition s_user :: "string \<Rightarrow> string \<Rightarrow> string \<Rightarrow> ftp_user" where
  "s_user name pw home =
     \<lparr>u_username = name, u_password = pw, u_home = home, u_permissions = [], u_groups = [],
      u_guest = False, u_expires_at = 0, u_storage_quota = 0\<rparr>"

definition s_users :: user_manager where
  "s_users = \<lparr>users = [(''alice'', s_user ''alice'' ''wonder'' ''/srv/alice''),
                       (''bob'', s_user ''bob'' ''builder'' ''/srv/bob'')],
              users_file = []\<rparr>"

text \<open>A fresh connection, as the constructor leaves it.\<close>

definition s_conn :: conn where
  "s_conn = \<lparr>socket_open = True, config = default_config, user_manager = s_users,
     ssl_context = False, pam_auth = False, active = True, authenticated = False, username = [],
     current_user = None, current_directory = ''/'', ssl_enabled = False, ssl_active = False,
     ssl_session = False, passive_listen_socket = -1, data_socket = -1, transfer_type = ''A'',
     transfer_mode = ''S'', protection_level = ''C'', active_mode_ip = [], active_mode_port = 0,
     active_mode_enabled = False, resume_position = 0, rename_from_path = [], epsv_all = False,
     utf8_enabled = True, store_unique_name = [], virtual_host_manager = None,
     current_virtual_host = None, has_tracker = True, session_registered = False, fs = s_fs,
     tracker = new_tracker, replies = [], send_calls = 0, data_out = [], closed = [],
     dialled = [], slept = 0\<rparr>"

definition s_alice :: conn where
  "s_alice = s_conn\<lparr>authenticated := True, username := ''alice'',
     current_user := Some (s_user ''alice'' ''wonder'' ''/srv/alice''),
     current_directory := ''/srv/alice'', session_registered := True,
     tracker := registerSession new_tracker ''alice'' [], passive_listen_socket := 5\<rparr>"

lemma s_good: "good s_fs"
  by code_simp

lemma s_confined: "confined [''srv'', ''alice''] s_alice"
proof -
  have "spells ''/srv/alice'' [''srv'', ''alice'']"
    by code_simp
  then show ?thesis
    using s_good by (auto simp: confined_def s_alice_def s_conn_def s_user_def valid_name_def parent_dir_def
        s_fs_def kind_at_def dir_node_def intro!: exI[of _ "[''srv'', ''alice'']"])
qed


text \<open>Evaluated once, used by the examples: how \<open>alice\<close>'s paths resolve and what they meet.\<close>

lemma s_alice_fields [simp]:
  "fs s_alice = s_fs" "current_user s_alice = Some (s_user ''alice'' ''wonder'' ''/srv/alice'')"
  "authenticated s_alice" "active s_alice" "socket_open s_alice" "root s_fs = []"
  "data_out s_alice = []" "resume_position s_alice = 0" "transfer_mode s_alice = ''S''"
  "store_unique_name s_alice = []" "config s_alice = default_config" "username s_alice = ''alice''"
  "rename_from_path s_alice = []" "current_virtual_host s_alice = None"
  "current_directory s_alice = ''/srv/alice''" "has_tracker s_alice"
  by (simp_all add: s_alice_def s_conn_def s_fs_def)

lemma s_new_normal: "normalizeForComparison s_fs ''/srv/alice/new'' = ''/srv/alice/new''"
  by code_simp

lemma s_home_normal: "normalizeForComparison s_fs ''/srv/alice'' = ''/srv/alice''"
  by code_simp

lemma s_alice_new: "resolvePath s_alice ''new'' = ''/srv/alice/new''"
  using s_new_normal
  by (simp add: resolvePath_def is_absolute_def path_append_def trailing_slash_def root_dir_def)

lemma s_alice_new2: "validatePath s_alice ''/srv/alice/new''"
proof -
  have "isWithin ''/srv/alice/new'' ''/srv/alice''"
    by code_simp
  then show ?thesis
    using s_new_normal s_home_normal by (simp add: validatePath_def isPathWithinHome_def s_user_def)
qed

lemma s_alice_perm:
  "hasPermission s_alice op p"
  by (simp add: hasPermission_def user_hasPermission_def) (simp add: s_user_def)

lemma s_mkd:
  "create_directory s_fs ''/srv/alice/new'' =
     Some (True, put_node s_fs [''srv'', ''alice'', ''new''] Directory 511)"
proof -
  have "lresolve s_fs ''/srv/alice/new'' = Missing [''srv'', ''alice''] ''new'' []"
    by code_simp
  then show ?thesis
    by (simp add: create_directory_def) (simp add: s_fs_def)
qed

lemma s_alice_mkd:
  "\<exists>c. dispatch s_env ''MKD'' ''new'' s_alice = Some c \<and>
       fs c = put_node s_fs [''srv'', ''alice'', ''new''] Directory 511"
  by (simp add: dispatch_def dispatch_user_def handleMKD_def s_alice_new s_alice_new2 s_alice_perm s_mkd)

text \<open>Downloading \<open>notes\<close>.\<close>

lemma s_resolve:
  "resolve s_fs ''/srv/alice/notes'' = At [''srv'', ''alice'', ''notes'']"
  "resolve s_fs ''/srv/alice'' = At [''srv'', ''alice'']"
  by (simp_all add: resolve_def walk_from_def start_of_def is_absolute_def s_fs_def kind_at_def
      dir_node_def file_node_def)

lemma s_dir_resolve: "resolve s_fs ''/srv/alice/d'' = At [''srv'', ''alice'', ''d'']"
  by (simp add: resolve_def walk_from_def start_of_def is_absolute_def s_fs_def kind_at_def
      dir_node_def file_node_def)

lemma s_normal:
  assumes "resolve s_fs p = At c" "is_absolute p"
  shows "normalizeForComparison s_fs p = string_of_loc c"
  using normalize_existing[OF goodD(1)[OF s_good] assms(2,1)] by simp

lemma s_notes: "resolvePath s_alice ''notes'' = ''/srv/alice/notes''"
  using s_normal[OF s_resolve(1)]
  by (simp add: resolvePath_def is_absolute_def path_append_def trailing_slash_def root_dir_def
      string_of_loc_def)

lemma s_notes_valid: "validatePath s_alice ''/srv/alice/notes''"
  using s_normal[OF s_resolve(1)] s_normal[OF s_resolve(2)] isWithin_loc
  by (simp add: validatePath_def isPathWithinHome_def is_absolute_def s_user_def valid_name_def)

lemma s_notes_kind: "kind_at (tree s_fs) [''srv'', ''alice'', ''notes''] = Some (Regular ''hello world'')"
  by (simp add: s_fs_def kind_at_def file_node_def)

lemma s_paths:
  "fs_is_regular s_fs ''/srv/alice/notes'' = Some True"
  "file_content s_fs ''/srv/alice/notes'' = Some ''hello world''"
  by (simp_all add: fs_is_regular_def status_def file_content_def s_resolve s_notes_kind)

lemma s_full_io: "len \<le> 32768 \<Longrightarrow> full_io s_env 32768 len"
  by (simp add: full_io_def enough_def s_env_def)

lemma s_buffer: "config c = default_config \<Longrightarrow> copy_buffer c = 32768"
  by (simp add: copy_buffer_def default_config_def)

lemma s_copy:
  assumes "config c = default_config" "transfer_mode c = ''S''" "length content \<le> 32768"
  shows "x_out (fst (retr_copy s_env c content 0)) = content" "snd (retr_copy s_env c content 0) = None"
  using retr_copy_full[of c 0 content s_env] s_full_io[OF assms(3)] s_buffer[OF assms(1)] assms
  by (simp_all add: transferModeZ_def)

lemma s_accept:
  assumes "\<not> active_mode_enabled c" "passive_listen_socket c = 5"
  shows "acceptDataConnection s_env c = (6, c\<lparr>data_socket := 6\<rparr>)"
  using assms by (simp add: acceptDataConnection_def s_env_def)

lemma s_alice_more [simp]:
  "\<not> active_mode_enabled s_alice" "passive_listen_socket s_alice = 5"
  by (simp_all add: s_alice_def s_conn_def)

lemma s_retr:
  "\<exists>c. handleRETR s_env ''notes'' s_alice = Some c \<and> data_out c = [(6, ''hello world'')]"
proof -
  have o: "open_ok s_env"
    by (simp add: s_env_def)
  show ?thesis
    by (simp add: handleRETR_def s_paths s_notes s_notes_valid s_alice_perm mode_z_refusal_def transferModeZ_def s_accept o
        retr_transfer_def split_def s_copy send_data_def close_fd_def)
qed

text \<open>Logging in as \<open>alice\<close>.\<close>

lemma s_wonder: "verify k ''wonder'' ''wonder''"
  by (simp add: verify_def isHashed_def kPrefix_def constantTimeEquals_short)

lemma s_conn_fields [simp]:
  "config s_conn = default_config" "has_tracker s_conn" "current_virtual_host s_conn = None"
  "fs s_conn = s_fs" "user_manager s_conn = s_users" "tracker s_conn = new_tracker"
  "\<not> authenticated s_conn" "socket_open s_conn"
  by (simp_all add: s_conn_def)

lemma default_limits [simp]:
  "chroot_enabled (security default_config) = False" "max_sessions_per_user (security default_config) = 0"
  by (simp_all add: default_config_def)

lemma s_login: "\<exists>b. session (\<lambda>_. True) s_conn b \<and> authenticated b"
proof -
  let ?u = "sendResponse s_env ''331 User name okay, need password''
              (s_conn\<lparr>username := ''alice'', authenticated := False\<rparr>)"
  have u: "dispatch s_env ''USER'' ''alice'' s_conn = Some ?u"
    by (simp add: dispatch_def handleUSER_def)
  have "credentials_ok s_env ''wonder'' ?u"
    by (simp add: credentials_ok_def authenticateUser_def auth_manager_def getUser_def
        s_users_def s_user_def authenticate_def isExpired_def s_wonder)
  moreover have "session_limit_reply (snd (check_password s_env ''wonder'' ?u)) = None"
    by (simp add: session_limit_reply_def)
  moreover have "handlePASS s_env ''wonder'' ?u \<noteq> None"
    using calculation by (simp add: handlePASS_def split_def Let_def credentials_ok_def check_password_ok)
  ultimately obtain c where "handlePASS s_env ''wonder'' ?u = Some c" "credentials_ok s_env ''wonder'' ?u"
      "session_limit_reply (snd (check_password s_env ''wonder'' ?u)) = None"
    by auto
  note c = this
  have p: "dispatch s_env ''PASS'' ''wonder'' ?u = Some c"
    using c(1) by (simp only: dispatch_PASS)
  have "authenticated c"
    by (rule handlePASS_accepted[OF c, THEN conjunct1])
  moreover have "session (\<lambda>_. True) s_conn c"
    by (rule session_trans[OF session_one[OF command[OF p]] session_one[OF command[OF u]]]) (rule TrueI)+
  ultimately show ?thesis
    by (intro exI[of _ c] conjI)
qed

text \<open>The same connection after \<open>USER alice\<close>, where one session per user is allowed.\<close>

definition s_limited :: conn where
  "s_limited = s_conn\<lparr>username := ''alice'',
     config := default_config\<lparr>security := (security default_config)\<lparr>max_sessions_per_user := 1\<rparr>\<rparr>\<rparr>"

lemma s_limited_credentials:
  "credentials_ok s_env ''wonder'' s_limited"
  "session_limit_reply (snd (check_password s_env ''wonder'' s_limited)) = None"
  by (simp_all add: credentials_ok_def authenticateUser_def auth_manager_def getUser_def s_limited_def
      s_users_def s_user_def authenticate_def isExpired_def s_wonder session_limit_reply_def
      getCountForUser_def new_tracker_def counted_def)

lemma s_limited_login:
  "\<exists>c. handlePASS s_env ''wonder'' s_limited = Some c \<and> limited_to 1 c \<and>
       getCountForUser (tracker c) ''alice'' = 1"
proof -
  have "fst (check_password s_env ''wonder'' s_limited)"
    using s_limited_credentials(1) by (simp add: credentials_ok_def check_password_ok)
  moreover have "username s_limited = ''alice''" "has_tracker s_limited" "tracker s_limited = new_tracker"
      "config s_limited = default_config\<lparr>security := (security default_config)\<lparr>max_sessions_per_user := 1\<rparr>\<rparr>"
    by (simp_all add: s_limited_def)
  ultimately show ?thesis
    using s_limited_credentials(2)
    by (simp add: handlePASS_def split_def Let_def limited_to_def tracker.reg_users tracker.start_empty)
qed

text \<open>Storing \<open>new\<close> and fetching it again.\<close>

lemma s_parent: "parent_path ''/srv/alice/new'' = ''/srv/alice''"
  by code_simp

lemma s_dirs: "create_directories s_fs ''/srv/alice'' = Some s_fs"
proof -
  have "status s_fs ''/srv/alice'' = FDir"
    by code_simp
  then show ?thesis
    by (simp add: create_directories_def Let_def)
qed

lemma s_open: "open_upload s_fs ''/srv/alice/new'' 0 =
  Some (Some ([''srv'', ''alice'', ''new''], 0, put_node s_fs [''srv'', ''alice'', ''new''] (Regular []) 420))"
proof -
  have "resolve s_fs ''/srv/alice/new'' = Missing [''srv'', ''alice''] ''new'' []"
    by code_simp
  then show ?thesis
    by (simp add: open_upload_def open_write_def) (simp add: s_fs_def)
qed

lemma s_alice_rest [simp]:
  "replies s_alice = []" "ssl_active s_alice = False" "send_calls s_alice = 0" "slept s_alice = 0"
  by (simp_all add: s_alice_def s_conn_def)

lemma s_stor:
  "\<exists>d. handleSTOR s_env ''new'' s_alice = Some d \<and> ''226'' \<in> set (codes s_alice d) \<and>
       data_out d = [] \<and> resume_position d = 0 \<and> transfer_mode d = ''S'' \<and> config d = default_config \<and>
       \<not> active_mode_enabled d \<and> passive_listen_socket d = 5 \<and> current_virtual_host d = None \<and>
       current_user d = current_user s_alice \<and> current_directory d = ''/srv/alice''"
proof -
  have e: "received s_env = [Some ''abc'', Some ''def'']" "reply_sent s_env = (\<lambda>_. True)"
    by (simp_all add: s_env_def)
  have q: "storage_quota s_alice = 0"
    by (simp add: storage_quota_def s_user_def new_user_def)
  show ?thesis
    by (simp add: handleSTOR_def s_alice_new s_alice_new2 s_alice_perm q mode_z_refusal_def transferModeZ_def
        s_accept store_transfer_def s_parent s_dirs s_open store_receive_def Let_def e codes_def
        sendResponse_def close_fd_def custom_reply_def crlf_def)
qed

lemma s_fetch:
  assumes "good (fs d)" "root (fs d) = []" "file_content (fs d) ''/srv/alice/new'' = Some b" "length b \<le> 32768"
    and "data_out d = []" "resume_position d = 0" "transfer_mode d = ''S''" "config d = default_config"
    and "\<not> active_mode_enabled d" "passive_listen_socket d = 5" "current_virtual_host d = None"
    and "current_user d = current_user s_alice" "current_directory d = ''/srv/alice''"
  shows "resolvePath d ''new'' = ''/srv/alice/new'' \<and>
         (\<exists>d'. handleRETR s_env ''new'' d = Some d' \<and> data_out d' = [(6, b)])"
proof -
  have sp: "spells ''/srv/alice/new'' [''srv'', ''alice'', ''new'']" "spells ''/srv/alice'' [''srv'', ''alice'']"
    by code_simp+
  have v: "valid_loc [''srv'', ''alice'', ''new'']" "valid_loc [''srv'', ''alice'']"
    by (simp_all add: valid_loc_def valid_name_def)
  obtain k where k: "resolve (fs d) ''/srv/alice/new'' = At k" "kind_at (tree (fs d)) k = Some (Regular b)"
    using assms(3) by (auto simp: file_content_def split: walked.splits option.splits kind.splits)
  have k_eq: "k = [''srv'', ''alice'', ''new'']"
    using good_resolve_At(1)[OF assms(1) v(1) sp(1) k(1)] assms(2) by simp
  have abs: "is_absolute ''/srv/alice/new''" "is_absolute ''/srv/alice''"
    by (simp_all add: is_absolute_def)
  have n: "normalizeForComparison (fs d) ''/srv/alice/new'' = ''/srv/alice/new''"
    using normalize_existing[OF goodD(1)[OF assms(1)] abs(1) k(1)] assms(2)
    by (simp add: k_eq string_of_loc_def root_dir_def)
  have "kind_at (tree (fs d)) [''srv'', ''alice''] = Some Directory"
    using wf_prefix[OF goodD(3)[OF assms(1)] k(2), of "[''srv'', ''alice'']"] by (simp add: k_eq)
  then have "resolve (fs d) ''/srv/alice'' = At [''srv'', ''alice'']"
    using spells_status_dir[OF assms(1) v(2) sp(2)] good_resolve_At(1)[OF assms(1) v(2) sp(2)] assms(2)
    by (auto simp: status_def split: walked.splits)
  from normalize_existing[OF goodD(1)[OF assms(1)] abs(2) this]
  have h: "normalizeForComparison (fs d) ''/srv/alice'' = ''/srv/alice''"
    using assms(2) by (simp add: string_of_loc_def root_dir_def)
  have r: "resolvePath d ''new'' = ''/srv/alice/new''"
    using n assms(13) by (simp add: resolvePath_def is_absolute_def path_append_def trailing_slash_def root_dir_def)
  have "isWithin ''/srv/alice/new'' ''/srv/alice''"
    by code_simp
  then have val: "validatePath d ''/srv/alice/new''"
    using n h assms(11,12) by (simp add: validatePath_def isPathWithinHome_def s_user_def)
  have perm: "hasPermission d ''read'' ''new''"
    using s_alice_perm[of "''read''" "''new''"] assms(11,12)
    by (simp add: hasPermission_def user_hasPermission_def s_user_def new_user_def)
  have reg: "fs_is_regular (fs d) ''/srv/alice/new'' = Some True"
    by (simp add: fs_is_regular_def status_def k)
  have o: "open_ok s_env"
    by (simp add: s_env_def)
  show ?thesis
    using assms by (simp add: r handleRETR_def reg val perm mode_z_refusal_def transferModeZ_def s_accept o
        retr_transfer_def split_def s_copy send_data_def close_fd_def)
qed

text \<open>Appending to \<open>notes\<close>.\<close>

lemma s_appe:
  "\<exists>d. handleAPPE s_env ''notes'' s_alice = Some d \<and> ''226'' \<in> set (codes s_alice d)"
proof -
  have x: "fs_exists s_fs ''/srv/alice/notes'' = Some True"
    by (simp add: fs_exists_def exists_ec_def status_def s_resolve s_notes_kind)
  have w: "open_write s_fs ''/srv/alice/notes'' False = Some ([''srv'', ''alice'', ''notes''], s_fs)"
    by (simp add: open_write_def s_resolve s_notes_kind) (simp add: s_fs_def)
  have e: "reply_sent s_env = (\<lambda>_. True)"
    by (simp add: s_env_def)
  show ?thesis
    by (simp add: handleAPPE_def s_notes s_notes_valid s_alice_perm transferModeZ_def s_accept x w e codes_def
        sendResponse_def close_fd_def custom_reply_def crlf_def)
qed

text \<open>A unique name beside \<open>notes\<close>.\<close>

lemma s_unique: "unique_name s_fs ''/srv/alice'' ''notes'' 0 10000 = ''notes.0''"
proof -
  have "\<not> exists_ec s_fs ''/srv/alice/notes.0''"
    by code_simp
  moreover have "to_string 0 = ''0''"
    by code_simp
  ultimately have "unique_name s_fs ''/srv/alice'' ''notes'' 0 (Suc n) = ''notes.0''" for n
    by simp
  from this[of 9999] show ?thesis
    by simp
qed

lemma s_stou: "\<exists>d. handleSTOU s_env ''notes'' s_alice = Some d"
proof -
  let ?c = "s_alice\<lparr>store_unique_name := ''notes.0'', resume_position := 0\<rparr>"
  have n: "normalizeForComparison s_fs ''/srv/alice/notes.0'' = ''/srv/alice/notes.0''"
    by code_simp
  then have r: "resolvePath ?c ''notes.0'' = ''/srv/alice/notes.0''"
    by (simp add: resolvePath_def is_absolute_def path_append_def trailing_slash_def root_dir_def)
  have "isWithin ''/srv/alice/notes.0'' ''/srv/alice''"
    by code_simp
  then have v: "validatePath ?c ''/srv/alice/notes.0''"
    using n s_home_normal by (simp add: validatePath_def isPathWithinHome_def s_user_def)
  have p: "hasPermission ?c ''write'' ''notes.0''"
    by (simp add: hasPermission_def user_hasPermission_def) (simp add: s_user_def)
  have q: "storage_quota ?c = 0"
    by (simp add: storage_quota_def s_user_def new_user_def)
  have "parent_path ''/srv/alice/notes.0'' = ''/srv/alice''"
    by code_simp
  moreover have "open_upload s_fs ''/srv/alice/notes.0'' 0 \<noteq> None"
    by (simp add: open_upload_def)
  ultimately have "\<exists>d. handleSTOR s_env ''notes.0'' ?c = Some d"
    by (auto simp: handleSTOR_def r v p q mode_z_refusal_def transferModeZ_def s_accept store_transfer_def s_dirs
        store_receive_def Let_def split: option.split prod.split)
  moreover have "filename ''notes'' = ''notes''"
    by code_simp
  ultimately show ?thesis
    by (auto simp: handleSTOU_def s_unique)
qed

text \<open>A server with \<open>alice\<close> logged in and a second client who is not.\<close>

definition s_world :: world where
  "s_world = \<lparr>w_fs = s_fs, w_tracker = tracker s_alice, w_conns = [s_alice, s_conn]\<rparr>"

definition s_homes :: "loc set" where
  "s_homes = {[''srv'', ''alice''], [''srv'', ''bob'']}"

lemma s_attached: "attach \<lparr>w_fs = s_fs, w_tracker = tracker s_alice, w_conns = cs\<rparr> s_alice = s_alice"
  by (simp add: attach_def s_alice_def s_conn_def)

lemma s_homes_ok: "homes s_homes s_fs"
  using s_good
  by (simp add: homes_def s_homes_def parent_dir_def valid_name_def) (simp add: s_fs_def kind_at_def dir_node_def)

lemma s_tenants: "\<forall>c\<in>set (w_conns s_world). tenant (account_in s_homes) s_homes c" "tenant (account_in s_homes) s_homes s_conn"
proof -
  have h: "spells ''/srv/alice'' [''srv'', ''alice'']" "spells ''/srv/bob'' [''srv'', ''bob'']" "spells ''/'' []"
    by code_simp+
  then have u: "accounts_in (account_in s_homes) s_users" "account_in s_homes (s_user ''alice'' ''wonder'' ''/srv/alice'')"
    by (simp_all add: accounts_in_def account_in_def s_users_def s_user_def s_homes_def)
  then show c: "tenant (account_in s_homes) s_homes s_conn"
    using h by (auto simp: tenant_def s_conn_def default_config_def intro!: exI[of _ "[]"])
  have "\<exists>l. valid_loc l \<and> spells ''/srv/alice'' l"
    using h(1) by (intro exI[of _ "[''srv'', ''alice'']"]) (simp add: valid_name_def)
  then have "tenant (account_in s_homes) s_homes s_alice"
    using h u by (simp add: tenant_def s_alice_def s_conn_def default_config_def)
  then show "\<forall>c\<in>set (w_conns s_world). tenant (account_in s_homes) s_homes c"
    using c by (simp add: s_world_def)
qed

text \<open>A server with one account, which may read and list.\<close>

definition s_guest :: ftp_user where
  "s_guest = (s_user ''guest'' ''guest'' ''/srv/alice'')\<lparr>u_permissions := [''read'', ''list:/d'']\<rparr>"

definition s_public :: conn where
  "s_public = s_conn\<lparr>user_manager := \<lparr>users = [(''guest'', s_guest)], users_file = []\<rparr>\<rparr>"

lemma s_guest_reads: "tenant (readers_in s_homes) s_homes s_public" "fs s_public = s_fs"
proof -
  have "spells ''/srv/alice'' [''srv'', ''alice'']" "spells ''/'' []" "reader s_guest"
    by code_simp+
  moreover have "u_home s_guest = ''/srv/alice''"
    by (simp add: s_guest_def s_user_def)
  ultimately have "readers_in s_homes s_guest" "\<exists>l. valid_loc l \<and> spells ''/'' l"
    by (auto simp: readers_in_def account_in_def s_homes_def intro!: exI[of _ "[]"])
  then show "tenant (readers_in s_homes) s_homes s_public"
    by (simp add: tenant_def s_public_def s_conn_def accounts_in_def default_config_def)
qed (simp add: s_public_def)

end
