(* ===== verification/Connection_Manager.thy ===== *)
theory Connection_Manager
  imports Dispatch
begin

text \<open>
  \<open>core/connection_manager.cpp\<close>: the list of open connections, the pool, the two maintenance
  threads and the shutdown. Connections are shared objects, so they live in a store
  (\<open>cm_heap\<close>) and the vectors hold pointers to it; \<open>None\<close> is the null pointer. The session tracker
  is shared by all of them. A pass of a maintenance thread holds the mutex of its vector, so it
  is one step.

  A connection that loses its last reference runs its destructor, which calls \<open>stop\<close>.
\<close>

type_synonym pointer = "nat option"

record conn_manager =
  cm_heap :: "nat \<Rightarrow> conn"
  cm_connections :: "pointer list"
  cm_pool :: "pointer list"
  cm_pool_size :: nat
  cm_running :: bool
  cm_tracker :: session_tracker

definition new_manager :: "(nat \<Rightarrow> conn) \<Rightarrow> session_tracker \<Rightarrow> conn_manager" where
  "new_manager heap t =
     \<lparr>cm_heap = heap, cm_connections = [], cm_pool = [], cm_pool_size = 10, cm_running = False,
      cm_tracker = t\<rparr>"

definition is_live :: "conn_manager \<Rightarrow> pointer \<Rightarrow> bool" where
  "is_live m p = (case p of None \<Rightarrow> False | Some i \<Rightarrow> active (cm_heap m i))"

text \<open>\<open>connection->stop()\<close> on the shared state.\<close>

definition stop_pointer :: "pointer \<Rightarrow> conn_manager \<Rightarrow> conn_manager" where
  "stop_pointer p m = (case p of
     None \<Rightarrow> m
   | Some i \<Rightarrow>
       let c = stop ((cm_heap m i)\<lparr>tracker := cm_tracker m\<rparr>)
       in m\<lparr>cm_heap := (cm_heap m)(i := c), cm_tracker := tracker c\<rparr>)"

definition cm_start :: "conn_manager \<Rightarrow> conn_manager" where
  "cm_start m = (if cm_running m then m else m\<lparr>cm_running := True\<rparr>)"

definition addConnection :: "pointer \<Rightarrow> conn_manager \<Rightarrow> conn_manager" where
  "addConnection p m = m\<lparr>cm_connections := cm_connections m @ [p]\<rparr>"

definition removeConnection :: "pointer \<Rightarrow> conn_manager \<Rightarrow> conn_manager" where
  "removeConnection p m = m\<lparr>cm_connections := filter (\<lambda>q. q \<noteq> p) (cm_connections m)\<rparr>"

definition stopAllConnections :: "conn_manager \<Rightarrow> conn_manager" where
  "stopAllConnections m = (fold stop_pointer (cm_connections m) m)\<lparr>cm_connections := []\<rparr>"

definition getConnectionCount :: "conn_manager \<Rightarrow> nat" where
  "getConnectionCount m = length (cm_connections m)"

text \<open>One pass over a vector: stop and erase what is not active.\<close>

fun sweep :: "pointer list \<Rightarrow> conn_manager \<Rightarrow> pointer list \<times> conn_manager" where
  "sweep [] m = ([], m)"
| "sweep (p # ps) m =
     (if is_live m p then (let (qs, m) = sweep ps m in (p # qs, m)) else sweep ps (stop_pointer p m))"

definition cleanup_pass :: "conn_manager \<Rightarrow> conn_manager" where
  "cleanup_pass m = (let (ps, m') = sweep (cm_connections m) m in m'\<lparr>cm_connections := ps\<rparr>)"

definition pool_pass :: "conn_manager \<Rightarrow> conn_manager" where
  "pool_pass m = (let (ps, m') = sweep (cm_pool m) m in m'\<lparr>cm_pool := ps\<rparr>)"

text \<open>The destructor of an object that no vector refers to any more.\<close>

definition release_pointer :: "pointer \<Rightarrow> conn_manager \<Rightarrow> conn_manager" where
  "release_pointer p m =
     (if p \<in> set (cm_connections m) \<or> p \<in> set (cm_pool m) then m else stop_pointer p m)"

definition acquireConnection :: "conn_manager \<Rightarrow> pointer \<times> conn_manager" where
  "acquireConnection m =
     (if cm_pool m \<noteq> [] then
        let p = last (cm_pool m); m = m\<lparr>cm_pool := butlast (cm_pool m)\<rparr>
        in if is_live m p then (p, m) else (None, release_pointer p m)
      else (None, m))"

definition releaseConnection :: "pointer \<Rightarrow> conn_manager \<Rightarrow> conn_manager" where
  "releaseConnection p m =
     (if \<not> is_live m p then m
      else if length (cm_pool m) < cm_pool_size m then m\<lparr>cm_pool := cm_pool m @ [p]\<rparr>
      else stop_pointer p m)"

lemma stop_pointer_fields [simp]:
  "cm_connections (stop_pointer p m) = cm_connections m" "cm_pool (stop_pointer p m) = cm_pool m"
  "cm_pool_size (stop_pointer p m) = cm_pool_size m" "cm_running (stop_pointer p m) = cm_running m"
  by (simp_all add: stop_pointer_def Let_def split: option.split)

function trim_pool :: "conn_manager \<Rightarrow> conn_manager" where
  "trim_pool m =
     (if cm_pool_size m < length (cm_pool m)
      then trim_pool (stop_pointer (last (cm_pool m)) (m\<lparr>cm_pool := butlast (cm_pool m)\<rparr>)) else m)"
  by pat_completeness auto
termination
  by (relation "measure (\<lambda>m. length (cm_pool m))") auto

declare trim_pool.simps [simp del]

definition setPoolSize :: "nat \<Rightarrow> conn_manager \<Rightarrow> conn_manager" where
  "setPoolSize n m = trim_pool (m\<lparr>cm_pool_size := n\<rparr>)"

text \<open>Shutdown: the threads are joined, all connections stopped, the pool cleared.\<close>

definition cm_stop :: "conn_manager \<Rightarrow> conn_manager" where
  "cm_stop m =
     (if \<not> cm_running m then m
      else let m = stopAllConnections (m\<lparr>cm_running := False\<rparr>)
           in (fold stop_pointer (cm_pool m) m)\<lparr>cm_pool := []\<rparr>)"

subsection \<open>Liveness of what stays\<close>

lemma stop_inactive [simp]: "active (stop c) = False"
  by (simp add: stop_def Let_def closeDataSocket_def close_fd_def)

lemma stop_pointer_live:
  "is_live (stop_pointer p m) q = (is_live m q \<and> q \<noteq> p)"
proof (cases p)
  case None
  then show ?thesis
    by (cases q) (simp_all add: stop_pointer_def is_live_def)
next
  case (Some i)
  then show ?thesis
    by (cases q) (auto simp: stop_pointer_def is_live_def Let_def)
qed

lemma stop_pointer_dead: "\<not> is_live m p \<Longrightarrow> is_live (stop_pointer p m) = is_live m"
  by (rule ext) (auto simp: stop_pointer_live)

lemma stop_pointer_heap: "Some i \<noteq> p \<Longrightarrow> cm_heap (stop_pointer p m) i = cm_heap m i"
  by (auto simp: stop_pointer_def Let_def split: option.split)

lemma sweep_kept: "fst (sweep ps m) = filter (is_live m) ps"
  by (induction ps m rule: sweep.induct) (auto simp: split_def Let_def stop_pointer_dead cong: filter_cong)

lemma sweep_fields:
  "cm_connections (snd (sweep ps m)) = cm_connections m \<and> cm_pool (snd (sweep ps m)) = cm_pool m \<and>
   cm_pool_size (snd (sweep ps m)) = cm_pool_size m \<and> cm_running (snd (sweep ps m)) = cm_running m"
  by (induction ps m rule: sweep.induct) (auto simp: split_def Let_def)

lemma sweep_heap: "is_live m (Some i) \<Longrightarrow> cm_heap (snd (sweep ps m)) i = cm_heap m i"
proof (induction ps m rule: sweep.induct)
  case (2 p ps m)
  then show ?case
    by (cases "p = Some i") (auto simp: split_def Let_def stop_pointer_dead stop_pointer_heap)
qed simp

lemma cleanup_simps:
  "cm_connections (cleanup_pass m) = filter (is_live m) (cm_connections m)"
  "cm_heap (cleanup_pass m) = cm_heap (snd (sweep (cm_connections m) m))"
  "cm_tracker (cleanup_pass m) = cm_tracker (snd (sweep (cm_connections m) m))"
  using sweep_kept[of "cm_connections m" m] by (auto simp: cleanup_pass_def split_def Let_def)

lemma trim_pool_size: "length (cm_pool (trim_pool m)) \<le> cm_pool_size (trim_pool m)"
proof (induction m rule: trim_pool.induct)
  case (1 m)
  then show ?case
    by (subst (1 2) trim_pool.simps) (auto simp: trim_pool.simps[of m])
qed

subsection \<open>The books of the session tracker\<close>

definition registered_as :: "conn_manager \<Rightarrow> string \<Rightarrow> nat \<Rightarrow> bool" where
  "registered_as m k i =
     (has_tracker (cm_heap m i) \<and> session_registered (cm_heap m i) \<and> username (cm_heap m i) = k)"

text \<open>The tracker counts, for every account, the registered connections among \<open>ids\<close>.\<close>

definition accounted :: "nat list \<Rightarrow> conn_manager \<Rightarrow> bool" where
  "accounted ids m =
     (distinct ids \<and> (\<forall>k. k \<noteq> [] \<longrightarrow>
        getCountForUser (cm_tracker m) k = length (filter (registered_as m k) ids)))"

lemma stop_tracker:
  "tracker (stop c) = (if has_tracker c \<and> session_registered c
                       then unregisterSession (tracker c) (username c) (vhost_name c) else tracker c)"
  by (simp add: stop_def Let_def closeDataSocket_def close_fd_def)

lemma stop_unregistered: "\<not> (has_tracker (stop c) \<and> session_registered (stop c))"
  by (auto simp: stop_def Let_def closeDataSocket_def close_fd_def)

lemma filter_one:
  assumes "distinct ids" "i \<in> set ids" "P i"
  shows "length (filter (\<lambda>j. P j \<and> j \<noteq> i) ids) = length (filter P ids) - 1"
proof -
  have "remove1 i (filter P ids) = filter (\<lambda>j. P j \<and> j \<noteq> i) ids"
    using assms(1) by (simp add: distinct_remove1_removeAll removeAll_filter_not_eq eq_commute[of i] conj_commute)
  from arg_cong[OF this, of length] show ?thesis
    using assms by (simp add: length_remove1)
qed

lemma stop_accounted:
  assumes "accounted ids m" "i \<in> set ids"
  shows "accounted ids (stop_pointer (Some i) m)"
proof -
  let ?m = "stop_pointer (Some i) m"
  have reg: "registered_as ?m k j = (registered_as m k j \<and> j \<noteq> i)" for k j
    using stop_unregistered by (auto simp: registered_as_def stop_pointer_def Let_def)
  have "getCountForUser (cm_tracker ?m) k =
      getCountForUser (cm_tracker m) k - (if registered_as m k i then 1 else 0)" if "k \<noteq> []" for k
    using that by (auto simp: stop_pointer_def Let_def stop_tracker registered_as_def tracker.unreg_users vhost_name_def)
  moreover have "length (filter (\<lambda>j. registered_as m k j \<and> j \<noteq> i) ids) =
      length (filter (registered_as m k) ids) - (if registered_as m k i then 1 else 0)" for k
  proof (cases "registered_as m k i")
    case True
    then show ?thesis
      using filter_one[of ids i "registered_as m k"] assms by (simp add: accounted_def)
  next
    case False
    then have "filter (\<lambda>j. registered_as m k j \<and> j \<noteq> i) ids = filter (registered_as m k) ids"
      by (auto intro: filter_cong)
    then show ?thesis
      using False by simp
  qed
  moreover have "registered_as ?m k = (\<lambda>j. registered_as m k j \<and> j \<noteq> i)" for k
    using reg by blast
  ultimately show ?thesis
    using assms(1) unfolding accounted_def by simp
qed

lemma stop_drops: "accounted ids (stop_pointer (Some i) m) \<Longrightarrow>
   accounted (removeAll i ids) (stop_pointer (Some i) m)"
proof -
  have "filter (registered_as (stop_pointer (Some i) m) k) (removeAll i ids) =
      filter (registered_as (stop_pointer (Some i) m) k) ids" for k
    using stop_unregistered
    by (induction ids) (auto simp: registered_as_def stop_pointer_def Let_def)
  then show "accounted ids (stop_pointer (Some i) m) \<Longrightarrow> ?thesis"
    by (simp add: accounted_def distinct_removeAll)
qed

lemma sweep_accounted:
  "accounted ids m \<Longrightarrow> distinct js \<Longrightarrow> set js \<subseteq> set ids \<Longrightarrow>
   accounted (filter (\<lambda>i. i \<notin> set js \<or> is_live m (Some i)) ids) (snd (sweep (map Some js) m))"
proof (induction js arbitrary: ids m)
  case (Cons j js)
  show ?case
  proof (cases "is_live m (Some j)")
    case True
    have "filter (\<lambda>i. i \<notin> set js \<or> is_live m (Some i)) ids =
        filter (\<lambda>i. i \<notin> set (j # js) \<or> is_live m (Some i)) ids"
      using True by (auto intro: filter_cong)
    then show ?thesis
      using True Cons.IH[OF Cons.prems(1)] Cons.prems(2,3) by (simp add: split_def Let_def)
  next
    case False
    let ?m = "stop_pointer (Some j) m"
    have "accounted (removeAll j ids) ?m"
      using Cons.prems by (intro stop_drops stop_accounted) auto
    then have "accounted (filter (\<lambda>i. i \<notin> set js \<or> is_live ?m (Some i)) (removeAll j ids)) (snd (sweep (map Some js) ?m))"
      using Cons.prems by (intro Cons.IH) auto
    moreover have "filter (\<lambda>i. i \<notin> set js \<or> is_live ?m (Some i)) (removeAll j ids) =
        filter (\<lambda>i. i \<notin> set (j # js) \<or> is_live m (Some i)) ids"
      using False stop_pointer_dead[OF False]
      by (auto simp: removeAll_filter_not_eq intro: filter_cong)
    ultimately show ?thesis
      using False by simp
  qed
qed simp

lemma cleanup_accounted:
  assumes "accounted ids m" "cm_connections m = map Some ids"
  shows "accounted (filter (\<lambda>i. is_live m (Some i)) ids) (cleanup_pass m)"
    "cm_connections (cleanup_pass m) = map Some (filter (\<lambda>i. is_live m (Some i)) ids)"
proof -
  have "filter (\<lambda>i. i \<notin> set ids \<or> is_live m (Some i)) ids = filter (\<lambda>i. is_live m (Some i)) ids"
    by (auto intro: filter_cong)
  then show "accounted (filter (\<lambda>i. is_live m (Some i)) ids) (cleanup_pass m)"
    using sweep_accounted[OF assms(1), of ids] assms
    by (simp add: accounted_def registered_as_def cleanup_simps)
  show "cm_connections (cleanup_pass m) = map Some (filter (\<lambda>i. is_live m (Some i)) ids)"
    using assms(2) by (simp add: cleanup_simps filter_map comp_def)
qed

lemma stop_all_accounted:
  "accounted ids m \<Longrightarrow> accounted [] (fold stop_pointer (map Some ids) m)"
proof (induction ids arbitrary: m)
  case (Cons i ids)
  have "accounted (removeAll i (i # ids)) (stop_pointer (Some i) m)"
    using Cons.prems by (intro stop_drops stop_accounted) simp_all
  moreover have "removeAll i (i # ids) = ids"
    using Cons.prems by (simp add: accounted_def)
  ultimately show ?case
    using Cons.IH by simp
qed simp

lemma stopAll_clears:
  assumes "accounted ids m" "cm_connections m = map Some ids" "k \<noteq> []"
  shows "getCountForUser (cm_tracker (stopAllConnections m)) k = 0"
  using stop_all_accounted[OF assms(1)] assms(2,3) by (simp add: stopAllConnections_def accounted_def)

end
