(* ===== verification/Rate_Limiter.thy ===== *)
theory Rate_Limiter
  imports Std_Map
begin

text \<open>
  \<open>security/rate_limiter.cpp\<close>: a counter per client address over windows of one minute. The
  server asks \<open>isAllowed\<close> and then calls \<open>recordRequest\<close>; each reads the steady clock
  (nanoseconds since its epoch, where 0 is the default time point) under its own lock, so a
  request comes with two readings. The connection limit is stored and never read.
\<close>

record rate_entry =
  request_count :: int
  window_start :: int

record rate_limiter =
  rate_limits :: "(string, rate_entry) std_map"
  rl_max_requests :: int
  rl_max_connections :: int

definition new_limiter :: rate_limiter where
  "new_limiter = \<lparr>rate_limits = [], rl_max_requests = 60, rl_max_connections = 10\<rparr>"

definition window_duration :: int where
  "window_duration = 60 * 10 ^ 9"

text \<open>The entry of \<open>operator[]\<close> after the check of its window.\<close>

definition current_window :: "int \<Rightarrow> rate_entry \<Rightarrow> rate_entry" where
  "current_window now e =
     (if window_start e = 0 \<or> window_duration \<le> now - window_start e
      then \<lparr>request_count = 0, window_start = now\<rparr> else e)"

definition entry_of :: "rate_limiter \<Rightarrow> string \<Rightarrow> rate_entry" where
  "entry_of l ip = (case map_of (rate_limits l) ip of
     None \<Rightarrow> \<lparr>request_count = 0, window_start = 0\<rparr> | Some e \<Rightarrow> e)"

definition limiter_allows :: "int \<Rightarrow> string \<Rightarrow> rate_limiter \<Rightarrow> bool \<times> rate_limiter" where
  "limiter_allows now ip l =
     (let e = current_window now (entry_of l ip)
      in (request_count e < rl_max_requests l, l\<lparr>rate_limits := map_put ip e (rate_limits l)\<rparr>))"

definition recordRequest :: "int \<Rightarrow> string \<Rightarrow> rate_limiter \<Rightarrow> rate_limiter" where
  "recordRequest now ip l =
     (let e = current_window now (entry_of l ip)
      in l\<lparr>rate_limits :=
             map_put ip (e\<lparr>request_count := request_count e + 1\<rparr>) (rate_limits l)\<rparr>)"

definition setRateLimit :: "int \<Rightarrow> rate_limiter \<Rightarrow> rate_limiter" where
  "setRateLimit n l = l\<lparr>rl_max_requests := n\<rparr>"

definition setConnectionLimit :: "int \<Rightarrow> rate_limiter \<Rightarrow> rate_limiter" where
  "setConnectionLimit n l = l\<lparr>rl_max_connections := n\<rparr>"

text \<open>What the server does with a request: the two clock readings and the address.\<close>

definition rate_check :: "int \<Rightarrow> int \<Rightarrow> string \<Rightarrow> rate_limiter \<Rightarrow> bool \<times> rate_limiter" where
  "rate_check t1 t2 ip l =
     (let (ok, l) = limiter_allows t1 ip l in if ok then (True, recordRequest t2 ip l) else (False, l))"

subsection \<open>One address at a time\<close>

lemma entry_of_put [simp]:
  "entry_of (l\<lparr>rate_limits := map_put ip e m\<rparr>) k = (if k = ip then e else entry_of (l\<lparr>rate_limits := m\<rparr>) k)"
  by (simp add: entry_of_def)

lemma rate_check_other:
  "k \<noteq> ip \<Longrightarrow> entry_of (snd (rate_check t1 t2 ip l)) k = entry_of l k"
  by (simp add: rate_check_def limiter_allows_def recordRequest_def Let_def entry_of_def)

lemma rate_check_max [simp]: "rl_max_requests (snd (rate_check t1 t2 ip l)) = rl_max_requests l"
  by (simp add: rate_check_def limiter_allows_def recordRequest_def Let_def)

text \<open>The effect on the entry of the address itself.\<close>

lemma rate_check_same:
  fixes l ip t1 t2
  defines "e \<equiv> current_window t1 (entry_of l ip)"
  defines "f \<equiv> current_window t2 e"
  shows "fst (rate_check t1 t2 ip l) = (request_count e < rl_max_requests l)"
    "entry_of (snd (rate_check t1 t2 ip l)) ip =
       (if request_count e < rl_max_requests l then f\<lparr>request_count := request_count f + 1\<rparr> else e)"
  by (simp_all add: rate_check_def limiter_allows_def recordRequest_def Let_def e_def f_def)

subsection \<open>Runs\<close>

text \<open>The recording times of the requests of one address that are let through.\<close>

fun admitted :: "string \<Rightarrow> rate_limiter \<Rightarrow> (int \<times> int \<times> string) list \<Rightarrow> int list" where
  "admitted k l [] = []"
| "admitted k l ((t1, t2, ip) # rs) =
     (if fst (rate_check t1 t2 ip l) \<and> ip = k
      then t2 # admitted k (snd (rate_check t1 t2 ip l)) rs
      else admitted k (snd (rate_check t1 t2 ip l)) rs)"

text \<open>The clock does not run backwards.\<close>

fun clocked :: "int \<Rightarrow> (int \<times> int \<times> string) list \<Rightarrow> bool" where
  "clocked now [] = True"
| "clocked now ((t1, t2, ip) # rs) = (now \<le> t1 \<and> t1 \<le> t2 \<and> clocked t2 rs)"

text \<open>How many more requests may fall into the minute that starts at \<open>a\<close>, when the clock shows
  \<open>now\<close> and the entry has the window start \<open>w\<close> and the count \<open>n\<close>.\<close>

definition room :: "int \<Rightarrow> int \<Rightarrow> int \<Rightarrow> rate_entry \<Rightarrow> int" where
  "room m a now e =
     (if a + window_duration \<le> now then 0
      else if a \<le> window_start e then m - request_count e
      else if a \<le> now then 2 * m - request_count e else 2 * m)"

definition entry_ok :: "int \<Rightarrow> int \<Rightarrow> rate_entry \<Rightarrow> bool" where
  "entry_ok m now e = (0 \<le> request_count e \<and> request_count e \<le> m \<and> window_start e \<le> now)"

lemma window_ok:
  assumes "entry_ok m now e" "now \<le> t" "0 \<le> m"
  shows "entry_ok m t (current_window t e)"
  using assms by (auto simp: entry_ok_def current_window_def)

lemma window_room:
  assumes "entry_ok m now e" "now \<le> t" "0 \<le> m" "0 < a"
  shows "room m a t (current_window t e) \<le> room m a now e"
  using assms by (auto simp: entry_ok_def current_window_def room_def window_duration_def)

lemma entry_later: "entry_ok m s g \<Longrightarrow> s \<le> t \<Longrightarrow> entry_ok m t g"
  by (simp add: entry_ok_def)

lemma room_later:
  assumes "entry_ok m s g" "s \<le> t" "0 \<le> m"
  shows "room m a t g \<le> room m a s g"
  using assms by (auto simp: room_def entry_ok_def)

lemma room_nonneg: "entry_ok m now e \<Longrightarrow> 0 \<le> room m a now e"
  by (auto simp: room_def entry_ok_def)

lemma count_room:
  assumes "entry_ok m t e" "request_count e < m"
  shows "room m a t (e\<lparr>request_count := request_count e + 1\<rparr>) +
           (if a \<le> t \<and> t < a + window_duration then 1 else 0) \<le> room m a t e"
  using assms by (auto simp: room_def entry_ok_def)

lemma admitted_room:
  assumes "clocked now rs" "entry_ok (rl_max_requests l) now (entry_of l k)" "0 \<le> rl_max_requests l" "0 < a"
  shows "int (length (filter (\<lambda>t. a \<le> t \<and> t < a + window_duration) (admitted k l rs)))
           \<le> room (rl_max_requests l) a now (entry_of l k)"
  using assms
proof (induction rs arbitrary: now l)
  case Nil
  then show ?case
    by (simp add: room_nonneg)
next
  case (Cons r rs)
  obtain t1 t2 ip where r: "r = (t1, t2, ip)"
    by (cases r)
  let ?l = "snd (rate_check t1 t2 ip l)" and ?m = "rl_max_requests l"
  let ?inside = "\<lambda>t. a \<le> t \<and> t < a + window_duration"
  let ?n = "\<lambda>ts. int (length (filter ?inside ts))"
  define e where "e = current_window t1 (entry_of l k)"
  define f where "f = current_window t2 e"
  have t: "now \<le> t1" "t1 \<le> t2" "clocked t2 rs"
    using Cons.prems(1) by (simp_all add: r)
  have e: "entry_ok ?m t1 e" "room ?m a t1 e \<le> room ?m a now (entry_of l k)"
    unfolding e_def using window_ok window_room Cons.prems t(1) by blast+
  have f: "entry_ok ?m t2 f" "room ?m a t2 f \<le> room ?m a t1 e"
    unfolding f_def using window_ok window_room Cons.prems t(2) e(1) by blast+
  have later: "entry_ok ?m t2 g" "room ?m a t2 g \<le> room ?m a s g" if "entry_ok ?m s g" "s \<le> t2" for s g
    using that Cons.prems(3) by (auto intro: entry_later room_later)
  have step: "?n (admitted k ?l rs) \<le> room ?m a t2 (entry_of ?l k)" if "entry_ok ?m t2 (entry_of ?l k)"
    using Cons.IH[OF t(3), of ?l] that Cons.prems by simp
  show ?case
  proof (cases "ip = k")
    case False
    then have "entry_of ?l k = entry_of l k" "admitted k l (r # rs) = admitted k ?l rs"
      by (simp_all add: r rate_check_other)
    then show ?thesis
      using step later[of now "entry_of l k"] Cons.prems(2) t by fastforce
  next
    case True
    note same = rate_check_same[where l = l and ip = k and ?t1.0 = t1 and ?t2.0 = t2, folded e_def, folded f_def]
    show ?thesis
    proof (cases "request_count e < ?m")
      case False
      then have "entry_of ?l k = e" "admitted k l (r # rs) = admitted k ?l rs"
        using same True by (simp_all add: r)
      then show ?thesis
        using step later[of t1 e] e t by fastforce
    next
      case ok: True
      let ?g = "f\<lparr>request_count := request_count f + 1\<rparr>"
      have "request_count f \<le> request_count e \<or> request_count f = 0"
        by (simp add: f_def current_window_def)
      then have less: "request_count f < ?m"
        using ok e(1) by (auto simp: entry_ok_def)
      have g: "entry_of ?l k = ?g" "admitted k l (r # rs) = t2 # admitted k ?l rs"
        using same True ok by (simp_all add: r)
      then have "entry_ok ?m t2 (entry_of ?l k)"
        using f(1) less by (simp add: entry_ok_def)
      then show ?thesis
        using step count_room[OF f(1) less, of a] e(2) f(2) g by auto
    qed
  qed
qed

end
