(* ===== verification/Access_Control.thy ===== *)
theory Access_Control
  imports Prelude "HOL-Library.Word" "HOL-Library.Signed_Division"
begin

unbundle bit_operations_syntax

text \<open>
  \<open>security/ip_access_control.cpp\<close>: white and black lists of addresses and CIDR blocks. The
  parser of a block has three outcomes: an answer, an exception of \<open>std::stoi\<close> (which nobody
  catches), and a read behind the end of an array of four, which is undefined behaviour.
\<close>

datatype matched = Answer bool | Throws | Undefined

record access_control =
  whitelist :: "string list"
  blacklist :: "string list"

definition addWhitelist :: "string \<Rightarrow> access_control \<Rightarrow> access_control" where
  "addWhitelist ip a = a\<lparr>whitelist := whitelist a @ [ip]\<rparr>"

definition addBlacklist :: "string \<Rightarrow> access_control \<Rightarrow> access_control" where
  "addBlacklist ip a = a\<lparr>blacklist := blacklist a @ [ip]\<rparr>"

definition clearWhitelist :: "access_control \<Rightarrow> access_control" where
  "clearWhitelist a = a\<lparr>whitelist := []\<rparr>"

definition clearBlacklist :: "access_control \<Rightarrow> access_control" where
  "clearBlacklist a = a\<lparr>blacklist := []\<rparr>"

definition matchesIP :: "string \<Rightarrow> string \<Rightarrow> bool" where
  "matchesIP a b = (a = b)"

text \<open>Four calls of \<open>getline\<close>: on an exhausted stream the call leaves the last token in place.\<close>

definition quad_parts :: "string \<Rightarrow> string list" where
  "quad_parts s = (let fs = split_on CHR ''.'' s in take 4 (fs @ replicate 4 (last fs)))"

definition quad_ints :: "string \<Rightarrow> int list option" where
  "quad_ints s = those (map stoi (quad_parts s))"

text \<open>The loop over the whole bytes; \<open>None\<close> when it runs through.\<close>

fun byte_loop :: "int list \<Rightarrow> int list \<Rightarrow> nat \<Rightarrow> matched option" where
  "byte_loop xs ys 0 = None"
| "byte_loop (x # xs) (y # ys) (Suc n) = (if x \<noteq> y then Some (Answer False) else byte_loop xs ys n)"
| "byte_loop xs ys (Suc n) = Some Undefined"

definition matchesCIDR :: "string \<Rightarrow> string \<Rightarrow> matched" where
  "matchesCIDR ip cidr =
     (case cut_at CHR ''/'' cidr of
        None \<Rightarrow> Answer (matchesIP ip cidr)
      | Some (network, len) \<Rightarrow>
          (case stoi len of
             None \<Rightarrow> Throws
           | Some prefix_len \<Rightarrow>
               (case (quad_ints ip, quad_ints network) of
                  (Some ip_bytes, Some net_bytes) \<Rightarrow>
                    (let mask_bytes = prefix_len sdiv 8; mask_bits = prefix_len smod 8
                     in case byte_loop ip_bytes net_bytes (nat mask_bytes) of
                          Some r \<Rightarrow> r
                        | None \<Rightarrow>
                            if 0 < mask_bits \<and> mask_bytes < 4 then
                              (let mask = push_bit (nat (8 - mask_bits)) 0xFF AND 0xFF
                               in Answer ((ip_bytes ! nat mask_bytes) AND mask =
                                          (net_bytes ! nat mask_bytes) AND mask))
                            else Answer True)
                | _ \<Rightarrow> Throws)))"

fun any_match :: "string \<Rightarrow> string list \<Rightarrow> matched" where
  "any_match ip [] = Answer False"
| "any_match ip (p # ps) =
     (case matchesCIDR ip p of
        Answer b \<Rightarrow> if b \<or> matchesIP ip p then Answer True else any_match ip ps
      | r \<Rightarrow> r)"

definition acl_allows :: "string \<Rightarrow> access_control \<Rightarrow> matched" where
  "acl_allows ip a =
     (case any_match ip (blacklist a) of
        Answer b \<Rightarrow>
          if b then Answer False
          else if whitelist a = [] then Answer True
          else any_match ip (whitelist a)
      | r \<Rightarrow> r)"

subsection \<open>Dotted quads\<close>

definition dotted :: "nat list \<Rightarrow> string" where
  "dotted a = join CHR ''.'' (map dec_of_nat a)"

definition is_quad :: "nat list \<Rightarrow> bool" where
  "is_quad a = (length a = 4 \<and> (\<forall>x\<in>set a. x < 256))"

text \<open>The address as the network sees it.\<close>

definition address :: "nat list \<Rightarrow> 32 word" where
  "address a = of_nat (foldl (\<lambda>v x. v * 256 + x) 0 a)"

lemma quadE:
  assumes "is_quad a"
  obtains w x y z where "a = [w, x, y, z]" "w < 256" "x < 256" "y < 256" "z < 256"
proof -
  from assms obtain w x y z where "a = [w, x, y, z]"
    by (auto simp: is_quad_def numeral_eq_Suc length_Suc_conv)
  then show ?thesis
    using that assms by (simp add: is_quad_def)
qed

lemma quad_ints_dotted:
  assumes "is_quad a"
  shows "quad_ints (dotted a) = Some (map int a)"
proof -
  obtain w x y z where a: "a = [w, x, y, z]" "w < 256" "x < 256" "y < 256" "z < 256"
    using assms by (rule quadE)
  have "CHR ''.'' \<notin> set (dec_of_nat n)" for n
    by (rule dec_digits_only) (simp add: digit_val_def)
  then have "split_on CHR ''.'' (dotted a) = map dec_of_nat a"
    unfolding dotted_def by (intro split_on_join) (auto simp: a)
  then show ?thesis
    using a by (simp add: quad_ints_def quad_parts_def stoi_dec)
qed

lemma no_slash: "is_quad a \<Longrightarrow> CHR ''/'' \<notin> set (dotted a)"
proof -
  have "CHR ''/'' \<notin> set (dec_of_nat n)" for n
    by (rule dec_digits_only) (simp add: digit_val_def)
  then show "is_quad a \<Longrightarrow> ?thesis"
    by (elim quadE) (simp add: dotted_def)
qed

subsection \<open>Bits and bytes\<close>

lemma div_split:
  assumes "r < 2 ^ j" "k \<le> 8" "(x :: nat) < 256"
  shows "((h * 256 + x) * 2 ^ j + r) div 2 ^ (j + (8 - k)) = h * 2 ^ k + x div 2 ^ (8 - k)"
proof -
  have "((h * 256 + x) * 2 ^ j + r) div 2 ^ (j + (8 - k)) = (h * 256 + x) div 2 ^ (8 - k)"
    using assms(1) by (simp add: power_add div_mult2_eq)
  moreover have "(256 :: nat) = 2 ^ k * 2 ^ (8 - k)"
    using assms(2) by (simp flip: power_add)
  then have "h * 256 + x = x + (h * 2 ^ k) * 2 ^ (8 - k)"
    by (simp add: mult.assoc)
  ultimately show ?thesis
    by (simp only: div_mult_self1 add.commute) simp
qed

lemma byte_div: "x < 256 \<Longrightarrow> k \<le> 8 \<Longrightarrow> (x :: nat) div 2 ^ (8 - k) < 2 ^ k"
  by (rule less_mult_imp_div_less) (simp flip: power_add)

lemma high_low_eq:
  assumes "(y :: nat) < 2 ^ k" "y' < 2 ^ k"
  shows "h * 2 ^ k + y = h' * 2 ^ k + y' \<longleftrightarrow> h = h' \<and> y = y'"
proof
  assume *: "h * 2 ^ k + y = h' * 2 ^ k + y'"
  show "h = h' \<and> y = y'"
    using assms arg_cong[OF *, of "\<lambda>v. v div 2 ^ k"] arg_cong[OF *, of "\<lambda>v. v mod 2 ^ k"] by simp
qed simp

lemma masked:
  assumes "x < 256" "n \<le> 8"
  shows "int x AND (push_bit n 255 AND 255) = push_bit n (int (x div 2 ^ n))"
proof -
  have "int x AND (push_bit n (mask 8) AND mask 8) = push_bit n (drop_bit n (int x))"
  proof (rule bit_eqI)
    fix i
    have "int x = take_bit 8 (int x)"
      using assms(1) by (simp add: take_bit_int_eq_self)
    then have "bit (int x) i \<Longrightarrow> i < 8"
      by (metis bit_take_bit_iff)
    then show "bit (int x AND (push_bit n (mask 8) AND mask 8)) i = bit (push_bit n (drop_bit n (int x))) i"
      by (auto simp: bit_simps)
  qed
  then show ?thesis
    by (simp add: drop_bit_eq_div mask_eq_exp_minus_1 zdiv_int)
qed

text \<open>The comparison of the masked bytes.\<close>

definition byte_eq :: "nat \<Rightarrow> nat \<Rightarrow> nat \<Rightarrow> bool" where
  "byte_eq k x y = (x div 2 ^ (8 - k) = y div 2 ^ (8 - k))"

lemma masked_eq:
  assumes "x < 256" "y < 256" "0 < k" "k < 8"
  shows "(int x AND (push_bit (nat (8 - int k)) 255 AND 255) = int y AND (push_bit (nat (8 - int k)) 255 AND 255))
           = byte_eq k x y"
proof -
  have n: "nat (8 - int k) = 8 - k"
    using assms by simp
  show ?thesis
    using masked[OF assms(1), of "8 - k"] masked[OF assms(2), of "8 - k"]
    by (simp add: n byte_eq_def push_bit_eq_mult)
qed

lemma split_value:
  assumes "x < 256" "y < 256" "k \<le> 8" "r < 2 ^ j" "r' < 2 ^ j"
  shows "(((h * 256 + x) * 2 ^ j + r) div 2 ^ (j + (8 - k)) = ((h' * 256 + y) * 2 ^ j + r') div 2 ^ (j + (8 - k)))
           \<longleftrightarrow> h = h' \<and> byte_eq k x y"
  unfolding div_split[OF assms(4,3,1)] div_split[OF assms(5,3,2)] byte_eq_def
  by (rule high_low_eq[OF byte_div[OF assms(1,3)] byte_div[OF assms(2,3)]])

lemma address_eq:
  assumes "is_quad a" "is_quad b"
  shows "drop_bit n (address a) = drop_bit n (address b) \<longleftrightarrow>
     foldl (\<lambda>v x. v * 256 + x) 0 a div 2 ^ n = foldl (\<lambda>v x. v * 256 + x) 0 b div 2 ^ n"
proof -
  have u: "unat (address c) = foldl (\<lambda>v x. v * 256 + x) 0 c" if "is_quad c" for c
  proof -
    have "foldl (\<lambda>v x. v * 256 + x) 0 c < 2 ^ LENGTH(32)"
      using that by (elim quadE) simp
    then show ?thesis
      unfolding address_def by (simp only: unsigned_of_nat take_bit_nat_eq_self of_nat_id)
  qed
  have "unat (drop_bit n v) = unat v div 2 ^ n" for v :: "32 word"
    unfolding unat_drop_bit_eq by (rule drop_bit_eq_div)
  then show ?thesis
    using u[OF assms(1)] u[OF assms(2)] by (simp only: word_unat_eq_iff)
qed

lemma byte_loop_take:
  "n \<le> length xs \<Longrightarrow> n \<le> length ys \<Longrightarrow>
   byte_loop xs ys n = (if take n xs = take n ys then None else Some (Answer False))"
  by (induction xs ys n rule: byte_loop.induct) auto

lemma byte_pair: "x < 256 \<Longrightarrow> y < 256 \<Longrightarrow> h * 256 + x = h' * 256 + y \<longleftrightarrow> h = h' \<and> x = (y :: nat)"
  using high_low_eq[of x 8 y h h'] by simp

lemma matchesCIDR_quads:
  assumes "is_quad a" "is_quad b" "p \<le> 32"
  shows "matchesCIDR (dotted a) (dotted b @ ''/'' @ dec_of_nat p) =
     (case byte_loop (map int a) (map int b) (p div 8) of
        Some r \<Rightarrow> r
      | None \<Rightarrow>
          Answer (if 0 < p mod 8 \<and> p div 8 < 4 then byte_eq (p mod 8) (a ! (p div 8)) (b ! (p div 8)) else True))"
proof -
  have sd: "int p sdiv 8 = int (p div 8)" "int p smod 8 = int (p mod 8)"
    by (cases "p = 0"; simp add: signed_divide_int_def signed_modulo_int_def zdiv_int zmod_int)+
  have nth: "p div 8 < 4 \<Longrightarrow> (map int a) ! (p div 8) = int (a ! (p div 8))"
       "p div 8 < 4 \<Longrightarrow> (map int b) ! (p div 8) = int (b ! (p div 8))"
       "p div 8 < 4 \<Longrightarrow> a ! (p div 8) < 256" "p div 8 < 4 \<Longrightarrow> b ! (p div 8) < 256"
    using assms by (auto simp: is_quad_def)
  show ?thesis
    using assms nth cut_at_append[OF no_slash[OF assms(2)], of "dec_of_nat p"]
    by (simp add: matchesCIDR_def stoi_dec quad_ints_dotted sd masked_eq Let_def split: option.split)
qed

text \<open>A block of \<open>p\<close> bits matches exactly the addresses that agree with it in the first \<open>p\<close> bits.\<close>

lemma cidr_prefix:
  assumes "is_quad a" "is_quad b" "p \<le> 32"
  shows "matchesCIDR (dotted a) (dotted b @ ''/'' @ dec_of_nat p) =
         Answer (drop_bit (32 - p) (address a) = drop_bit (32 - p) (address b))"
proof -
  obtain w x y z where a: "a = [w, x, y, z]" "w < 256" "x < 256" "y < 256" "z < 256"
    using assms(1) by (rule quadE)
  obtain w' x' y' z' where b: "b = [w', x', y', z']" "w' < 256" "x' < 256" "y' < 256" "z' < 256"
    using assms(2) by (rule quadE)
  define k where "k = p mod 8"
  have k: "k \<le> 8"
    by (simp add: k_def)
  have eq0: "byte_eq 0 u v" if "u < 256" "v < 256" for u v
    using that by (simp add: byte_eq_def)
  let ?v = "foldl (\<lambda>v x. v * 256 + x) (0 :: nat)"
  have v: "?v a = (0 * 256 + w) * 2 ^ 24 + ((x * 256 + y) * 256 + z)" "?v b = (0 * 256 + w') * 2 ^ 24 + ((x' * 256 + y') * 256 + z')"
    "?v a = (w * 256 + x) * 2 ^ 16 + (y * 256 + z)" "?v b = (w' * 256 + x') * 2 ^ 16 + (y' * 256 + z')"
    "?v a = ((w * 256 + x) * 256 + y) * 2 ^ 8 + z" "?v b = ((w' * 256 + x') * 256 + y') * 2 ^ 8 + z'"
    "?v a = (((w * 256 + x) * 256 + y) * 256 + z) * 2 ^ 0 + 0" "?v b = (((w' * 256 + x') * 256 + y') * 256 + z') * 2 ^ 0 + 0"
    by (simp_all add: a(1) b(1))
  have r: "(x * 256 + y) * 256 + z < 2 ^ 24" "(x' * 256 + y') * 256 + z' < 2 ^ 24"
    "y * 256 + z < 2 ^ 16" "y' * 256 + z' < 2 ^ 16" "z < 2 ^ 8" "z' < 2 ^ 8" "(0 :: nat) < 2 ^ 0"
    using a b by simp_all
  note V = split_value[OF a(2) b(2) k r(1,2), where h = 0 and h' = 0] split_value[OF a(3) b(3) k r(3,4)]
    split_value[OF a(4) b(4) k r(5,6)] split_value[OF a(5) b(5) k r(7,7)]
  have p: "p = 8 * (p div 8) + k"
    by (simp add: k_def)
  have "p div 8 \<le> 4"
    using assms(3) by (simp add: div_le_mono[of p 32 8, simplified])
  then consider "p div 8 = 0" | "p div 8 = 1" | "p div 8 = 2" | "p div 8 = 3" | "p div 8 = 4" "k = 0"
    using p assms(3) by linarith
  then show ?thesis
  proof cases
    case 1
    then have "32 - p = 24 + (8 - k)"
      using p k by simp
    then have "drop_bit (32 - p) (address a) = drop_bit (32 - p) (address b) \<longleftrightarrow> (0 :: nat) = 0 \<and> byte_eq k w w'"
      unfolding address_eq[OF assms(1,2)] by (simp only: v(1,2) V(1))
    then show ?thesis
      using 1 eq0 a b unfolding matchesCIDR_quads[OF assms] by (simp add: k_def byte_loop_take)
  next
    case 2
    then have "32 - p = 16 + (8 - k)"
      using p k by simp
    then have "drop_bit (32 - p) (address a) = drop_bit (32 - p) (address b) \<longleftrightarrow> w = w' \<and> byte_eq k x x'"
      unfolding address_eq[OF assms(1,2)] by (simp only: v(3,4) V(2))
    then show ?thesis
      using 2 eq0 a b unfolding matchesCIDR_quads[OF assms]
      by (auto simp add: k_def byte_loop_take byte_pair)
  next
    case 3
    then have "32 - p = 8 + (8 - k)"
      using p k by simp
    then have "drop_bit (32 - p) (address a) = drop_bit (32 - p) (address b) \<longleftrightarrow> w * 256 + x = w' * 256 + x' \<and> byte_eq k y y'"
      unfolding address_eq[OF assms(1,2)] by (simp only: v(5,6) V(3))
    then show ?thesis
      using 3 eq0 a b unfolding matchesCIDR_quads[OF assms]
      by (auto simp add: k_def byte_loop_take byte_pair)
  next
    case 4
    then have "32 - p = 0 + (8 - k)"
      using p k by simp
    then have "drop_bit (32 - p) (address a) = drop_bit (32 - p) (address b) \<longleftrightarrow> w = w' \<and> x = x' \<and> y = y' \<and> byte_eq k z z'"
      unfolding address_eq[OF assms(1,2)]
      by (simp only: v(7,8) V(4) byte_pair[OF a(4) b(4)] byte_pair[OF a(3) b(3)] conj_assoc)
    then show ?thesis
      using 4 eq0 a b unfolding matchesCIDR_quads[OF assms]
      by (auto simp add: k_def byte_loop_take byte_pair)
  next
    case 5
    then have "32 - p = 0"
      using p by simp
    then have "drop_bit (32 - p) (address a) = drop_bit (32 - p) (address b) \<longleftrightarrow> ((w * 256 + x) * 256 + y) * 256 + z = ((w' * 256 + x') * 256 + y') * 256 + z'"
      unfolding address_eq[OF assms(1,2)] by (simp add: a(1) b(1))
    then have "drop_bit (32 - p) (address a) = drop_bit (32 - p) (address b) \<longleftrightarrow> w = w' \<and> x = x' \<and> y = y' \<and> z = z'"
      by (simp only: byte_pair[OF a(5) b(5)] byte_pair[OF a(4) b(4)] byte_pair[OF a(3) b(3)] conj_assoc)
    then show ?thesis
      using 5 a b unfolding matchesCIDR_quads[OF assms] 
      by (auto simp: byte_loop_take)
  qed
qed

subsection \<open>Lists of blocks\<close>

definition cidr_block :: "nat list \<times> nat \<Rightarrow> string" where
  "cidr_block b = dotted (fst b) @ ''/'' @ dec_of_nat (snd b)"

definition is_block :: "nat list \<times> nat \<Rightarrow> bool" where
  "is_block b = (is_quad (fst b) \<and> snd b \<le> 32)"

definition in_block :: "nat list \<Rightarrow> nat list \<times> nat \<Rightarrow> bool" where
  "in_block a b = (drop_bit (32 - snd b) (address a) = drop_bit (32 - snd b) (address (fst b)))"

lemma matches_block:
  "is_quad a \<Longrightarrow> is_block b \<Longrightarrow> matchesCIDR (dotted a) (cidr_block b) = Answer (in_block a b)"
  using cidr_prefix[of a "fst b" "snd b"] by (simp add: cidr_block_def is_block_def in_block_def)

lemma not_block: "is_quad a \<Longrightarrow> \<not> matchesIP (dotted a) (cidr_block b)"
  using no_slash[of a] by (auto simp: matchesIP_def cidr_block_def)

lemma any_match_blocks:
  "is_quad a \<Longrightarrow> \<forall>b\<in>set bs. is_block b \<Longrightarrow>
   any_match (dotted a) (map cidr_block bs) = Answer (\<exists>b\<in>set bs. in_block a b)"
  by (induction bs) (simp_all add: matches_block not_block)

lemma acl_blocks:
  assumes "is_quad a" "\<forall>b\<in>set bs. is_block b" "\<forall>b\<in>set ws. is_block b"
  shows "acl_allows (dotted a) \<lparr>whitelist = map cidr_block ws, blacklist = map cidr_block bs\<rparr> =
         Answer ((\<forall>b\<in>set bs. \<not> in_block a b) \<and> (ws = [] \<or> (\<exists>b\<in>set ws. in_block a b)))"
  using assms by (auto simp: acl_allows_def any_match_blocks)

text \<open>A negative prefix length masks nothing: the entry matches every address.\<close>

lemma strto_minus: "strto 10 (CHR ''-'' # dec_of_nat n) = Some (True, n)"
proof -
  obtain c cs where c: "dec_of_nat n = c # cs"
    by (cases "dec_of_nat n") auto
  then have "digit_val 10 c \<noteq> None"
    using dec_of_nat_digits[of c n] by simp
  then show ?thesis
    using read_digits_dec[of n] by (auto simp: strto_def c is_space_def split: option.splits)
qed

lemma negative_prefix:
  assumes "is_quad a" "is_quad b" "0 < n" "n \<le> 2 ^ 31"
  shows "matchesCIDR (dotted a) (dotted b @ ''/'' @ ''-'' @ dec_of_nat n) = Answer True"
proof -
  have "stoi (''-'' @ dec_of_nat n) = Some (- int n)"
    using assms(4) by (simp add: stoi_def strto_minus)
  moreover have "nat (- int n sdiv 8) = 0" "\<not> 0 < - int n smod 8"
    using assms(3) by (simp_all add: signed_divide_int_def signed_modulo_int_def)
  ultimately show ?thesis
    using assms cut_at_append[OF no_slash[OF assms(2)], of "''-'' @ dec_of_nat n"]
    by (simp add: matchesCIDR_def quad_ints_dotted Let_def)
qed

end
