(* ===== verification/Server.thy ===== *)
theory Server
  imports Connection_Manager Rate_Limiter Access_Control
begin

text \<open>
  \<open>core/server.cpp\<close>: the start of the listener, the loop that accepts clients, the shutdown and
  the dropping of privileges. What the kernel answers comes as an argument; an accepted client
  comes with its address and the clock readings of the rate limiter. \<open>None\<close> is an exception (or
  undefined behaviour) of the access control that nobody catches.
\<close>

record server =
  sv_config :: server_config
  sv_running :: bool
  sv_socket :: int
  sv_listen_port :: int
  sv_manager :: conn_manager
  sv_acl :: access_control
  sv_limiter :: "rate_limiter option"
  sv_recorded :: nat

definition configured_limiter :: "server_config \<Rightarrow> rate_limiter option" where
  "configured_limiter cfg =
     (if rate_limit_enabled (rate_limit cfg)
      then Some (setConnectionLimit (max_connections_per_ip (rate_limit cfg))
                   (setRateLimit (max_requests_per_minute (rate_limit cfg)) new_limiter))
      else None)"

definition new_server :: "server_config \<Rightarrow> (nat \<Rightarrow> conn) \<Rightarrow> server" where
  "new_server cfg heap =
     \<lparr>sv_config = cfg, sv_running = False, sv_socket = -1, sv_listen_port = 0,
      sv_manager = new_manager heap new_tracker, sv_acl = \<lparr>whitelist = [], blacklist = []\<rparr>,
      sv_limiter = configured_limiter cfg, sv_recorded = 0\<rparr>"

subsection \<open>Privileges\<close>

record process =
  p_gid :: int
  p_uid :: int

record identity_env =
  passwd_uid :: "string \<Rightarrow> int option"
  group_gid :: "string \<Rightarrow> int option"
  setgid_ok :: bool
  setuid_ok :: bool

definition dropPrivileges :: "identity_env \<Rightarrow> security_config \<Rightarrow> process \<Rightarrow> process" where
  "dropPrivileges ie sc p =
     (if \<not> drop_privileges sc then p
      else (case (passwd_uid ie (run_as_user sc), group_gid ie (run_as_group sc)) of
              (None, _) \<Rightarrow> p
            | (Some _, None) \<Rightarrow> p
            | (Some uid, Some gid) \<Rightarrow>
                if \<not> setgid_ok ie then p
                else let p = p\<lparr>p_gid := gid\<rparr>
                     in if \<not> setuid_ok ie then p else p\<lparr>p_uid := uid\<rparr>))"

subsection \<open>Starting and stopping\<close>

record listen_env =
  le_socket :: int
  le_reuse_ok :: bool
  le_bind_ok :: bool
  le_bound_port :: "int option"
  le_listen_ok :: bool

definition server_start ::
  "listen_env \<Rightarrow> identity_env \<Rightarrow> server \<Rightarrow> process \<Rightarrow> bool \<times> server \<times> process" where
  "server_start le ie s p =
     (if sv_running s then (True, s, p)
      else let s = s\<lparr>sv_socket := le_socket le\<rparr>
           in if sv_socket s < 0 then (False, s, p)
              else if \<not> le_reuse_ok le then (False, s\<lparr>sv_socket := -1\<rparr>, p)
              else if \<not> le_bind_ok le then (False, s\<lparr>sv_socket := -1\<rparr>, p)
              else let s = s\<lparr>sv_listen_port := (case le_bound_port le of
                                  Some n \<Rightarrow> n | None \<Rightarrow> bind_port (connection (sv_config s)))\<rparr>
                   in if \<not> le_listen_ok le then (False, s\<lparr>sv_socket := -1\<rparr>, p)
                      else (True, s\<lparr>sv_manager := cm_start (sv_manager s), sv_running := True\<rparr>,
                            dropPrivileges ie (security (sv_config s)) p))"

definition server_stop :: "server \<Rightarrow> server" where
  "server_stop s =
     (if \<not> sv_running s then s
      else let s = s\<lparr>sv_running := False\<rparr>;
               s = (if 0 \<le> sv_socket s then s\<lparr>sv_socket := -1\<rparr> else s)
           in s\<lparr>sv_manager := cm_stop (stopAllConnections (sv_manager s))\<rparr>)"

subsection \<open>Accepting a client\<close>

text \<open>\<open>static_cast<size_t>\<close> of an \<open>int\<close>.\<close>

definition to_size_t :: "int \<Rightarrow> nat" where
  "to_size_t v = nat (v mod 2 ^ 64)"

datatype verdict = Blocked | Rate_limited | Full | Accepted

text \<open>\<open>FTPConnection::start\<close>: the thread runs \<open>handleClient\<close> as soon as the connection is active.\<close>

definition conn_start :: "conn \<Rightarrow> conn" where
  "conn_start c = (if active c then c else c\<lparr>active := True\<rparr>)"

lemma conn_start_active [simp]: "conn_start c = c\<lparr>active := True\<rparr>"
  by (cases c) (simp add: conn_start_def)

definition handleConnection :: "nat \<Rightarrow> conn \<Rightarrow> server \<Rightarrow> server" where
  "handleConnection i c s =
     (let m = sv_manager s;
          m = addConnection (Some i) (m\<lparr>cm_heap := (cm_heap m)(i := c)\<rparr>)
      in s\<lparr>sv_manager := m\<lparr>cm_heap := (cm_heap m)(i := conn_start c)\<rparr>\<rparr>)"

definition limiter_step :: "int \<Rightarrow> int \<Rightarrow> string \<Rightarrow> rate_limiter option \<Rightarrow> bool \<times> rate_limiter option" where
  "limiter_step t1 t2 ip lim = (case lim of
     None \<Rightarrow> (True, None)
   | Some l \<Rightarrow> (case rate_check t1 t2 ip l of (ok, l) \<Rightarrow> (ok, Some l)))"

definition serve_client ::
  "int \<Rightarrow> int \<Rightarrow> string \<Rightarrow> nat \<Rightarrow> conn \<Rightarrow> server \<Rightarrow> (verdict \<times> server) option" where
  "serve_client t1 t2 ip i c s =
     (case acl_allows ip (sv_acl s) of
        Answer allowed \<Rightarrow>
          if \<not> allowed then Some (Blocked, s)
          else (case limiter_step t1 t2 ip (sv_limiter s) of (ok, lim) \<Rightarrow>
                  let s = s\<lparr>sv_limiter := lim\<rparr>
                  in if \<not> ok then Some (Rate_limited, s)
                     else if to_size_t (max_connections (connection (sv_config s)))
                               \<le> getConnectionCount (sv_manager s)
                     then Some (Full, s)
                     else Some (Accepted, handleConnection i c (s\<lparr>sv_recorded := sv_recorded s + 1\<rparr>)))
      | _ \<Rightarrow> None)"

text \<open>The server's life: clients that arrive, maintenance passes, commands that connections run, and the
  shutdown. A new client gets an identifier no vector holds yet.\<close>

inductive server_step :: "server \<Rightarrow> server \<Rightarrow> bool" where
  client: "sv_running s \<Longrightarrow> Some i \<notin> set (cm_connections (sv_manager s)) \<Longrightarrow>
     \<not> session_registered c \<Longrightarrow> serve_client t1 t2 ip i c s = Some (v, s') \<Longrightarrow> server_step s s'"
| run_one: "Some i \<in> set (cm_connections (sv_manager s)) \<Longrightarrow>
     dispatch e cmd a ((cm_heap (sv_manager s) i)\<lparr>tracker := cm_tracker (sv_manager s)\<rparr>) = Some c \<Longrightarrow>
     server_step s (s\<lparr>sv_manager := (sv_manager s)\<lparr>cm_heap := (cm_heap (sv_manager s))(i := c),
                                                 cm_tracker := tracker c\<rparr>\<rparr>)"
| cleanup: "server_step s (s\<lparr>sv_manager := cleanup_pass (sv_manager s)\<rparr>)"
| shutdown: "server_step s (server_stop s)"

inductive server_run :: "server \<Rightarrow> server \<Rightarrow> bool" where
  run_start: "server_run s s"
| run_step: "server_run s t \<Longrightarrow> server_step t u \<Longrightarrow> server_run s u"

inductive_cases server_stepE [consumes 1, case_names client run_one cleanup shutdown]: "server_step s s'"

subsection \<open>The connection limit\<close>

lemma handleConnection_simps [simp]:
  "cm_connections (sv_manager (handleConnection i c s)) = cm_connections (sv_manager s) @ [Some i]"
  "sv_config (handleConnection i c s) = sv_config s"
  by (simp_all add: handleConnection_def addConnection_def Let_def)

lemma serve_client_cases:
  assumes "serve_client t1 t2 ip i c s = Some (v, s')"
  shows "sv_config s' = sv_config s \<and> sv_acl s' = sv_acl s \<and> acl_allows ip (sv_acl s) = Answer (v \<noteq> Blocked) \<and>
         (if v = Accepted
          then getConnectionCount (sv_manager s) < to_size_t (max_connections (connection (sv_config s))) \<and>
               cm_connections (sv_manager s') = cm_connections (sv_manager s) @ [Some i]
          else sv_manager s' = sv_manager s)"
  using assms by (auto simp: serve_client_def Let_def handleConnection_def addConnection_def getConnectionCount_def
      split: matched.splits if_splits prod.splits)

lemma stopAll_connections [simp]: "cm_connections (stopAllConnections m) = []"
  by (simp add: stopAllConnections_def)

lemma fold_stop_fields [simp]:
  "cm_connections (fold stop_pointer ps m) = cm_connections m"
  "cm_pool (fold stop_pointer ps m) = cm_pool m"
  "cm_running (fold stop_pointer ps m) = cm_running m"
  by (induction ps arbitrary: m) simp_all

lemma cm_stop_connections: "cm_connections (cm_stop m) = (if cm_running m then [] else cm_connections m)"
  by (simp add: cm_stop_def Let_def)

lemma server_stop_connections:
  "cm_connections (sv_manager (server_stop s)) = (if sv_running s then [] else cm_connections (sv_manager s))"
  by (simp add: server_stop_def Let_def cm_stop_connections)

lemma server_stop_config [simp]: "sv_config (server_stop s) = sv_config s"
  by (simp add: server_stop_def Let_def)

lemma server_step_limit:
  assumes "server_step s s'"
    and "getConnectionCount (sv_manager s) \<le> to_size_t (max_connections (connection (sv_config s)))"
  shows "sv_config s' = sv_config s \<and>
         getConnectionCount (sv_manager s') \<le> to_size_t (max_connections (connection (sv_config s)))"
  using assms(1)
proof (cases rule: server_stepE)
  case (client i c t1 t2 ip v)
  then show ?thesis
    using serve_client_cases[OF client(4)] assms(2)
    by (cases "v = Accepted") (auto simp: getConnectionCount_def)
next
  case cleanup
  have "length (filter (is_live (sv_manager s)) (cm_connections (sv_manager s))) \<le> length (cm_connections (sv_manager s))"
    by (rule length_filter_le)
  then show ?thesis
    using le_trans[OF _ assms(2)] cleanup by (simp add: getConnectionCount_def cleanup_simps)
next
  case shutdown
  then show ?thesis
    using assms(2) by (simp add: getConnectionCount_def server_stop_connections)
qed (use assms(2) in \<open>simp_all add: getConnectionCount_def\<close>)

lemma server_run_limit:
  assumes "server_run s s'"
    and "getConnectionCount (sv_manager s) \<le> to_size_t (max_connections (connection (sv_config s)))"
  shows "sv_config s' = sv_config s \<and>
         getConnectionCount (sv_manager s') \<le> to_size_t (max_connections (connection (sv_config s)))"
  using assms
proof (induction rule: server_run.induct)
  case (run_step s t u)
  then show ?case
    using server_step_limit[of t u] by simp
qed simp

end
