(* ===== verification/Json_Values.thy ===== *)
theory Json_Values
  imports Files "HOL-Library.Monad_Syntax"
begin

text \<open>
  The part of jsoncpp the sources call, as a parameter: a record of operations on a type \<open>'j\<close> of
  values. \<open>None\<close> is a thrown \<open>Json::Exception\<close> (\<open>isMember\<close> of something that is no object, a
  conversion that does not fit). \<open>json_laws\<close> states the documented behaviour the round trips
  of the stores rest on.
\<close>

record 'j json_lib =
  js_parse :: "string \<Rightarrow> 'j option"
  js_errors :: "string \<Rightarrow> string"
  js_write :: "'j \<Rightarrow> string"
  js_has :: "'j \<Rightarrow> string \<Rightarrow> bool option"
  js_get :: "'j \<Rightarrow> string \<Rightarrow> 'j"
  js_is_array :: "'j \<Rightarrow> bool"
  js_is_object :: "'j \<Rightarrow> bool"
  js_elems :: "'j \<Rightarrow> 'j list"
  js_names :: "'j \<Rightarrow> string list"
  js_string :: "'j \<Rightarrow> string option"
  js_bool :: "'j \<Rightarrow> bool option"
  js_int :: "'j \<Rightarrow> int option"
  js_uint :: "'j \<Rightarrow> nat option"
  js_int64 :: "'j \<Rightarrow> int option"
  js_uint64 :: "'j \<Rightarrow> nat option"
  js_of_string :: "string \<Rightarrow> 'j"
  js_of_bool :: "bool \<Rightarrow> 'j"
  js_of_int :: "int \<Rightarrow> 'j"
  js_of_int64 :: "int \<Rightarrow> 'j"
  js_of_uint64 :: "nat \<Rightarrow> 'j"
  js_array :: "'j list \<Rightarrow> 'j"
  js_object :: "(string \<times> 'j) list \<Rightarrow> 'j"

definition json_laws :: "'j json_lib \<Rightarrow> bool" where
  "json_laws L =
     ((\<forall>s. js_string L (js_of_string L s) = Some s) \<and>
      (\<forall>b. js_bool L (js_of_bool L b) = Some b) \<and>
      (\<forall>i. - (2 ^ 31) \<le> i \<and> i < 2 ^ 31 \<longrightarrow> js_int L (js_of_int L i) = Some i) \<and>
      (\<forall>i. - (2 ^ 63) \<le> i \<and> i < 2 ^ 63 \<longrightarrow> js_int64 L (js_of_int64 L i) = Some i) \<and>
      (\<forall>n. n < 2 ^ 64 \<longrightarrow> js_uint64 L (js_of_uint64 L n) = Some n) \<and>
      (\<forall>vs. js_is_array L (js_array L vs) \<and> js_elems L (js_array L vs) = vs) \<and>
      (\<forall>kvs k. distinct (map fst kvs) \<longrightarrow>
         js_has L (js_object L kvs) k = Some (k \<in> fst ` set kvs) \<and>
         (\<forall>v. map_of kvs k = Some v \<longrightarrow> js_get L (js_object L kvs) k = v)))"

lemma json_lawsD:
  assumes "json_laws L"
  shows "js_string L (js_of_string L s) = Some s" "js_bool L (js_of_bool L b) = Some b"
    "- (2 ^ 31) \<le> i \<Longrightarrow> i < 2 ^ 31 \<Longrightarrow> js_int L (js_of_int L i) = Some i"
    "- (2 ^ 63) \<le> i \<Longrightarrow> i < 2 ^ 63 \<Longrightarrow> js_int64 L (js_of_int64 L i) = Some i"
    "n < 2 ^ 64 \<Longrightarrow> js_uint64 L (js_of_uint64 L n) = Some n"
    "js_is_array L (js_array L vs)" "js_elems L (js_array L vs) = vs"
    "distinct (map fst kvs) \<Longrightarrow> js_has L (js_object L kvs) k = Some (k \<in> fst ` set kvs)"
    "distinct (map fst kvs) \<Longrightarrow> map_of kvs k = Some v \<Longrightarrow> js_get L (js_object L kvs) k = v"
  using assms unfolding json_laws_def by blast+

subsection \<open>Reading members\<close>

text \<open>\<open>if (j.isMember(key)) x = convert(j[key]);\<close>\<close>

definition json_field ::
  "'j json_lib \<Rightarrow> 'j \<Rightarrow> string \<Rightarrow> ('j \<Rightarrow> 'a option) \<Rightarrow> ('a \<Rightarrow> 's \<Rightarrow> 's) \<Rightarrow> 's \<Rightarrow> 's option" where
  "json_field L j key convert put s =
     do { present \<leftarrow> js_has L j key;
          if present then do { v \<leftarrow> convert (js_get L j key); Some (put v s) } else Some s }"

fun run_all :: "('s \<Rightarrow> 's option) list \<Rightarrow> 's \<Rightarrow> 's option" where
  "run_all [] s = Some s"
| "run_all (f # fs) s = do { s \<leftarrow> f s; run_all fs s }"

text \<open>\<open>isMember\<close> of several keys, joined by \<open>&&\<close>.\<close>

fun has_all :: "'j json_lib \<Rightarrow> 'j \<Rightarrow> string list \<Rightarrow> bool option" where
  "has_all L j [] = Some True"
| "has_all L j (k # ks) = do { present \<leftarrow> js_has L j k; if present then has_all L j ks else Some False }"

subsection \<open>Goals about what is returned\<close>

lemma pred_option_if:
  "pred_option P (if b then x else y) = ((b \<longrightarrow> pred_option P x) \<and> (\<not> b \<longrightarrow> pred_option P y))"
  by simp

lemma pred_option_bind: "(\<And>x. pred_option P (g x)) \<Longrightarrow> pred_option P (m \<bind> g)"
  by (cases m) auto

lemma json_field_frame:
  "json_field L j k conv put u = Some v \<Longrightarrow> (\<And>x u. g (put x u) = g u) \<Longrightarrow> g v = g u"
  by (auto simp: json_field_def bind_eq_Some_conv split: if_splits)

end
