(* ===== verification/User_Store.thy ===== *)
theory User_Store
  imports Users Json_Values
begin

text \<open>
  The operations of \<open>user/user_manager.cpp\<close> that change the table, and its JSON file. The hash of a
  plain password takes new random bytes: \<open>rnd i\<close> is what the generator gives for the i-th account
  of a file. \<open>None\<close> is an exception (of jsoncpp or \<open>create_directories\<close>) that nobody catches.
\<close>

subsection \<open>Saving\<close>

definition user_json :: "'j json_lib \<Rightarrow> ftp_user \<Rightarrow> 'j" where
  "user_json L u = js_object L
     [(''username'', js_of_string L (u_username u)), (''password'', js_of_string L (u_password u)),
      (''home_directory'', js_of_string L (u_home u)),
      (''groups'', js_array L (map (js_of_string L) (u_groups u))),
      (''permissions'', js_array L (map (js_of_string L) (u_permissions u))),
      (''is_guest'', js_of_bool L (u_guest u)), (''expires_at'', js_of_int64 L (u_expires_at u)),
      (''storage_quota_bytes'', js_of_uint64 L (u_storage_quota u))]"

definition users_document :: "'j json_lib \<Rightarrow> int \<Rightarrow> user_manager \<Rightarrow> 'j" where
  "users_document L now m = js_object L
     [(''users'', js_array L (map (\<lambda>e. user_json L (snd e)) (users m))),
      (''version'', js_of_string L ''1.0''), (''updated'', js_of_int64 L now)]"

definition saveUsers ::
  "'j json_lib \<Rightarrow> int \<Rightarrow> user_manager \<Rightarrow> string \<Rightarrow> filesys \<Rightarrow> (bool \<times> filesys) option" where
  "saveUsers L now m name f =
     (let file = (if name = [] then users_file m else name)
      in if file = [] then Some (False, f)
         else do { f \<leftarrow> (if parent_path file \<noteq> [] then create_directories f (parent_path file) else Some f);
                   Some (case open_write f file True of
                           None \<Rightarrow> (False, f)
                         | Some (d, g) \<Rightarrow> (True, write_at g d 0 (js_write L (users_document L now m)))) })"

subsection \<open>Loading\<close>

definition json_strings :: "'j json_lib \<Rightarrow> 'j \<Rightarrow> string list option" where
  "json_strings L j = those (map (js_string L) (js_elems L j))"

text \<open>A member that must be an array to count.\<close>

definition strings_field ::
  "'j json_lib \<Rightarrow> 'j \<Rightarrow> string \<Rightarrow> (string list \<Rightarrow> ftp_user \<Rightarrow> ftp_user) \<Rightarrow> ftp_user \<Rightarrow> ftp_user option" where
  "strings_field L j key put u =
     do { present \<leftarrow> js_has L j key;
          if present \<and> js_is_array L (js_get L j key)
          then do { xs \<leftarrow> json_strings L (js_get L j key); Some (put xs u) } else Some u }"

text \<open>\<open>Some None\<close>: the entry lacks a required member and is skipped.\<close>

definition load_user :: "'j json_lib \<Rightarrow> kdf \<Rightarrow> string option \<Rightarrow> 'j \<Rightarrow> (bool \<times> ftp_user) option option" where
  "load_user L kd r j =
     do { complete \<leftarrow> has_all L j [''username'', ''password'', ''home_directory''];
          if \<not> complete then Some None
          else do { name \<leftarrow> js_string L (js_get L j ''username'');
                    password \<leftarrow> js_string L (js_get L j ''password'');
                    home \<leftarrow> js_string L (js_get L j ''home_directory'');
                    let u = new_user kd r name password home;
                    let migrated = (\<not> isHashed password \<and> \<not> hasLegacyPassword u);
                    u \<leftarrow> strings_field L j ''permissions'' (\<lambda>xs u. u\<lparr>u_permissions := xs\<rparr>) u;
                    u \<leftarrow> strings_field L j ''groups'' (\<lambda>xs u. u\<lparr>u_groups := xs\<rparr>) u;
                    u \<leftarrow> json_field L j ''is_guest'' (js_bool L) (\<lambda>b u. u\<lparr>u_guest := b\<rparr>) u;
                    u \<leftarrow> json_field L j ''expires_at'' (js_int64 L) (\<lambda>t u. u\<lparr>u_expires_at := t\<rparr>) u;
                    u \<leftarrow> json_field L j ''storage_quota_bytes'' (js_uint64 L) (\<lambda>n u. u\<lparr>u_storage_quota := n\<rparr>) u;
                    Some (Some (migrated, u)) } }"

fun load_entries ::
  "'j json_lib \<Rightarrow> kdf \<Rightarrow> (nat \<Rightarrow> string option) \<Rightarrow> nat \<Rightarrow> 'j list \<Rightarrow>
   bool \<times> (string, ftp_user) std_map \<Rightarrow> (bool \<times> (string, ftp_user) std_map) option" where
  "load_entries L kd rnd i [] s = Some s"
| "load_entries L kd rnd i (j # js) s =
     do { r \<leftarrow> load_user L kd (rnd i) j;
          load_entries L kd rnd (i + 1) js
            (case r of None \<Rightarrow> s
             | Some (migrated, u) \<Rightarrow> (fst s \<or> migrated, map_put (u_username u) u (snd s))) }"

definition loadUsers ::
  "'j json_lib \<Rightarrow> kdf \<Rightarrow> (nat \<Rightarrow> string option) \<Rightarrow> int \<Rightarrow> string \<Rightarrow> user_manager \<Rightarrow> filesys \<Rightarrow>
   (bool \<times> user_manager \<times> filesys) option" where
  "loadUsers L kd rnd now name m f =
     (let file = (if name = [] then users_file m else name)
      in if file = [] then Some (False, m, f)
         else (case read_file f file of
                 None \<Rightarrow> Some (True, m, f)
               | Some text \<Rightarrow>
                   (case js_parse L text of
                      None \<Rightarrow> Some (False, m, f)
                    | Some doc \<Rightarrow>
                        do { present \<leftarrow> js_has L doc ''users'';
                             if present \<and> js_is_array L (js_get L doc ''users'') then
                               do { (migrated, us) \<leftarrow>
                                      load_entries L kd rnd 0 (js_elems L (js_get L doc ''users'')) (False, []);
                                    let m = m\<lparr>users := us\<rparr>;
                                    if migrated
                                    then do { (_, f) \<leftarrow> saveUsers L now m file f; Some (True, m, f) }
                                    else Some (True, m, f) }
                             else Some (False, m\<lparr>users := []\<rparr>, f) })))"

subsection \<open>The table and its file\<close>

definition new_user_manager ::
  "'j json_lib \<Rightarrow> kdf \<Rightarrow> (nat \<Rightarrow> string option) \<Rightarrow> int \<Rightarrow> string \<Rightarrow> filesys \<Rightarrow> (user_manager \<times> filesys) option" where
  "new_user_manager L kd rnd now file f =
     (let m = \<lparr>users = [], users_file = file\<rparr>
      in if file = [] then Some (m, f)
         else do { (_, m, f) \<leftarrow> loadUsers L kd rnd now [] m f; Some (m, f) })"

lemma loadUsers_default:
  "users_file m \<noteq> [] \<Longrightarrow> loadUsers L kd rnd now [] m f = loadUsers L kd rnd now (users_file m) m f"
  by (simp add: loadUsers_def Let_def)

lemma loadUsers_file: "loadUsers L kd rnd now name m f = Some (b, n, g) \<Longrightarrow> users_file n = users_file m"
  by (auto simp: loadUsers_def Let_def bind_eq_Some_conv split: if_splits option.splits)

lemma new_user_manager_file: "new_user_manager L kd rnd now file f = Some (m, g) \<Longrightarrow> users_file m = file"
  by (auto simp: new_user_manager_def Let_def bind_eq_Some_conv dest!: loadUsers_file split: if_splits)

definition addUser ::
  "'j json_lib \<Rightarrow> int \<Rightarrow> ftp_user option \<Rightarrow> user_manager \<Rightarrow> filesys \<Rightarrow> (bool \<times> user_manager \<times> filesys) option" where
  "addUser L now user m f = (case user of
     None \<Rightarrow> Some (False, m, f)
   | Some u \<Rightarrow>
       let m = m\<lparr>users := map_put (u_username u) u (users m)\<rparr>
       in if users_file m = [] then Some (True, m, f)
          else do { (_, f) \<leftarrow> saveUsers L now m [] f; Some (True, m, f) })"

definition removeUser ::
  "'j json_lib \<Rightarrow> int \<Rightarrow> string \<Rightarrow> user_manager \<Rightarrow> filesys \<Rightarrow> (bool \<times> user_manager \<times> filesys) option" where
  "removeUser L now name m f =
     (if getUser m name = None then Some (False, m, f)
      else let m = m\<lparr>users := map_erase name (users m)\<rparr>
           in if users_file m = [] then Some (True, m, f)
              else do { (_, f) \<leftarrow> saveUsers L now m [] f; Some (True, m, f) })"

definition setUserFile :: "string \<Rightarrow> user_manager \<Rightarrow> user_manager" where
  "setUserFile file m = m\<lparr>users_file := file\<rparr>"

subsection \<open>What is saved is loaded\<close>

text \<open>An account as the table holds it: under its own name, the password hashed, numbers that fit.\<close>

definition storable :: "string \<times> ftp_user \<Rightarrow> bool" where
  "storable e =
     (u_username (snd e) = fst e \<and> isHashed (u_password (snd e)) \<and>
      - (2 ^ 63) \<le> u_expires_at (snd e) \<and> u_expires_at (snd e) < 2 ^ 63 \<and> u_storage_quota (snd e) < 2 ^ 64)"

lemma those_map_some: "(\<And>x. x \<in> set xs \<Longrightarrow> f x = Some (g x)) \<Longrightarrow> those (map f xs) = Some (map g xs)"
  by (induction xs) auto

lemma json_strings_array: "json_laws L \<Longrightarrow> json_strings L (js_array L (map (js_of_string L) xs)) = Some xs"
  using those_map_some[of xs "js_string L \<circ> js_of_string L" id]
  by (simp add: json_strings_def json_lawsD comp_def)

lemma user_json_members:
  assumes "json_laws L"
  shows "js_has L (user_json L u) k = Some (k \<in> {''username'', ''password'', ''home_directory'', ''groups'',
           ''permissions'', ''is_guest'', ''expires_at'', ''storage_quota_bytes''})"
    "js_get L (user_json L u) ''username'' = js_of_string L (u_username u)"
    "js_get L (user_json L u) ''password'' = js_of_string L (u_password u)"
    "js_get L (user_json L u) ''home_directory'' = js_of_string L (u_home u)"
    "js_get L (user_json L u) ''groups'' = js_array L (map (js_of_string L) (u_groups u))"
    "js_get L (user_json L u) ''permissions'' = js_array L (map (js_of_string L) (u_permissions u))"
    "js_get L (user_json L u) ''is_guest'' = js_of_bool L (u_guest u)"
    "js_get L (user_json L u) ''expires_at'' = js_of_int64 L (u_expires_at u)"
    "js_get L (user_json L u) ''storage_quota_bytes'' = js_of_uint64 L (u_storage_quota u)"
  unfolding user_json_def by (simp_all add: json_lawsD(8,9)[OF assms])

lemma load_saved_user:
  assumes "json_laws L" "storable (k, u)"
  shows "load_user L kd r (user_json L u) = Some (Some (False, u))"
proof -
  have s: "isHashed (u_password u)" "- (2 ^ 63) \<le> u_expires_at u" "u_expires_at u < 2 ^ 63" "u_storage_quota u < 2 ^ 64"
    using assms(2) by (simp_all add: storable_def)
  have h: "(new_user kd r (u_username u) (u_password u) (u_home u))
      \<lparr>u_permissions := u_permissions u, u_groups := u_groups u, u_guest := u_guest u,
       u_expires_at := u_expires_at u, u_storage_quota := u_storage_quota u\<rparr> = u"
    using s(1) by (simp add: new_user_def setPassword_def)
  show ?thesis
    using s by (simp add: load_user_def user_json_members[OF assms(1)] json_lawsD[OF assms(1)] strings_field_def
        json_strings_array[OF assms(1)] json_field_def h Let_def)
qed

lemma load_saved_entries:
  assumes "json_laws L"
  shows "\<forall>e\<in>set us. storable e \<Longrightarrow>
     load_entries L kd rnd i (map (\<lambda>e. user_json L (snd e)) us) (b, m) =
     Some (b, foldl (\<lambda>m (k, v). map_put k v m) m us)"
proof (induction us arbitrary: i m)
  case (Cons e us)
  obtain k u where e: "e = (k, u)"
    by (cases e)
  have "load_user L kd (rnd i) (user_json L u) = Some (Some (False, u))" "u_username u = k"
    using Cons.prems load_saved_user[OF assms, of k u] by (auto simp: e storable_def)
  then show ?case
    using Cons by (simp add: e)
qed simp

text \<open>A document of accounts, hashed or not, loads without an exception.\<close>

lemma load_any_user:
  assumes "json_laws L" "- (2 ^ 63) \<le> u_expires_at u" "u_expires_at u < 2 ^ 63" "u_storage_quota u < 2 ^ 64"
  shows "\<exists>b v. load_user L kd r (user_json L u) = Some (Some (b, v)) \<and> u_username v = u_username u"
  using assms(2-4)
  by (simp add: load_user_def user_json_members[OF assms(1)] json_lawsD[OF assms(1)] strings_field_def
      json_strings_array[OF assms(1)] json_field_def Let_def new_user_def setPassword_def)

lemma load_any_entries:
  assumes "json_laws L"
  shows "\<forall>e\<in>set us. - (2 ^ 63) \<le> u_expires_at (snd e) \<and> u_expires_at (snd e) < 2 ^ 63 \<and> u_storage_quota (snd e) < 2 ^ 64 \<Longrightarrow>
     \<exists>c ws. load_entries L kd rnd i (map (\<lambda>e. user_json L (snd e)) us) (b, m) = Some (c, ws) \<and>
       map fst ws = foldl (\<lambda>ks e. map fst (map_put (u_username (snd e)) () (map (\<lambda>k. (k, ())) ks))) (map fst m) us"
proof (induction us arbitrary: i b m)
  case (Cons e us)
  obtain c v where v: "load_user L kd (rnd i) (user_json L (snd e)) = Some (Some (c, v))" "u_username v = u_username (snd e)"
    using load_any_user[OF assms, of "snd e" kd "rnd i"] Cons.prems by auto
  have k: "map fst (map_put k x m) = map fst (map_put k () (map (\<lambda>k. (k, ())) (map fst m)))" for k and x :: ftp_user
    by (induction k x m rule: map_put.induct) auto
  show ?case
    using Cons.IH[of "i + 1" "b \<or> c" "map_put (u_username v) v m"] Cons.prems v k[of "u_username v" v] by simp
qed simp

lemma load_document:
  assumes "json_laws L"
  shows "js_has L (users_document L now m) ''users'' = Some True"
    "js_is_array L (js_get L (users_document L now m) ''users'')"
    "js_elems L (js_get L (users_document L now m) ''users'') = map (\<lambda>e. user_json L (snd e)) (users m)"
proof -
  have g: "js_get L (users_document L now m) ''users'' = js_array L (map (\<lambda>e. user_json L (snd e)) (users m))"
    unfolding users_document_def by (simp add: json_lawsD(9)[OF assms])
  show "js_has L (users_document L now m) ''users'' = Some True"
    unfolding users_document_def by (simp add: json_lawsD(8)[OF assms])
  show "js_is_array L (js_get L (users_document L now m) ''users'')"
    "js_elems L (js_get L (users_document L now m) ''users'') = map (\<lambda>e. user_json L (snd e)) (users m)"
    by (simp_all add: g json_lawsD[OF assms])
qed

lemma load_saved:
  assumes "json_laws L" "saveUsers L now m file f = Some (True, g)" "file \<noteq> []"
    and "js_parse L (js_write L (users_document L now m)) = Some (users_document L now m)"
    and "sorted_map (users m)" "\<forall>e\<in>set (users m). storable e"
  shows "loadUsers L kd rnd t file n g = Some (True, n\<lparr>users := users m\<rparr>, g)"
proof -
  obtain f' d h where w: "open_write f' file True = Some (d, h)"
      "g = write_at h d 0 (js_write L (users_document L now m))"
    using assms(2,3) by (auto simp: saveUsers_def Let_def bind_eq_Some_conv split: if_splits option.splits)
  have r: "read_file g file = Some (js_write L (users_document L now m))"
    unfolding w(2) by (rule read_written[OF w(1)])
  have "load_entries L kd rnd 0 (map (\<lambda>e. user_json L (snd e)) (users m)) (False, []) = Some (False, users m)"
    using load_saved_entries[OF assms(1,6)] put_all_sorted[of "[]" "users m"] assms(5) by simp
  then show ?thesis
    using assms(3) by (simp add: loadUsers_def r assms(4) load_document[OF assms(1)] Let_def)
qed

subsection \<open>No plain password stays\<close>

definition hashing_works :: "kdf \<Rightarrow> (nat \<Rightarrow> string option) \<Rightarrow> bool" where
  "hashing_works kd rnd = ((\<forall>i. rnd i \<noteq> None) \<and> (\<forall>p s n. derive kd p s n \<noteq> None))"

definition hashed_table :: "(string, ftp_user) std_map \<Rightarrow> bool" where
  "hashed_table us = (\<forall>e\<in>set us. u_username (snd e) = fst e \<and> isHashed (u_password (snd e)))"

lemma new_user_hashed:
  assumes "hashing_works kd rnd"
  shows "isHashed (u_password (new_user kd (rnd i) n p h))"
proof -
  obtain s where s: "rnd i = Some s"
    using assms unfolding hashing_works_def by blast
  obtain d where "derive kd p s kDefaultIterations = Some d"
    using assms unfolding hashing_works_def by blast
  then have "hash kd (rnd i) p kDefaultIterations \<noteq> []"
    by (simp add: hash_def s Let_def kDefaultIterations_def kPrefix_def)
  then show ?thesis
    using isHashed_hash[of kd "rnd i" p kDefaultIterations] by (auto simp: new_user_def setPassword_def Let_def)
qed

lemma strings_field_frame:
  "strings_field L j k put u = Some v \<Longrightarrow> (\<And>x u. g (put x u) = g u) \<Longrightarrow> g v = g u"
  by (auto simp: strings_field_def bind_eq_Some_conv split: if_splits)

lemma load_user_new:
  assumes "load_user L kd r j = Some (Some (b, u))"
  shows "\<exists>n p h. u_password u = u_password (new_user kd r n p h) \<and> u_username u = n"
proof -
  obtain n p h v w x y where u: "strings_field L j ''permissions'' (\<lambda>xs u. u\<lparr>u_permissions := xs\<rparr>) (new_user kd r n p h) = Some v"
      "strings_field L j ''groups'' (\<lambda>xs u. u\<lparr>u_groups := xs\<rparr>) v = Some w"
      "json_field L j ''is_guest'' (js_bool L) (\<lambda>b u. u\<lparr>u_guest := b\<rparr>) w = Some x"
      "json_field L j ''expires_at'' (js_int64 L) (\<lambda>t u. u\<lparr>u_expires_at := t\<rparr>) x = Some y"
      "json_field L j ''storage_quota_bytes'' (js_uint64 L) (\<lambda>n u. u\<lparr>u_storage_quota := n\<rparr>) y = Some u"
    using assms by (auto simp: load_user_def Let_def bind_eq_Some_conv split: if_splits)
  have "u_password u = u_password (new_user kd r n p h)" "u_username u = u_username (new_user kd r n p h)"
    using strings_field_frame[OF u(1), of u_password] strings_field_frame[OF u(2), of u_password]
      json_field_frame[OF u(3), of u_password] json_field_frame[OF u(4), of u_password]
      json_field_frame[OF u(5), of u_password]
      strings_field_frame[OF u(1), of u_username] strings_field_frame[OF u(2), of u_username]
      json_field_frame[OF u(3), of u_username] json_field_frame[OF u(4), of u_username]
      json_field_frame[OF u(5), of u_username] by simp_all
  then show ?thesis
    by auto
qed

lemma load_user_hashed:
  assumes "hashing_works kd rnd" "load_user L kd (rnd i) j = Some (Some (b, u))"
  shows "isHashed (u_password u)"
  using load_user_new[OF assms(2)] new_user_hashed[OF assms(1)] by auto

lemma load_entries_hashed:
  "hashing_works kd rnd \<Longrightarrow> load_entries L kd rnd i js s = Some t \<Longrightarrow> hashed_table (snd s) \<Longrightarrow> hashed_table (snd t)"
proof (induction L kd rnd i js s rule: load_entries.induct)
  case (2 L kd rnd i j js s)
  obtain r where r: "load_user L kd (rnd i) j = Some r"
      "load_entries L kd rnd (i + 1) js (case r of None \<Rightarrow> s
         | Some (migrated, u) \<Rightarrow> (fst s \<or> migrated, map_put (u_username u) u (snd s))) = Some t"
    using "2.prems"(2) by (auto simp: bind_eq_Some_conv)
  have "hashed_table (snd (case r of None \<Rightarrow> s
         | Some (migrated, u) \<Rightarrow> (fst s \<or> migrated, map_put (u_username u) u (snd s))))"
    using load_user_hashed[OF "2.prems"(1), of L i j] r(1) "2.prems"(3)
    by (auto simp: hashed_table_def dest!: set_map_put split: option.splits prod.splits)
  then show ?case
    using "2.IH"[OF r(1) "2.prems"(1) r(2)] by simp
qed simp

lemma loadUsers_hashed:
  assumes "hashing_works kd rnd" "loadUsers L kd rnd now file m f = Some (b, n, g)" "hashed_table (users m)"
  shows "hashed_table (users n)"
proof -
  have e: "hashed_table us" if "load_entries L kd rnd 0 js (False, []) = Some (c, us)" for js c us
    using load_entries_hashed[OF assms(1) that] by (simp add: hashed_table_def)
  show ?thesis
    using assms(2,3)
    by (auto simp: loadUsers_def Let_def bind_eq_Some_conv hashed_table_def[of "[]"] dest: e
        split: option.splits if_splits)
qed

end
