(* ===== verification/Host_Store.thy ===== *)
theory Host_Store
  imports Virtual_Hosts User_Store
begin

text \<open>
  The operations of \<open>virtual_host/virtual_host_manager.cpp\<close> that change the table, and its JSON file. A host
  that names a user file gets a user manager, which loads (and may rewrite) that file; \<open>rnd i\<close> are
  the random bytes for the user table of the i-th host.
\<close>

subsection \<open>Saving\<close>

definition opt_member :: "bool \<Rightarrow> string \<Rightarrow> 'j \<Rightarrow> (string \<times> 'j) list \<Rightarrow> (string \<times> 'j) list" where
  "opt_member c k v ms = (if c then (k, v) # ms else ms)"

definition host_members :: "'j json_lib \<Rightarrow> virtual_host \<Rightarrow> (string \<times> 'j) list" where
  "host_members L h =
     (''hostname'', js_of_string L (vh_hostname h)) # (''root_directory'', js_of_string L (vh_root h)) #
     (''enabled'', js_of_bool L (vh_enabled h)) #
     opt_member (vh_ssl_cert h \<noteq> []) ''ssl_cert_file'' (js_of_string L (vh_ssl_cert h))
      (opt_member (vh_ssl_key h \<noteq> []) ''ssl_key_file'' (js_of_string L (vh_ssl_key h))
        (opt_member (vh_ssl_ca h \<noteq> []) ''ssl_ca_file'' (js_of_string L (vh_ssl_ca h))
          (opt_member (0 < vh_max_sessions h) ''max_sessions'' (js_of_int L (vh_max_sessions h))
            (opt_member (0 < vh_storage_quota h) ''storage_quota_bytes'' (js_of_uint64 L (vh_storage_quota h))
              (opt_member (0 < vh_bandwidth_quota h) ''bandwidth_quota_bytes''
                 (js_of_uint64 L (vh_bandwidth_quota h))
                 (case vh_users h of
                    None \<Rightarrow> []
                  | Some m \<Rightarrow> opt_member (users_file m \<noteq> []) ''user_file'' (js_of_string L (users_file m)) []))))))"

definition host_json :: "'j json_lib \<Rightarrow> virtual_host \<Rightarrow> 'j" where
  "host_json L h = js_object L (host_members L h)"

definition hosts_document :: "'j json_lib \<Rightarrow> int \<Rightarrow> vhost_manager \<Rightarrow> 'j" where
  "hosts_document L now m = js_object L
     [(''virtual_hosts'', js_array L (map (\<lambda>e. host_json L (snd e)) (virtual_hosts m))),
      (''version'', js_of_string L ''1.0''), (''updated'', js_of_int64 L now)]"

text \<open>\<open>create_directories\<close> with an error code: the failure is reported, not thrown.\<close>

definition saveVirtualHosts ::
  "'j json_lib \<Rightarrow> int \<Rightarrow> vhost_manager \<Rightarrow> string \<Rightarrow> filesys \<Rightarrow> bool \<times> filesys" where
  "saveVirtualHosts L now m name f =
     (let file = (if name = [] then vhosts_file m else name)
      in if file = [] then (False, f)
         else (case (if parent_path file \<noteq> [] then create_directories f (parent_path file) else Some f) of
                 None \<Rightarrow> (False, f)
               | Some f \<Rightarrow>
                   (case open_write f file True of
                      None \<Rightarrow> (False, f)
                    | Some (d, g) \<Rightarrow> (True, write_at g d 0 (js_write L (hosts_document L now m))))))"

subsection \<open>Loading\<close>

text \<open>The value read may need the file system: setters thread it.\<close>

definition load_host_users ::
  "'j json_lib \<Rightarrow> kdf \<Rightarrow> (nat \<Rightarrow> string option) \<Rightarrow> int \<Rightarrow> 'j \<Rightarrow> virtual_host \<times> filesys \<Rightarrow>
   (virtual_host \<times> filesys) option" where
  "load_host_users L kd rnd now j = (\<lambda>(h, f).
     do { present \<leftarrow> js_has L j ''user_file'';
          if \<not> present then Some (h, f)
          else do { file \<leftarrow> js_string L (js_get L j ''user_file'');
                    if file = [] then Some (h, f)
                    else do { (m, f) \<leftarrow> new_user_manager L kd rnd now file f;
                              Some (h\<lparr>vh_users := Some m\<rparr>, f) } } })"

fun load_errors :: "'j json_lib \<Rightarrow> 'j \<Rightarrow> string list \<Rightarrow> virtual_host \<Rightarrow> virtual_host option" where
  "load_errors L j [] h = Some h"
| "load_errors L j (k # ks) h =
     do { text \<leftarrow> js_string L (js_get L j k); load_errors L j ks (setCustomError k text h) }"

definition load_host_errors :: "'j json_lib \<Rightarrow> 'j \<Rightarrow> virtual_host \<Rightarrow> virtual_host option" where
  "load_host_errors L j h =
     do { present \<leftarrow> js_has L j ''custom_errors'';
          if present \<and> js_is_object L (js_get L j ''custom_errors'')
          then load_errors L (js_get L j ''custom_errors'') (js_names L (js_get L j ''custom_errors'')) h
          else Some h }"

definition load_host ::
  "'j json_lib \<Rightarrow> kdf \<Rightarrow> (nat \<Rightarrow> string option) \<Rightarrow> int \<Rightarrow> 'j \<Rightarrow> filesys \<Rightarrow> (virtual_host option \<times> filesys) option" where
  "load_host L kd rnd now j f =
     do { complete \<leftarrow> has_all L j [''hostname'', ''root_directory''];
          if \<not> complete then Some (None, f)
          else do { hostname \<leftarrow> js_string L (js_get L j ''hostname'');
                    root_dir \<leftarrow> js_string L (js_get L j ''root_directory'');
                    h \<leftarrow> run_all
                      [json_field L j ''enabled'' (js_bool L) (\<lambda>v h. h\<lparr>vh_enabled := v\<rparr>),
                       json_field L j ''ssl_cert_file'' (js_string L) (\<lambda>v h. h\<lparr>vh_ssl_cert := v\<rparr>),
                       json_field L j ''ssl_key_file'' (js_string L) (\<lambda>v h. h\<lparr>vh_ssl_key := v\<rparr>),
                       json_field L j ''ssl_ca_file'' (js_string L) (\<lambda>v h. h\<lparr>vh_ssl_ca := v\<rparr>),
                       json_field L j ''max_sessions'' (js_int L) (\<lambda>v h. h\<lparr>vh_max_sessions := v\<rparr>),
                       json_field L j ''storage_quota_bytes'' (js_uint64 L) (\<lambda>v h. h\<lparr>vh_storage_quota := v\<rparr>),
                       json_field L j ''bandwidth_quota_bytes'' (js_uint64 L)
                         (\<lambda>v h. h\<lparr>vh_bandwidth_quota := v\<rparr>)]
                      (new_virtual_host hostname root_dir);
                    (h, f) \<leftarrow> load_host_users L kd rnd now j (h, f);
                    h \<leftarrow> load_host_errors L j h;
                    Some (Some h, f) } }"

fun load_hosts ::
  "'j json_lib \<Rightarrow> kdf \<Rightarrow> (nat \<Rightarrow> nat \<Rightarrow> string option) \<Rightarrow> int \<Rightarrow> nat \<Rightarrow> 'j list \<Rightarrow>
   (string, virtual_host) std_map \<Rightarrow> filesys \<Rightarrow> ((string, virtual_host) std_map \<times> filesys) option" where
  "load_hosts L kd rnd now i [] hs f = Some (hs, f)"
| "load_hosts L kd rnd now i (j # js) hs f =
     do { (r, f) \<leftarrow> load_host L kd (rnd i) now j f;
          load_hosts L kd rnd now (i + 1) js
            (case r of None \<Rightarrow> hs | Some h \<Rightarrow> map_put (vh_hostname h) h hs) f }"

definition loadVirtualHosts ::
  "'j json_lib \<Rightarrow> kdf \<Rightarrow> (nat \<Rightarrow> nat \<Rightarrow> string option) \<Rightarrow> int \<Rightarrow> string \<Rightarrow> vhost_manager \<Rightarrow> filesys \<Rightarrow>
   (bool \<times> vhost_manager \<times> filesys) option" where
  "loadVirtualHosts L kd rnd now name m f =
     (let file = (if name = [] then vhosts_file m else name)
      in if file = [] then Some (False, m, f)
         else (case read_file f file of
                 None \<Rightarrow> Some (True, m, f)
               | Some text \<Rightarrow>
                   (case js_parse L text of
                      None \<Rightarrow> Some (False, m, f)
                    | Some doc \<Rightarrow>
                        do { present \<leftarrow> js_has L doc ''virtual_hosts'';
                             (hs, f) \<leftarrow>
                               (if present \<and> js_is_array L (js_get L doc ''virtual_hosts'')
                                then load_hosts L kd rnd now 0 (js_elems L (js_get L doc ''virtual_hosts'')) [] f
                                else Some ([], f));
                             Some (True, m\<lparr>virtual_hosts := hs\<rparr>, f) })))"

subsection \<open>The table and its file\<close>

definition new_vhost_manager ::
  "'j json_lib \<Rightarrow> kdf \<Rightarrow> (nat \<Rightarrow> nat \<Rightarrow> string option) \<Rightarrow> int \<Rightarrow> string \<Rightarrow> filesys \<Rightarrow>
   (vhost_manager \<times> filesys) option" where
  "new_vhost_manager L kd rnd now file f =
     (let m = \<lparr>virtual_hosts = [], vhosts_file = file\<rparr>
      in if file = [] then Some (m, f)
         else do { (_, m, f) \<leftarrow> loadVirtualHosts L kd rnd now [] m f; Some (m, f) })"

definition setVirtualHostsFile :: "string \<Rightarrow> vhost_manager \<Rightarrow> vhost_manager" where
  "setVirtualHostsFile file m = m\<lparr>vhosts_file := file\<rparr>"

definition persistIfConfigured :: "'j json_lib \<Rightarrow> int \<Rightarrow> vhost_manager \<Rightarrow> filesys \<Rightarrow> bool \<times> filesys" where
  "persistIfConfigured L now m f =
     (if vhosts_file m \<noteq> [] then saveVirtualHosts L now m [] f else (True, f))"

definition removeVirtualHost ::
  "'j json_lib \<Rightarrow> int \<Rightarrow> string \<Rightarrow> vhost_manager \<Rightarrow> filesys \<Rightarrow> bool \<times> vhost_manager \<times> filesys" where
  "removeVirtualHost L now hostname m f =
     (if getVirtualHost m hostname = None then (False, m, f)
      else let m = m\<lparr>virtual_hosts := map_erase hostname (virtual_hosts m)\<rparr>;
               (saved, f) = persistIfConfigured L now m f
           in (saved, m, f))"

definition addVirtualHost ::
  "'j json_lib \<Rightarrow> int \<Rightarrow> virtual_host option \<Rightarrow> vhost_manager \<Rightarrow> filesys \<Rightarrow> bool \<times> vhost_manager \<times> filesys" where
  "addVirtualHost L now host m f = (case host of
     None \<Rightarrow> (False, m, f)
   | Some h \<Rightarrow>
       if vh_hostname h = [] then (False, m, f)
       else if getVirtualHost m (vh_hostname h) \<noteq> None then (False, m, f)
       else let m = m\<lparr>virtual_hosts := map_put (vh_hostname h) h (virtual_hosts m)\<rparr>;
                (saved, f) = persistIfConfigured L now m f
            in if saved then (True, m, f)
               else let (_, m, f) = removeVirtualHost L now (vh_hostname h) m f in (False, m, f))"

subsection \<open>An addition that cannot be saved is taken back\<close>

lemma map_erase_put: "map_of m k = None \<Longrightarrow> map_erase k (map_put k v m) = m"
proof (induction k v m rule: map_put.induct)
  case (2 k v j w m)
  moreover have "map_erase k m = m"
    using 2(2) by (auto simp: map_erase_def filter_id_conv map_of_eq_None_iff split: if_splits)
  ultimately show ?case
    by (auto simp: map_erase_def split: if_splits)
qed (simp add: map_erase_def)

lemma addVirtualHost_failed:
  assumes "addVirtualHost L now host m f = (False, n, g)"
  shows "n = m"
proof (cases host)
  case (Some h)
  have "map_erase (vh_hostname h) (map_put (vh_hostname h) h (virtual_hosts m)) = virtual_hosts m"
    if "getVirtualHost m (vh_hostname h) = None"
    using that by (intro map_erase_put) (simp add: getVirtualHost_def)
  then show ?thesis
    using assms Some
    by (auto simp: addVirtualHost_def removeVirtualHost_def getVirtualHost_def Let_def split: if_splits prod.splits)
qed (use assms in \<open>simp add: addVirtualHost_def\<close>)

subsection \<open>What survives saving and loading\<close>

lemma opt_member_simps [simp]:
  "map_of (opt_member c k v r) i = (if c \<and> i = k then Some v else map_of r i)"
  "i \<in> fst ` set (opt_member c k v r) \<longleftrightarrow> c \<and> i = k \<or> i \<in> fst ` set r"
  "distinct (map fst (opt_member c k v r)) \<longleftrightarrow> (c \<longrightarrow> k \<notin> fst ` set r) \<and> distinct (map fst r)"
  by (auto simp: opt_member_def)

text \<open>A host without a user table of its own, with numbers that fit.\<close>

definition plain_host :: "string \<times> virtual_host \<Rightarrow> bool" where
  "plain_host e =
     (vh_hostname (snd e) = fst e \<and> vh_users (snd e) = None \<and> vh_max_sessions (snd e) < 2 ^ 31 \<and>
      vh_storage_quota (snd e) < 2 ^ 64 \<and> vh_bandwidth_quota (snd e) < 2 ^ 64)"

definition without_errors :: "virtual_host \<Rightarrow> virtual_host" where
  "without_errors h = h\<lparr>vh_custom_errors := [], vh_max_sessions := max 0 (vh_max_sessions h)\<rparr>"

lemma json_field_opt:
  assumes "js_has L j k = Some c" "c \<Longrightarrow> js_get L j k = v" "c \<Longrightarrow> conv v = Some x"
  shows "json_field L j k conv put s = Some (if c then put x s else s)"
  using assms by (simp add: json_field_def)

lemma load_saved_host:
  assumes "json_laws L" "plain_host (k, h)"
  shows "load_host L kd rnd now (host_json L h) f = Some (Some (without_errors h), f)"
proof -
  let ?j = "host_json L h"
  have p: "vh_users h = None" "vh_max_sessions h < 2 ^ 31" "vh_storage_quota h < 2 ^ 64" "vh_bandwidth_quota h < 2 ^ 64"
    using assms(2) by (simp_all add: plain_host_def)
  have d: "distinct (map fst (host_members L h))"
    by (simp add: host_members_def p(1))
  have has: "js_has L ?j k = Some (k \<in> fst ` set (host_members L h))" for k
    unfolding host_json_def by (rule json_lawsD(8)[OF assms(1) d])
  have get: "map_of (host_members L h) k = Some v \<Longrightarrow> js_get L ?j k = v" for k v
    unfolding host_json_def by (rule json_lawsD(9)[OF assms(1) d])
  note L = json_lawsD[OF assms(1)]
  have num: "0 < vh_max_sessions h \<Longrightarrow> js_int L (js_of_int L (vh_max_sessions h)) = Some (vh_max_sessions h)"
    "js_uint64 L (js_of_uint64 L (vh_storage_quota h)) = Some (vh_storage_quota h)"
    "js_uint64 L (js_of_uint64 L (vh_bandwidth_quota h)) = Some (vh_bandwidth_quota h)"
    using p by (intro L(3,5); simp)+
  have req: "js_has L ?j ''hostname'' = Some True" "js_has L ?j ''root_directory'' = Some True"
    "js_get L ?j ''hostname'' = js_of_string L (vh_hostname h)"
    "js_get L ?j ''root_directory'' = js_of_string L (vh_root h)"
    "js_has L ?j ''user_file'' = Some False" "js_has L ?j ''custom_errors'' = Some False"
    by (simp_all add: has host_members_def p(1) get)
  have en: "json_field L ?j ''enabled'' (js_bool L) put s = Some (put (vh_enabled h) s)" for put and s :: virtual_host
    by (simp add: json_field_def has get host_members_def L(1,2))
  have opt:
    "vh_ssl_cert s = [] \<Longrightarrow> json_field L ?j ''ssl_cert_file'' (js_string L) (\<lambda>v. vh_ssl_cert_update (\<lambda>_. v)) s =
       Some (s\<lparr>vh_ssl_cert := vh_ssl_cert h\<rparr>)"
    "vh_ssl_key s = [] \<Longrightarrow> json_field L ?j ''ssl_key_file'' (js_string L) (\<lambda>v. vh_ssl_key_update (\<lambda>_. v)) s =
       Some (s\<lparr>vh_ssl_key := vh_ssl_key h\<rparr>)"
    "vh_ssl_ca s = [] \<Longrightarrow> json_field L ?j ''ssl_ca_file'' (js_string L) (\<lambda>v. vh_ssl_ca_update (\<lambda>_. v)) s =
       Some (s\<lparr>vh_ssl_ca := vh_ssl_ca h\<rparr>)"
    "vh_max_sessions s = 0 \<Longrightarrow> json_field L ?j ''max_sessions'' (js_int L) (\<lambda>v. vh_max_sessions_update (\<lambda>_. v)) s =
       Some (s\<lparr>vh_max_sessions := max 0 (vh_max_sessions h)\<rparr>)"
    "vh_storage_quota s = 0 \<Longrightarrow> json_field L ?j ''storage_quota_bytes'' (js_uint64 L) (\<lambda>v. vh_storage_quota_update (\<lambda>_. v)) s =
       Some (s\<lparr>vh_storage_quota := vh_storage_quota h\<rparr>)"
    "vh_bandwidth_quota s = 0 \<Longrightarrow> json_field L ?j ''bandwidth_quota_bytes'' (js_uint64 L) (\<lambda>v. vh_bandwidth_quota_update (\<lambda>_. v)) s =
       Some (s\<lparr>vh_bandwidth_quota := vh_bandwidth_quota h\<rparr>)"
    for s :: virtual_host
    by (cases s; simp add: json_field_def has get host_members_def p(1) L(1,2) num max_def)+
  show ?thesis
    by (simp add: load_host_def req en opt L(1,2) load_host_users_def load_host_errors_def new_virtual_host_def
        without_errors_def)
      (simp add: p(1))
qed

definition forget_errors :: "(string, virtual_host) std_map \<Rightarrow> (string, virtual_host) std_map" where
  "forget_errors hs = map (\<lambda>(k, h). (k, without_errors h)) hs"

lemma load_saved_hosts:
  assumes "json_laws L"
  shows "\<forall>e\<in>set hs. plain_host e \<Longrightarrow>
     load_hosts L kd rnd now i (map (\<lambda>e. host_json L (snd e)) hs) m f =
     Some (foldl (\<lambda>m (k, v). map_put k v m) m (forget_errors hs), f)"
proof (induction hs arbitrary: i m)
  case (Cons e hs)
  obtain k h where e: "e = (k, h)"
    by (cases e)
  have "load_host L kd (rnd i) now (host_json L h) f = Some (Some (without_errors h), f)"
    using Cons.prems by (intro load_saved_host[OF assms, of k]) (simp add: e)
  moreover have "vh_hostname (without_errors h) = k"
    using Cons.prems by (simp add: e plain_host_def without_errors_def)
  ultimately show ?case
    using Cons by (simp add: e forget_errors_def)
qed (simp add: forget_errors_def)

lemma sorted_forget: "sorted_map (forget_errors hs) = sorted_map hs"
  by (simp add: sorted_map_def forget_errors_def comp_def case_prod_beta)

lemma hosts_reloaded:
  assumes "json_laws L" "saveVirtualHosts L now m file f = (True, g)" "file \<noteq> []"
    and "js_parse L (js_write L (hosts_document L now m)) = Some (hosts_document L now m)"
    and "sorted_map (virtual_hosts m)" "\<forall>e\<in>set (virtual_hosts m). plain_host e"
  shows "loadVirtualHosts L kd rnd t file n g = Some (True, n\<lparr>virtual_hosts := forget_errors (virtual_hosts m)\<rparr>, g)"
proof -
  obtain f' d h where w: "open_write f' file True = Some (d, h)"
      "g = write_at h d 0 (js_write L (hosts_document L now m))"
    using assms(2,3) by (auto simp: saveVirtualHosts_def Let_def split: if_splits option.splits prod.splits)
  have r: "read_file g file = Some (js_write L (hosts_document L now m))"
    unfolding w(2) by (rule read_written[OF w(1)])
  have doc: "js_has L (hosts_document L now m) ''virtual_hosts'' = Some True"
    "js_get L (hosts_document L now m) ''virtual_hosts'' = js_array L (map (\<lambda>e. host_json L (snd e)) (virtual_hosts m))"
    unfolding hosts_document_def by (simp_all add: json_lawsD(8,9)[OF assms(1)])
  have "foldl (\<lambda>m (k, v). map_put k v m) [] (forget_errors (virtual_hosts m)) = forget_errors (virtual_hosts m)"
    using put_all_sorted[of "[]" "forget_errors (virtual_hosts m)"] assms(5) by (simp add: sorted_forget)
  then show ?thesis
    using assms(3) load_saved_hosts[OF assms(1,6)]
    by (simp add: loadVirtualHosts_def r assms(4) doc json_lawsD(6,7)[OF assms(1)])
qed

end
