(* ===== verification/Config_Loading.thy ===== *)
theory Config_Loading
  imports Config Json_Values
begin

text \<open>
  \<open>config/server_config.cpp\<close>: the INI, JSON and YAML loaders, \<open>loadFromFile\<close> and \<open>validate\<close>.
  \<open>None\<close> is an exception of \<open>stoi\<close>, \<open>stoul\<close>, jsoncpp or \<open>exists\<close> that leaves the loader.
\<close>

subsection \<open>One setting\<close>

definition is_true :: "string \<Rightarrow> bool" where
  "is_true v = (v = ''true'' \<or> v = ''1'')"

definition int_value :: "(int \<Rightarrow> server_config \<Rightarrow> server_config) \<Rightarrow> string \<Rightarrow> server_config \<Rightarrow> server_config option" where
  "int_value put v cfg = do { n \<leftarrow> stoi v; Some (put n cfg) }"

definition ini_connection :: "string \<Rightarrow> string \<Rightarrow> server_config \<Rightarrow> server_config option" where
  "ini_connection key v cfg =
     (if key = ''bind_address'' then Some (connection_update (bind_address_update (\<lambda>_. v)) cfg)
      else if key = ''bind_port'' then int_value (\<lambda>n. connection_update (bind_port_update (\<lambda>_. n))) v cfg
      else if key = ''max_connections''
      then int_value (\<lambda>n. connection_update (max_connections_update (\<lambda>_. n))) v cfg
      else if key = ''timeout_seconds'' \<or> key = ''connection_timeout''
      then int_value (\<lambda>n. connection_update (timeout_seconds_update (\<lambda>_. n))) v cfg
      else if key = ''enable_compression''
      then Some (transfer_update (enable_compression_update (\<lambda>_. is_true v)) cfg)
      else Some cfg)"

definition yaml_connection :: "string \<Rightarrow> string \<Rightarrow> server_config \<Rightarrow> server_config option" where
  "yaml_connection key v cfg =
     (if key = ''bind_address'' then Some (connection_update (bind_address_update (\<lambda>_. v)) cfg)
      else if key = ''bind_port'' then int_value (\<lambda>n. connection_update (bind_port_update (\<lambda>_. n))) v cfg
      else if key = ''max_connections''
      then int_value (\<lambda>n. connection_update (max_connections_update (\<lambda>_. n))) v cfg
      else if key = ''timeout_seconds''
      then int_value (\<lambda>n. connection_update (timeout_seconds_update (\<lambda>_. n))) v cfg
      else if key = ''passive_mode''
      then Some (connection_update (passive_mode_update (\<lambda>_. is_true v)) cfg)
      else if key = ''passive_port_range_start''
      then int_value (\<lambda>n. connection_update (passive_port_range_start_update (\<lambda>_. n))) v cfg
      else if key = ''passive_port_range_end''
      then int_value (\<lambda>n. connection_update (passive_port_range_end_update (\<lambda>_. n))) v cfg
      else Some cfg)"

text \<open>The sections that the INI and the YAML loader treat alike.\<close>

definition set_logging :: "string \<Rightarrow> string \<Rightarrow> server_config \<Rightarrow> server_config option" where
  "set_logging key v cfg =
     (if key = ''log_file'' then Some (logging_update (log_file_update (\<lambda>_. v)) cfg)
      else if key = ''log_level'' then Some (logging_update (log_level_update (\<lambda>_. v)) cfg)
      else if key = ''log_format'' then Some (logging_update (log_format_update (\<lambda>_. v)) cfg)
      else if key = ''log_to_console''
      then Some (logging_update (log_to_console_update (\<lambda>_. is_true v)) cfg)
      else if key = ''log_to_file''
      then Some (logging_update (log_to_file_update (\<lambda>_. is_true v)) cfg)
      else Some cfg)"

definition set_security :: "string \<Rightarrow> string \<Rightarrow> server_config \<Rightarrow> server_config option" where
  "set_security key v cfg =
     (if key = ''max_sessions_per_user''
      then int_value (\<lambda>n. security_update (max_sessions_per_user_update (\<lambda>_. n))) v cfg
      else if key = ''require_ssl''
      then Some (security_update (require_ssl_update (\<lambda>_. is_true v)) cfg)
      else if key = ''allow_anonymous''
      then Some (security_update (allow_anonymous_update (\<lambda>_. is_true v)) cfg)
      else if key = ''ssl_cert_file'' \<or> key = ''certificate_file''
      then Some (security_update (ssl_cert_file_update (\<lambda>_. v)) cfg)
      else if key = ''ssl_key_file'' \<or> key = ''private_key_file''
      then Some (security_update (ssl_key_file_update (\<lambda>_. v)) cfg)
      else if key = ''chroot_enabled''
      then Some (security_update (chroot_enabled_update (\<lambda>_. is_true v)) cfg)
      else if key = ''chroot_directory''
      then Some (security_update (chroot_directory_update (\<lambda>_. v)) cfg)
      else if key = ''drop_privileges''
      then Some (security_update (drop_privileges_update (\<lambda>_. is_true v)) cfg)
      else if key = ''run_as_user'' then Some (security_update (run_as_user_update (\<lambda>_. v)) cfg)
      else if key = ''run_as_group'' then Some (security_update (run_as_group_update (\<lambda>_. v)) cfg)
      else if key = ''ssl_ca_file'' \<or> key = ''ca_certificate_file''
      then Some (security_update (ssl_ca_file_update (\<lambda>_. v)) cfg)
      else if key = ''require_client_cert''
      then Some (security_update (require_client_cert_update (\<lambda>_. is_true v)) cfg)
      else if key = ''ssl_client_ca_file''
      then Some (security_update (ssl_client_ca_file_update (\<lambda>_. v)) cfg)
      else if key = ''enable_pam''
      then Some (security_update (enable_pam_update (\<lambda>_. is_true v)) cfg)
      else if key = ''user_file'' then Some (security_update (user_file_update (\<lambda>_. v)) cfg)
      else if key = ''virtual_hosts_file''
      then Some (security_update (virtual_hosts_file_update (\<lambda>_. v)) cfg)
      else Some cfg)"

definition set_rate_limit :: "string \<Rightarrow> string \<Rightarrow> server_config \<Rightarrow> server_config option" where
  "set_rate_limit key v cfg =
     (if key = ''enabled''
      then Some (rate_limit_update (rate_limit_enabled_update (\<lambda>_. is_true v)) cfg)
      else if key = ''max_requests_per_minute''
      then int_value (\<lambda>n. rate_limit_update (max_requests_per_minute_update (\<lambda>_. n))) v cfg
      else if key = ''max_connections_per_ip''
      then int_value (\<lambda>n. rate_limit_update (max_connections_per_ip_update (\<lambda>_. n))) v cfg
      else if key = ''max_transfer_rate''
      then int_value (\<lambda>n. rate_limit_update (max_transfer_rate_update (\<lambda>_. n))) v cfg
      else if key = ''max_transfer_rate_per_user''
      then int_value (\<lambda>n. rate_limit_update (max_transfer_rate_per_user_update (\<lambda>_. n))) v cfg
      else Some cfg)"

definition set_transfer :: "string \<Rightarrow> string \<Rightarrow> server_config \<Rightarrow> server_config option" where
  "set_transfer key v cfg =
     (if key = ''use_sendfile'' then Some (transfer_update (use_sendfile_update (\<lambda>_. is_true v)) cfg)
      else if key = ''use_mmap'' then Some (transfer_update (use_mmap_update (\<lambda>_. is_true v)) cfg)
      else if key = ''buffer_size''
      then do { n \<leftarrow> stoul v; Some (transfer_update (buffer_size_update (\<lambda>_. n)) cfg) }
      else if key = ''enable_compression''
      then Some (transfer_update (enable_compression_update (\<lambda>_. is_true v)) cfg)
      else Some cfg)"

definition ini_entry :: "string \<Rightarrow> string \<Rightarrow> string \<Rightarrow> server_config \<Rightarrow> server_config option" where
  "ini_entry sect key v cfg =
     (if sect = ''connection'' \<or> sect = [] then ini_connection key v cfg
      else if sect = ''logging'' then set_logging key v cfg
      else if sect = ''security'' then set_security key v cfg
      else if sect = ''rate_limit'' then set_rate_limit key v cfg
      else if sect = ''transfer'' then set_transfer key v cfg
      else Some cfg)"

definition yaml_entry :: "string \<Rightarrow> string \<Rightarrow> string \<Rightarrow> server_config \<Rightarrow> server_config option" where
  "yaml_entry sect key v cfg =
     (if sect = ''connection'' then yaml_connection key v cfg
      else if sect = ''logging'' then set_logging key v cfg
      else if sect = ''security'' then set_security key v cfg
      else if sect = ''rate_limit'' then set_rate_limit key v cfg
      else if sect = ''transfer'' then set_transfer key v cfg
      else Some cfg)"

subsection \<open>Lines\<close>

definition before_comment :: "string \<Rightarrow> string" where
  "before_comment line = takeWhile (\<lambda>x. x \<noteq> CHR ''#'') line"

definition quoted_by :: "char \<Rightarrow> string \<Rightarrow> bool" where
  "quoted_by q v = (2 \<le> length v \<and> hd v = q \<and> last v = q)"

definition ini_line :: "string \<Rightarrow> string \<times> server_config \<Rightarrow> (string \<times> server_config) option" where
  "ini_line raw = (\<lambda>(sect, cfg).
     let line = trim (before_comment raw)
     in if line = [] then Some (sect, cfg)
        else if hd line = CHR ''['' \<and> last line = CHR '']'' then Some (butlast (tl line), cfg)
        else (case cut_at CHR ''='' line of
                None \<Rightarrow> Some (sect, cfg)
              | Some (key, v) \<Rightarrow>
                  let v = trim v; v = (if quoted_by CHR 0x22 v then butlast (tl v) else v)
                  in do { cfg \<leftarrow> ini_entry sect (trim key) v cfg; Some (sect, cfg) }))"

definition yaml_line :: "string \<Rightarrow> string \<times> server_config \<Rightarrow> (string \<times> server_config) option" where
  "yaml_line raw = (\<lambda>(sect, cfg).
     let line = trim_left (before_comment raw)
     in if line = [] then Some (sect, cfg)
        else if last line = CHR '':'' then Some (trim (butlast line), cfg)
        else (case cut_at CHR '':'' line of
                None \<Rightarrow> Some (sect, cfg)
              | Some (key, v) \<Rightarrow>
                  let v = trim v;
                      v = (if quoted_by CHR 0x22 v \<or> quoted_by CHR 0x27 v then butlast (tl v) else v)
                  in do { cfg \<leftarrow> yaml_entry sect (trim key) v cfg; Some (sect, cfg) }))"

definition loadFromINI :: "filesys \<Rightarrow> string \<Rightarrow> server_config \<Rightarrow> (bool \<times> server_config) option" where
  "loadFromINI f file cfg = (case read_file f file of
     None \<Rightarrow> Some (False, errors_update (\<lambda>es. es @ [''Failed to open configuration file: '' @ file]) cfg)
   | Some text \<Rightarrow>
       do { (sect, cfg) \<leftarrow> run_all (map ini_line (getline_fields CHR 0x0A text)) ([], cfg);
            Some (True, cfg) })"

definition loadFromYAML :: "filesys \<Rightarrow> string \<Rightarrow> server_config \<Rightarrow> (bool \<times> server_config) option" where
  "loadFromYAML f file cfg = (case read_file f file of
     None \<Rightarrow> Some (False, errors_update (\<lambda>es. es @ [''Failed to open YAML configuration file: '' @ file]) cfg)
   | Some text \<Rightarrow>
       do { (sect, cfg) \<leftarrow> run_all (map yaml_line (getline_fields CHR 0x0A text)) ([], cfg);
            Some (True, cfg) })"

subsection \<open>JSON\<close>

definition json_connection :: "'j json_lib \<Rightarrow> 'j \<Rightarrow> server_config \<Rightarrow> server_config option" where
  "json_connection L j = run_all
     [json_field L j ''bind_address'' (js_string L) (\<lambda>v. connection_update (bind_address_update (\<lambda>_. v))),
      json_field L j ''bind_port'' (js_int L) (\<lambda>v. connection_update (bind_port_update (\<lambda>_. v))),
      json_field L j ''max_connections'' (js_int L) (\<lambda>v. connection_update (max_connections_update (\<lambda>_. v))),
      json_field L j ''timeout_seconds'' (js_int L) (\<lambda>v. connection_update (timeout_seconds_update (\<lambda>_. v))),
      json_field L j ''passive_mode'' (js_bool L) (\<lambda>v. connection_update (passive_mode_update (\<lambda>_. v))),
      json_field L j ''passive_port_range_start'' (js_int L)
        (\<lambda>v. connection_update (passive_port_range_start_update (\<lambda>_. v))),
      json_field L j ''passive_port_range_end'' (js_int L)
        (\<lambda>v. connection_update (passive_port_range_end_update (\<lambda>_. v)))]"

definition json_logging :: "'j json_lib \<Rightarrow> 'j \<Rightarrow> server_config \<Rightarrow> server_config option" where
  "json_logging L j = run_all
     [json_field L j ''log_file'' (js_string L) (\<lambda>v. logging_update (log_file_update (\<lambda>_. v))),
      json_field L j ''log_level'' (js_string L) (\<lambda>v. logging_update (log_level_update (\<lambda>_. v))),
      json_field L j ''log_format'' (js_string L) (\<lambda>v. logging_update (log_format_update (\<lambda>_. v))),
      json_field L j ''log_to_console'' (js_bool L) (\<lambda>v. logging_update (log_to_console_update (\<lambda>_. v))),
      json_field L j ''log_to_file'' (js_bool L) (\<lambda>v. logging_update (log_to_file_update (\<lambda>_. v)))]"

definition json_security :: "'j json_lib \<Rightarrow> 'j \<Rightarrow> server_config \<Rightarrow> server_config option" where
  "json_security L j = run_all
     [json_field L j ''max_sessions_per_user'' (js_int L)
        (\<lambda>v. security_update (max_sessions_per_user_update (\<lambda>_. v))),
      json_field L j ''require_ssl'' (js_bool L) (\<lambda>v. security_update (require_ssl_update (\<lambda>_. v))),
      json_field L j ''allow_anonymous'' (js_bool L) (\<lambda>v. security_update (allow_anonymous_update (\<lambda>_. v))),
      json_field L j ''ssl_cert_file'' (js_string L) (\<lambda>v. security_update (ssl_cert_file_update (\<lambda>_. v))),
      json_field L j ''ssl_key_file'' (js_string L) (\<lambda>v. security_update (ssl_key_file_update (\<lambda>_. v))),
      json_field L j ''ssl_ca_file'' (js_string L) (\<lambda>v. security_update (ssl_ca_file_update (\<lambda>_. v))),
      json_field L j ''require_client_cert'' (js_bool L)
        (\<lambda>v. security_update (require_client_cert_update (\<lambda>_. v))),
      json_field L j ''ssl_client_ca_file'' (js_string L)
        (\<lambda>v. security_update (ssl_client_ca_file_update (\<lambda>_. v))),
      json_field L j ''chroot_enabled'' (js_bool L) (\<lambda>v. security_update (chroot_enabled_update (\<lambda>_. v))),
      json_field L j ''chroot_directory'' (js_string L)
        (\<lambda>v. security_update (chroot_directory_update (\<lambda>_. v))),
      json_field L j ''drop_privileges'' (js_bool L) (\<lambda>v. security_update (drop_privileges_update (\<lambda>_. v))),
      json_field L j ''run_as_user'' (js_string L) (\<lambda>v. security_update (run_as_user_update (\<lambda>_. v))),
      json_field L j ''run_as_group'' (js_string L) (\<lambda>v. security_update (run_as_group_update (\<lambda>_. v))),
      json_field L j ''enable_pam'' (js_bool L) (\<lambda>v. security_update (enable_pam_update (\<lambda>_. v))),
      json_field L j ''user_file'' (js_string L) (\<lambda>v. security_update (user_file_update (\<lambda>_. v))),
      json_field L j ''virtual_hosts_file'' (js_string L)
        (\<lambda>v. security_update (virtual_hosts_file_update (\<lambda>_. v)))]"

definition json_rate_limit :: "'j json_lib \<Rightarrow> 'j \<Rightarrow> server_config \<Rightarrow> server_config option" where
  "json_rate_limit L j = run_all
     [json_field L j ''enabled'' (js_bool L) (\<lambda>v. rate_limit_update (rate_limit_enabled_update (\<lambda>_. v))),
      json_field L j ''max_requests_per_minute'' (js_int L)
        (\<lambda>v. rate_limit_update (max_requests_per_minute_update (\<lambda>_. v))),
      json_field L j ''max_connections_per_ip'' (js_int L)
        (\<lambda>v. rate_limit_update (max_connections_per_ip_update (\<lambda>_. v))),
      json_field L j ''max_transfer_rate'' (js_int L)
        (\<lambda>v. rate_limit_update (max_transfer_rate_update (\<lambda>_. v))),
      json_field L j ''max_transfer_rate_per_user'' (js_int L)
        (\<lambda>v. rate_limit_update (max_transfer_rate_per_user_update (\<lambda>_. v)))]"

definition json_transfer :: "'j json_lib \<Rightarrow> 'j \<Rightarrow> server_config \<Rightarrow> server_config option" where
  "json_transfer L j = run_all
     [json_field L j ''use_sendfile'' (js_bool L) (\<lambda>v. transfer_update (use_sendfile_update (\<lambda>_. v))),
      json_field L j ''use_mmap'' (js_bool L) (\<lambda>v. transfer_update (use_mmap_update (\<lambda>_. v))),
      json_field L j ''buffer_size'' (js_uint L) (\<lambda>v. transfer_update (buffer_size_update (\<lambda>_. v))),
      json_field L j ''enable_compression'' (js_bool L)
        (\<lambda>v. transfer_update (enable_compression_update (\<lambda>_. v)))]"

definition json_section ::
  "'j json_lib \<Rightarrow> 'j \<Rightarrow> string \<Rightarrow> ('j \<Rightarrow> server_config \<Rightarrow> server_config option) \<Rightarrow>
   server_config \<Rightarrow> server_config option" where
  "json_section L doc name load cfg =
     do { present \<leftarrow> js_has L doc name; if present then load (js_get L doc name) cfg else Some cfg }"

definition loadFromJSON :: "'j json_lib \<Rightarrow> filesys \<Rightarrow> string \<Rightarrow> server_config \<Rightarrow> (bool \<times> server_config) option" where
  "loadFromJSON L f file cfg = (case read_file f file of
     None \<Rightarrow> Some (False, errors_update (\<lambda>es. es @ [''Failed to open JSON configuration file: '' @ file]) cfg)
   | Some text \<Rightarrow>
       (case js_parse L text of
          None \<Rightarrow> Some (False, errors_update
            (\<lambda>es. es @ [''Failed to parse JSON configuration: '' @ js_errors L text]) cfg)
        | Some doc \<Rightarrow>
            do { cfg \<leftarrow> run_all
                   [json_section L doc ''connection'' (json_connection L),
                    json_section L doc ''logging'' (json_logging L),
                    json_section L doc ''security'' (json_security L),
                    json_section L doc ''rate_limit'' (json_rate_limit L),
                    json_section L doc ''transfer'' (json_transfer L)] cfg;
                 Some (True, cfg) }))"

subsection \<open>The configuration file\<close>

definition clear_errors :: "server_config \<Rightarrow> server_config" where
  "clear_errors cfg = cfg\<lparr>errors := [], warnings := []\<rparr>"

text \<open>The defaults \<open>loadFromFile\<close> sets again; the other settings keep their values.\<close>

definition reset_defaults :: "server_config \<Rightarrow> server_config" where
  "reset_defaults cfg = (clear_errors cfg)
     \<lparr>connection := (connection cfg)\<lparr>bind_address := ''0.0.0.0'', bind_port := 21, max_connections := 100,
                                   timeout_seconds := 300\<rparr>,
      logging := (logging cfg)\<lparr>log_file := ''/var/log/simple-sftpd/simple-sftpd.log'', log_level := ''INFO'',
                             log_to_console := True, log_to_file := True\<rparr>,
      security := (security cfg)\<lparr>require_ssl := False, allow_anonymous := False\<rparr>,
      rate_limit := (rate_limit cfg)\<lparr>rate_limit_enabled := False, max_requests_per_minute := 60,
                                   max_connections_per_ip := 10\<rparr>\<rparr>"

definition loadFromFile :: "'j json_lib \<Rightarrow> filesys \<Rightarrow> string \<Rightarrow> server_config \<Rightarrow> (bool \<times> server_config) option" where
  "loadFromFile L f file cfg =
     (let cfg = reset_defaults cfg
      in case fs_exists f file of
           None \<Rightarrow> None
         | Some False \<Rightarrow> Some (True, warnings_update
             (\<lambda>ws. ws @ [''Configuration file not found: '' @ file @ '', using defaults'']) cfg)
         | Some True \<Rightarrow>
             (let ext = to_lower (extension file)
              in if ext = ''.json'' then loadFromJSON L f file cfg
                 else if ext = ''.yml'' \<or> ext = ''.yaml'' then loadFromYAML f file cfg
                 else loadFromINI f file cfg))"

definition validate :: "server_config \<Rightarrow> bool \<times> server_config" where
  "validate cfg =
     (let cfg = clear_errors cfg; cc = connection cfg;
          add = (\<lambda>bad text (cfg :: server_config). if bad then errors_update (\<lambda>es. es @ [text]) cfg else cfg);
          cfg = add (bind_port cc < 0 \<or> 65535 < bind_port cc) (''Invalid bind port: '' @ to_string (bind_port cc)) cfg;
          cfg = add (max_connections cc \<le> 0) (''Invalid max connections: '' @ to_string (max_connections cc)) cfg;
          cfg = add (timeout_seconds cc \<le> 0) (''Invalid timeout: '' @ to_string (timeout_seconds cc)) cfg
      in (errors cfg = [], cfg))"

lemma validate_iff:
  "fst (validate cfg) =
     (0 \<le> bind_port (connection cfg) \<and> bind_port (connection cfg) \<le> 65535 \<and>
      0 < max_connections (connection cfg) \<and> 0 < timeout_seconds (connection cfg))"
  by (auto simp: validate_def clear_errors_def Let_def)

subsection \<open>Texts made of lines\<close>

definition unlines :: "string list \<Rightarrow> string" where
  "unlines ls = concat (map (\<lambda>l. l @ [CHR 0x0A]) ls)"

lemma split_unlines: "\<forall>l\<in>set ls. CHR 0x0A \<notin> set l \<Longrightarrow> split_on CHR 0x0A (unlines ls) = ls @ [[]]"
  by (induction ls) (simp_all add: unlines_def split_on_append)

lemma getline_unlines: "\<forall>l\<in>set ls. CHR 0x0A \<notin> set l \<Longrightarrow> getline_fields CHR 0x0A (unlines ls) = ls"
  by (simp add: getline_fields_def split_unlines)

lemma run_all_append: "run_all (fs @ gs) s = do { s \<leftarrow> run_all fs s; run_all gs s }"
proof (induction fs arbitrary: s)
  case (Cons f fs)
  then show ?case
    by (cases "f s") simp_all
qed simp

lemma run_all_invariant:
  "run_all fs s = Some t \<Longrightarrow> I s \<Longrightarrow> (\<And>f s t. f \<in> set fs \<Longrightarrow> I s \<Longrightarrow> f s = Some t \<Longrightarrow> I t) \<Longrightarrow> I t"
proof (induction fs arbitrary: s)
  case (Cons f fs)
  obtain u where "f s = Some u" "run_all fs u = Some t"
    using Cons.prems(1) by (auto simp: bind_eq_Some_conv)
  then show ?case
    using Cons.IH[of u] Cons.prems(2,3) by auto
qed simp

subsection \<open>Files with carriage returns\<close>

lemma trim_keeps_last: "l \<noteq> [] \<Longrightarrow> \<not> is_blank (last l) \<Longrightarrow> trim l \<noteq> [] \<and> last (trim l) = last l"
proof (induction l)
  case (Cons x l)
  have r: "trim_right (y # ys) = y # ys" if "\<not> is_blank (last (y # ys))" for y ys
  proof -
    obtain z zs where z: "rev (y # ys) = z # zs"
      by (cases "rev (y # ys)") auto
    then have "z = last (y # ys)"
      by (metis last_rev list.sel(1) rev_is_Nil_conv list.distinct(1) hd_rev)
    then have "dropWhile is_blank (rev (y # ys)) = rev (y # ys)"
      using that z by simp
    then show ?thesis
      by (simp add: trim_right_def)
  qed
  show ?case
  proof (cases "is_blank x")
    case True
    then have "l \<noteq> []"
      using Cons.prems by auto
    then show ?thesis
      using Cons True by (simp add: trim_def trim_left_def)
  next
    case False
    then show ?thesis
      using r[OF Cons.prems(2)] by (simp add: trim_def trim_left_def)
  qed
qed simp

text \<open>Where the top section stays open, nothing but the connection and one transfer flag changes.\<close>

definition top_only :: "server_config \<Rightarrow> string \<times> server_config \<Rightarrow> bool" where
  "top_only cfg s =
     (fst s = [] \<and> security (snd s) = security cfg \<and> logging (snd s) = logging cfg \<and>
      rate_limit (snd s) = rate_limit cfg)"

lemma pred_option_int: "(\<And>n. P (put n c)) \<Longrightarrow> pred_option P (int_value put v c)"
  unfolding int_value_def by (rule pred_option_bind) simp

lemma ini_connection_frame:
  "pred_option (\<lambda>d. security d = security c \<and> logging d = logging c \<and> rate_limit d = rate_limit c)
     (ini_connection key v c)"
  by (simp add: ini_connection_def pred_option_if pred_option_int)

lemma ini_line_cr:
  assumes "CHR ''#'' \<notin> set l" "top_only cfg s" "ini_line (l @ [CHR 0x0D]) s = Some t"
  shows "top_only cfg t"
proof -
  let ?l = "trim (l @ [CHR 0x0D])"
  have bc: "before_comment (l @ [CHR 0x0D]) = l @ [CHR 0x0D]"
    using assms(1) by (auto simp: before_comment_def takeWhile_eq_all_conv)
  have tl: "?l \<noteq> []" "last ?l = CHR 0x0D"
    using trim_keeps_last[of "l @ [CHR 0x0D]"] by (simp_all add: is_blank_def)
  obtain c where s: "s = ([], c)"
      and c: "security c = security cfg" "logging c = logging cfg" "rate_limit c = rate_limit cfg"
    using assms(2) by (cases s) (simp add: top_only_def)
  have entry: "security d = security cfg \<and> logging d = logging cfg \<and> rate_limit d = rate_limit cfg"
    if "ini_connection key v c = Some d" for key v d
    using ini_connection_frame[of c key v] that c by simp
  show ?thesis
    using assms(3) bc tl s c entry
    by (auto simp: ini_line_def Let_def top_only_def ini_entry_def bind_eq_Some_conv split: option.splits)
qed

lemma crlf_load:
  assumes "loadFromINI f p cfg = Some (b, cfg')" "read_file f p = Some (unlines (map (\<lambda>l. l @ [CHR 0x0D]) ls))"
    and "\<forall>l\<in>set ls. CHR 0x0A \<notin> set l \<and> CHR ''#'' \<notin> set l"
  shows "security cfg' = security cfg \<and> logging cfg' = logging cfg \<and> rate_limit cfg' = rate_limit cfg"
proof -
  let ?ls = "map (\<lambda>l. l @ [CHR 0x0D]) ls"
  have "getline_fields CHR 0x0A (unlines ?ls) = ?ls"
    using assms(3) by (intro getline_unlines) auto
  then obtain sect where r: "run_all (map ini_line ?ls) ([], cfg) = Some (sect, cfg')"
    using assms(1,2) by (auto simp: loadFromINI_def bind_eq_Some_conv)
  have "top_only cfg (sect, cfg')"
  proof (rule run_all_invariant[OF r])
    show "top_only cfg ([], cfg)"
      by (simp add: top_only_def)
  next
    fix g s t
    assume "g \<in> set (map ini_line ?ls)" "top_only cfg s" "g s = Some t"
    then show "top_only cfg t"
      using assms(3) by (auto intro: ini_line_cr)
  qed
  then show ?thesis
    by (simp add: top_only_def)
qed

subsection \<open>One configuration, two notations\<close>

text \<open>A word both notations can carry: no delimiter in it, no blank at its ends.\<close>

definition plain :: "string \<Rightarrow> bool" where
  "plain w =
     (w \<noteq> [] \<and> \<not> is_blank (hd w) \<and> \<not> is_blank (last w) \<and>
      (\<forall>x\<in>set w. x \<notin> {CHR ''#'', CHR ''='', CHR '':'', CHR 0x0A, CHR 0x22, CHR 0x27, CHR ''['', CHR '']''}))"

type_synonym settings = "(string \<times> (string \<times> string) list) list"

definition ini_text :: "settings \<Rightarrow> string" where
  "ini_text es = unlines (concat (map (\<lambda>(sect, kvs).
     (''['' @ sect @ '']'') # map (\<lambda>(k, v). k @ '' = '' @ v) kvs) es))"

definition yaml_text :: "settings \<Rightarrow> string" where
  "yaml_text es = unlines (concat (map (\<lambda>(sect, kvs).
     (sect @ '':'') # map (\<lambda>(k, v). ''  '' @ k @ '': '' @ v) kvs) es))"

text \<open>The settings both loaders know under the same name.\<close>

definition common_key :: "string \<Rightarrow> string \<Rightarrow> bool" where
  "common_key sect k =
     (sect = ''connection'' \<longrightarrow>
        k \<notin> {''connection_timeout'', ''enable_compression'', ''passive_mode'',
             ''passive_port_range_start'', ''passive_port_range_end''})"

definition plain_settings :: "settings \<Rightarrow> bool" where
  "plain_settings es =
     (\<forall>(sect, kvs)\<in>set es. plain sect \<and> (\<forall>(k, v)\<in>set kvs. plain k \<and> plain v \<and> common_key sect k))"

definition set_all :: "settings \<Rightarrow> server_config \<Rightarrow> server_config option" where
  "set_all es = run_all (map (\<lambda>(sect, kvs). run_all (map (\<lambda>(k, v). ini_entry sect k v) kvs)) es)"

lemma trim_right_word: "w \<noteq> [] \<Longrightarrow> \<not> is_blank (last w) \<Longrightarrow> trim_right w = w"
  by (cases w rule: rev_cases) (simp_all add: trim_right_def)

lemma trim_word:
  assumes "plain w"
  shows "trim w = w" "trim (w @ '' '') = w" "trim (CHR '' '' # w) = w" "trim_left w = w"
    "trim_left (CHR '' '' # CHR '' '' # w @ u) = w @ u"
proof -
  obtain x y where w: "w = x # y" "\<not> is_blank x"
    using assms by (cases w) (auto simp: plain_def)
  have sp: "is_blank (CHR '' '')"
    by (simp add: is_blank_def)
  have r: "trim_right w = w"
    using assms by (intro trim_right_word) (simp_all add: plain_def)
  have r': "trim_right (w @ '' '') = trim_right w"
    by (simp add: trim_right_def sp)
  show "trim w = w" "trim (w @ '' '') = w" "trim (CHR '' '' # w) = w" "trim_left w = w"
    "trim_left (CHR '' '' # CHR '' '' # w @ u) = w @ u"
    using r r' w sp by (simp_all add: trim_def trim_left_def)
qed

lemma plain_joined:
  assumes "plain k" "plain v"
  shows "trim (k @ u @ v) = k @ u @ v"
proof -
  obtain x w where k: "k = x # w" "\<not> is_blank x"
    using assms(1) by (cases k) (auto simp: plain_def)
  have "v \<noteq> []" "\<not> is_blank (last v)"
    using assms(2) by (simp_all add: plain_def)
  then have "trim_right (k @ u @ v) = k @ u @ v"
    by (intro trim_right_word) simp_all
  then show ?thesis
    using k by (simp add: trim_def trim_left_def)
qed

lemma plain_before_comment:
  "CHR ''#'' \<notin> set w \<Longrightarrow> before_comment w = w"
  by (simp add: before_comment_def takeWhile_eq_all_conv) blast

lemma plain_chars:
  assumes "plain w"
  shows "CHR ''#'' \<notin> set w" "CHR ''='' \<notin> set w" "CHR '':'' \<notin> set w" "CHR 0x0A \<notin> set w"
    "hd w \<noteq> CHR 0x22" "hd w \<noteq> CHR 0x27" "hd w \<noteq> CHR ''[''" "last w \<noteq> CHR '':''" "w \<noteq> []"
proof -
  have w: "w \<noteq> []" "\<forall>x\<in>set w. x \<notin> {CHR ''#'', CHR ''='', CHR '':'', CHR 0x0A, CHR 0x22, CHR 0x27, CHR ''['', CHR '']''}"
    using assms by (simp_all add: plain_def)
  then show "CHR ''#'' \<notin> set w" "CHR ''='' \<notin> set w" "CHR '':'' \<notin> set w" "CHR 0x0A \<notin> set w" "w \<noteq> []"
    by auto
  show "hd w \<noteq> CHR 0x22" "hd w \<noteq> CHR 0x27" "hd w \<noteq> CHR ''[''" "last w \<noteq> CHR '':''"
    using w hd_in_set[of w] last_in_set[of w] by auto
qed

lemma ini_header: "plain sect \<Longrightarrow> ini_line (''['' @ sect @ '']'') (s, cfg) = Some (sect, cfg)"
proof -
  assume p: "plain sect"
  have "trim (''['' @ sect @ '']'') = ''['' @ sect @ '']''"
    by (simp add: trim_def trim_left_def trim_right_def is_blank_def)
  then show ?thesis
    using plain_chars(1)[OF p] by (simp add: ini_line_def plain_before_comment)
qed

lemma ini_setting:
  assumes "plain k" "plain v"
  shows "ini_line (k @ '' = '' @ v) (s, cfg) = map_option (Pair s) (ini_entry s k v cfg)"
proof -
  note kc = plain_chars[OF assms(1)] and vc = plain_chars[OF assms(2)]
  have "hd (k @ '' = '' @ v) \<noteq> CHR ''[''"
    using kc by simp
  moreover have "cut_at CHR ''='' ((k @ '' '') @ CHR ''='' # CHR '' '' # v) = Some (k @ '' '', CHR '' '' # v)"
    using kc by (intro cut_at_append) simp
  moreover have "trim (k @ '' = '' @ v) = k @ '' = '' @ v" "before_comment (k @ '' = '' @ v) = k @ '' = '' @ v"
    using plain_joined[OF assms, of "'' = ''"] kc vc by (simp_all add: plain_before_comment)
  ultimately show ?thesis
    using trim_word[OF assms(1)] trim_word[OF assms(2)] vc(5)
    by (cases "ini_entry s k v cfg") (simp_all add: ini_line_def Let_def quoted_by_def)
qed

lemma yaml_header: "plain sect \<Longrightarrow> yaml_line (sect @ '':'') (s, cfg) = Some (sect, cfg)"
proof -
  assume p: "plain sect"
  obtain x u where w: "sect = x # u" "\<not> is_blank x"
    using p by (cases sect) (auto simp: plain_def)
  have "trim_left (sect @ '':'') = sect @ '':''"
    using w by (simp add: trim_left_def)
  then show ?thesis
    using plain_chars(1)[OF p] trim_word(1)[OF p] by (simp add: yaml_line_def plain_before_comment)
qed

lemma yaml_setting:
  assumes "plain k" "plain v"
  shows "yaml_line (''  '' @ k @ '': '' @ v) (s, cfg) = map_option (Pair s) (yaml_entry s k v cfg)"
proof -
  note kc = plain_chars[OF assms(1)] and vc = plain_chars[OF assms(2)]
  have "trim_left (''  '' @ k @ '': '' @ v) = k @ '': '' @ v"
    using trim_word(5)[OF assms(1)] by simp
  moreover have "cut_at CHR '':'' (k @ CHR '':'' # CHR '' '' # v) = Some (k, CHR '' '' # v)"
    using kc by (intro cut_at_append) simp
  moreover have "before_comment (''  '' @ k @ '': '' @ v) = ''  '' @ k @ '': '' @ v"
    using kc vc by (intro plain_before_comment) simp
  ultimately show ?thesis
    using trim_word[OF assms(1)] trim_word[OF assms(2)] vc(5,6,8,9)
    by (cases "yaml_entry s k v cfg") (simp_all add: yaml_line_def Let_def quoted_by_def)
qed

text \<open>A section of either text runs its settings one after the other.\<close>

lemma run_settings:
  assumes "\<And>k v cfg. (k, v) \<in> set kvs \<Longrightarrow> line k v (s, cfg) = map_option (Pair s) (entry k v cfg)"
  shows "run_all (map (\<lambda>(k, v). line k v) kvs) (s, cfg) =
         map_option (Pair s) (run_all (map (\<lambda>(k, v). entry k v) kvs) cfg)"
  using assms
proof (induction kvs arbitrary: cfg)
  case (Cons kv kvs)
  obtain k v where kv: "kv = (k, v)"
    by (cases kv)
  have l: "line k v (s, cfg) = map_option (Pair s) (entry k v cfg)"
    using Cons.prems by (simp add: kv)
  show ?case
    using Cons.IH[OF Cons.prems] by (cases "entry k v cfg") (simp_all add: kv l)
qed simp

lemma run_sections:
  assumes "\<And>sect kvs s cfg. (sect, kvs) \<in> set es \<Longrightarrow> header sect (s, cfg) = Some (sect, cfg)"
    and "\<And>sect kvs k v cfg. (sect, kvs) \<in> set es \<Longrightarrow> (k, v) \<in> set kvs \<Longrightarrow>
           line k v (sect, cfg) = map_option (Pair sect) (entry sect k v cfg)"
  shows "map_option snd (run_all (concat (map (\<lambda>(sect, kvs). header sect # map (\<lambda>(k, v). line k v) kvs) es)) (s, cfg)) =
         run_all (map (\<lambda>(sect, kvs). run_all (map (\<lambda>(k, v). entry sect k v) kvs)) es) cfg"
  using assms
proof (induction es arbitrary: s cfg)
  case (Cons e es)
  obtain sect kvs where e: "e = (sect, kvs)"
    by (cases e)
  have "run_all (map (\<lambda>(k, v). line k v) kvs) (sect, cfg) =
      map_option (Pair sect) (run_all (map (\<lambda>(k, v). entry sect k v) kvs) cfg)"
    by (intro run_settings Cons.prems(2)[of sect kvs]) (auto simp: e)
  moreover have "header sect (s, cfg) = Some (sect, cfg)"
    by (rule Cons.prems(1)[of sect kvs]) (simp add: e)
  moreover have "map_option snd (run_all (concat (map (\<lambda>(sect, kvs). header sect # map (\<lambda>(k, v). line k v) kvs) es)) (s, cfg)) =
      run_all (map (\<lambda>(sect, kvs). run_all (map (\<lambda>(k, v). entry sect k v) kvs)) es) cfg" for s cfg
    by (rule Cons.IH) (auto intro: Cons.prems)
  ultimately show ?case
    by (cases "run_all (map (\<lambda>(k, v). entry sect k v) kvs) cfg") (simp_all add: e run_all_append)
qed simp

lemma common_entry: "plain sect \<Longrightarrow> common_key sect k \<Longrightarrow> yaml_entry sect k v cfg = ini_entry sect k v cfg"
  by (simp add: yaml_entry_def ini_entry_def common_key_def yaml_connection_def ini_connection_def plain_def)

lemma ini_lines:
  "map ini_line (concat (map (\<lambda>(sect, kvs). f sect # map (\<lambda>(k, v). g k v) kvs) es)) =
   concat (map (\<lambda>(sect, kvs). ini_line (f sect) # map (\<lambda>(k, v). ini_line (g k v)) kvs) es)"
  by (induction es) (auto simp: case_prod_beta)

lemma yaml_lines:
  "map yaml_line (concat (map (\<lambda>(sect, kvs). f sect # map (\<lambda>(k, v). g k v) kvs) es)) =
   concat (map (\<lambda>(sect, kvs). yaml_line (f sect) # map (\<lambda>(k, v). yaml_line (g k v)) kvs) es)"
  by (induction es) (auto simp: case_prod_beta)

lemma settingsD:
  assumes "plain_settings es" "(sect, kvs) \<in> set es"
  shows "plain sect" "(k, v) \<in> set kvs \<Longrightarrow> plain k" "(k, v) \<in> set kvs \<Longrightarrow> plain v"
    "(k, v) \<in> set kvs \<Longrightarrow> common_key sect k"
  using assms unfolding plain_settings_def by fastforce+

lemma section_lines:
  assumes "\<And>sect kvs. (sect, kvs) \<in> set es \<Longrightarrow> ok (f sect)"
    and "\<And>sect kvs k v. (sect, kvs) \<in> set es \<Longrightarrow> (k, v) \<in> set kvs \<Longrightarrow> ok (g k v)"
  shows "\<forall>l\<in>set (concat (map (\<lambda>(sect, kvs). f sect # map (\<lambda>(k, v). g k v) kvs) es)). ok l"
proof
  fix l
  assume "l \<in> set (concat (map (\<lambda>(sect, kvs). f sect # map (\<lambda>(k, v). g k v) kvs) es))"
  then obtain sect kvs where e: "(sect, kvs) \<in> set es" "l = f sect \<or> (\<exists>(k, v)\<in>set kvs. l = g k v)"
    by auto
  then show "ok l"
    using assms by blast
qed

lemma load_ini_text:
  assumes "read_file f p = Some (ini_text es)" "plain_settings es"
  shows "loadFromINI f p cfg = map_option (Pair True) (set_all es cfg)"
proof -
  let ?ls = "concat (map (\<lambda>(sect, kvs). (''['' @ sect @ '']'') # map (\<lambda>(k, v). k @ '' = '' @ v) kvs) es)"
  note ps = settingsD[OF assms(2)]
  have "\<forall>l\<in>set ?ls. CHR 0x0A \<notin> set l"
    using ps plain_chars(4) by (intro section_lines) simp_all
  then have "getline_fields CHR 0x0A (ini_text es) = ?ls"
    unfolding ini_text_def by (rule getline_unlines)
  moreover have "set_all es cfg = map_option snd (run_all (map ini_line ?ls) ([], cfg))"
    unfolding set_all_def ini_lines by (intro run_sections[symmetric] ini_header ini_setting ps)
  ultimately show ?thesis
    using assms(1) by (cases "run_all (map ini_line ?ls) ([], cfg)") (auto simp: loadFromINI_def)
qed

lemma load_yaml_text:
  assumes "read_file f p = Some (yaml_text es)" "plain_settings es"
  shows "loadFromYAML f p cfg = map_option (Pair True) (set_all es cfg)"
proof -
  let ?ls = "concat (map (\<lambda>(sect, kvs). (sect @ '':'') # map (\<lambda>(k, v). ''  '' @ k @ '': '' @ v) kvs) es)"
  note ps = settingsD[OF assms(2)]
  have "\<forall>l\<in>set ?ls. CHR 0x0A \<notin> set l"
    using ps plain_chars(4) by (intro section_lines) simp_all
  then have "getline_fields CHR 0x0A (yaml_text es) = ?ls"
    unfolding yaml_text_def by (rule getline_unlines)
  moreover have "yaml_line (''  '' @ k @ '': '' @ v) (sect, cfg) = map_option (Pair sect) (ini_entry sect k v cfg)"
    if "(sect, kvs) \<in> set es" "(k, v) \<in> set kvs" for sect kvs k v cfg
    using yaml_setting[OF ps(2,3)[OF that]] common_entry[OF ps(1,4)] that by metis
  then have "set_all es cfg = map_option snd (run_all (map yaml_line ?ls) ([], cfg))"
    unfolding set_all_def yaml_lines by (intro run_sections[symmetric] yaml_header ps)
  ultimately show ?thesis
    using assms(1) by (cases "run_all (map yaml_line ?ls) ([], cfg)") (auto simp: loadFromYAML_def)
qed

end
