(* ===== verification/Json_Sample.thy ===== *)
theory Json_Sample
  imports Samples Host_Store Config_Loading
begin

text \<open>
  A concrete library of JSON values on which the properties of the stores are tried: a writer with
  self-delimiting texts, its reader, and the conversions of jsoncpp the sources use.
\<close>

datatype json =
    JNull
  | JBool bool
  | JInt int
  | JString string
  | JArray "json list"
  | JObject "(string \<times> json) list"

fun put_json :: "json \<Rightarrow> string" and put_list :: "json list \<Rightarrow> string" and put_members :: "(string \<times> json) list \<Rightarrow> string" where
  "put_json JNull = ''n''"
| "put_json (JBool b) = (if b then ''t'' else ''f'')"
| "put_json (JInt i) = ''i'' @ to_string i @ [CHR 0x00]"
| "put_json (JString s) = ''s'' @ s @ [CHR 0x00]"
| "put_json (JArray vs) = ''a'' @ put_list vs"
| "put_json (JObject ms) = ''o'' @ put_members ms"
| "put_list [] = ''.''"
| "put_list (v # vs) = CHR '','' # put_json v @ put_list vs"
| "put_members [] = ''.''"
| "put_members (m # ms) = CHR '','' # fst m @ CHR 0x00 # put_json (snd m) @ put_members ms"

fun get_json :: "nat \<Rightarrow> string \<Rightarrow> (json \<times> string) option"
  and get_list :: "nat \<Rightarrow> string \<Rightarrow> (json list \<times> string) option"
  and get_members :: "nat \<Rightarrow> string \<Rightarrow> ((string \<times> json) list \<times> string) option" where
  "get_json 0 s = None"
| "get_json (Suc n) s = (case s of
     [] \<Rightarrow> None
   | c # r \<Rightarrow>
       if c = CHR ''n'' then Some (JNull, r)
       else if c = CHR ''t'' then Some (JBool True, r)
       else if c = CHR ''f'' then Some (JBool False, r)
       else if c = CHR ''i'' then
         do { (d, r) \<leftarrow> cut_at CHR 0x00 r; (neg, v) \<leftarrow> strto 10 d; Some (JInt (if neg then - int v else int v), r) }
       else if c = CHR ''s'' then do { (d, r) \<leftarrow> cut_at CHR 0x00 r; Some (JString d, r) }
       else if c = CHR ''a'' then do { (vs, r) \<leftarrow> get_list n r; Some (JArray vs, r) }
       else if c = CHR ''o'' then do { (ms, r) \<leftarrow> get_members n r; Some (JObject ms, r) }
       else None)"
| "get_list 0 s = None"
| "get_list (Suc n) s = (case s of
     [] \<Rightarrow> None
   | c # r \<Rightarrow>
       if c = CHR ''.'' then Some ([], r)
       else do { (v, r) \<leftarrow> get_json n r; (vs, r) \<leftarrow> get_list n r; Some (v # vs, r) })"
| "get_members 0 s = None"
| "get_members (Suc n) s = (case s of
     [] \<Rightarrow> None
   | c # r \<Rightarrow>
       if c = CHR ''.'' then Some ([], r)
       else do { (k, r) \<leftarrow> cut_at CHR 0x00 r; (v, r) \<leftarrow> get_json n r; (ms, r) \<leftarrow> get_members n r;
                 Some ((k, v) # ms, r) })"

definition in_range :: "int \<Rightarrow> int \<Rightarrow> json \<Rightarrow> int option" where
  "in_range a b j = (case j of
     JNull \<Rightarrow> Some 0
   | JInt i \<Rightarrow> if a \<le> i \<and> i < b then Some i else None
   | _ \<Rightarrow> None)"

definition s_json :: "json json_lib" where
  "s_json =
     \<lparr>js_parse = (\<lambda>s. map_option fst (get_json (length s) s)), js_errors = (\<lambda>_. ''syntax error''), js_write = put_json,
      js_has = (\<lambda>j k. case j of JObject ms \<Rightarrow> Some (k \<in> fst ` set ms) | JNull \<Rightarrow> Some False | _ \<Rightarrow> None),
      js_get = (\<lambda>j k. case j of JObject ms \<Rightarrow> (case map_of ms k of None \<Rightarrow> JNull | Some v \<Rightarrow> v) | _ \<Rightarrow> JNull),
      js_is_array = (\<lambda>j. case j of JArray _ \<Rightarrow> True | _ \<Rightarrow> False),
      js_is_object = (\<lambda>j. case j of JObject _ \<Rightarrow> True | _ \<Rightarrow> False),
      js_elems = (\<lambda>j. case j of JArray vs \<Rightarrow> vs | _ \<Rightarrow> []),
      js_names = (\<lambda>j. case j of JObject ms \<Rightarrow> map fst ms | _ \<Rightarrow> []),
      js_string = (\<lambda>j. case j of JString s \<Rightarrow> Some s | JNull \<Rightarrow> Some [] | _ \<Rightarrow> None),
      js_bool = (\<lambda>j. case j of JBool b \<Rightarrow> Some b | JNull \<Rightarrow> Some False | _ \<Rightarrow> None),
      js_int = in_range (- (2 ^ 31)) (2 ^ 31),
      js_uint = (\<lambda>j. map_option nat (in_range 0 (2 ^ 32) j)),
      js_int64 = in_range (- (2 ^ 63)) (2 ^ 63),
      js_uint64 = (\<lambda>j. map_option nat (in_range 0 (2 ^ 64) j)),
      js_of_string = JString, js_of_bool = JBool, js_of_int = JInt, js_of_int64 = JInt,
      js_of_uint64 = (\<lambda>n. JInt (int n)), js_array = JArray, js_object = JObject\<rparr>"

lemma s_json_laws: "json_laws s_json"
  by (simp add: json_laws_def s_json_def in_range_def)

text \<open>The reader inverts the writer on texts without the terminator.\<close>

fun plain_json :: "json \<Rightarrow> bool" where
  "plain_json (JInt i) = (0 \<le> i)"
| "plain_json (JString s) = (CHR 0x00 \<notin> set s)"
| "plain_json (JArray vs) = list_all plain_json vs"
| "plain_json (JObject ms) = list_all (\<lambda>m. CHR 0x00 \<notin> set (fst m) \<and> plain_json (snd m)) ms"
| "plain_json _ = True"

lemma no_nul_dec: "CHR 0x00 \<notin> set (dec_of_nat n)"
  by (rule dec_digits_only) code_simp

lemma get_put:
  "plain_json j \<Longrightarrow> length (put_json j) \<le> n \<Longrightarrow> get_json n (put_json j @ r) = Some (j, r)"
  "list_all plain_json vs \<Longrightarrow> length (put_list vs) \<le> n \<Longrightarrow> get_list n (put_list vs @ r) = Some (vs, r)"
  "list_all (\<lambda>m. CHR 0x00 \<notin> set (fst m) \<and> plain_json (snd m)) ms \<Longrightarrow> length (put_members ms) \<le> n \<Longrightarrow>
     get_members n (put_members ms @ r) = Some (ms, r)"
proof (induction j and vs and ms arbitrary: n r and n r and n r rule: put_json_put_list_put_members.induct)
  case 1
  then show ?case
    by (cases n) simp_all
next
  case (2 b)
  then show ?case
    by (cases n; cases b) simp_all
next
  case (3 i)
  then obtain k where "n = Suc k" "0 \<le> i"
    by (cases n) simp_all
  then show ?case
    using cut_at_append[OF no_nul_dec, of "nat i" r] strto_dec[of "nat i"] by (simp add: to_string_def)
next
  case (4 s)
  then obtain k where "n = Suc k" "CHR 0x00 \<notin> set s"
    by (cases n) simp_all
  then show ?case
    using cut_at_append[of "CHR 0x00" s r] by simp
next
  case (5 vs)
  then obtain k where "n = Suc k" "get_list k (put_list vs @ r) = Some (vs, r)"
    by (cases n) simp_all
  then show ?case
    by simp
next
  case (6 ms)
  then obtain k where "n = Suc k" "get_members k (put_members ms @ r) = Some (ms, r)"
    by (cases n) simp_all
  then show ?case
    by simp
next
  case 7
  then show ?case
    by (cases n) simp_all
next
  case (8 v vs)
  then obtain k where k: "n = Suc k"
    by (cases n) simp_all
  have "get_json k (put_json v @ put_list vs @ r) = Some (v, put_list vs @ r)" "get_list k (put_list vs @ r) = Some (vs, r)"
    using 8 k by simp_all
  then show ?case
    by (simp add: k)
next
  case 9
  then show ?case
    by (cases n) simp_all
next
  case (10 m ms)
  then obtain k where k: "n = Suc k"
    by (cases n) simp_all
  have "get_json k (put_json (snd m) @ put_members ms @ r) = Some (snd m, put_members ms @ r)"
      "get_members k (put_members ms @ r) = Some (ms, r)"
      "cut_at CHR 0x00 (fst m @ CHR 0x00 # put_json (snd m) @ put_members ms @ r) =
         Some (fst m, put_json (snd m) @ put_members ms @ r)"
    using 10 k cut_at_append[of "CHR 0x00" "fst m"] by simp_all
  then show ?case
    by (simp add: k)
qed

lemma s_json_parse: "plain_json j \<Longrightarrow> js_parse s_json (js_write s_json j) = Some j"
  using get_put(1)[of j "length (put_json j)" "[]"] by (simp add: s_json_def)

definition s_account :: ftp_user where
  "s_account = (s_user ''carol'' (kPrefix @ ''1$c2FsdA==$aGFzaA=='') ''/srv/carol'')
     \<lparr>u_permissions := [''read''], u_groups := [''staff'', ''ops''], u_storage_quota := 1000\<rparr>"

definition s_store :: user_manager where
  "s_store = \<lparr>users = [(''carol'', s_account)], users_file = ''users.json''\<rparr>"

definition s_host :: virtual_host where
  "s_host = (setCustomError ''530'' ''go away'' (new_virtual_host ''ftp.example.org'' ''/srv''))\<lparr>vh_max_sessions := 4\<rparr>"

definition s_hosts :: vhost_manager where
  "s_hosts = \<lparr>virtual_hosts = [(''ftp.example.org'', s_host)], vhosts_file = ''hosts.json''\<rparr>"

lemma s_users_parse:
  "js_parse s_json (js_write s_json (users_document s_json 0 s_store)) = Some (users_document s_json 0 s_store)"
  by code_simp

lemma s_hosts_parse:
  "js_parse s_json (js_write s_json (hosts_document s_json 0 s_hosts)) = Some (hosts_document s_json 0 s_hosts)"
  by code_simp

lemma s_files_open: "open_write s_fs ''users.json'' True \<noteq> None" "open_write s_fs ''hosts.json'' True \<noteq> None"
  by code_simp+

lemma s_parents: "parent_path ''users.json'' = []" "parent_path ''hosts.json'' = []"
  by code_simp+

lemma s_users_saved: "\<exists>g. saveUsers s_json 0 s_store ''users.json'' s_fs = Some (True, g)"
  using s_files_open(1) by (auto simp: saveUsers_def Let_def s_parents)

lemma s_hosts_saved: "\<exists>g. saveVirtualHosts s_json 0 s_hosts ''hosts.json'' s_fs = (True, g)"
  using s_files_open(2) by (auto simp: saveVirtualHosts_def Let_def s_parents)

lemma s_storable: "storable (''carol'', s_account)"
proof -
  have "isHashed (u_password s_account)"
    by code_simp
  then show ?thesis
    by (simp add: storable_def) (simp add: s_account_def s_user_def)
qed

lemma s_plain_host: "plain_host (''ftp.example.org'', s_host)"
  by (simp add: plain_host_def s_host_def setCustomError_def new_virtual_host_def)

lemma s_crlf_header: "trim (before_comment (''[security]'' @ [CHR 0x0D])) = ''[security]'' @ [CHR 0x0D]"
  by code_simp

lemma s_crlf_entry: "trim (before_comment (''require_ssl = true'' @ [CHR 0x0D])) = ''require_ssl = true'' @ [CHR 0x0D]"
  by code_simp

lemma s_crlf_no_cut: "cut_at CHR ''='' (''[security]'' @ [CHR 0x0D]) = None"
  by code_simp

lemma s_crlf_cut: "cut_at CHR ''='' (''require_ssl = true'' @ [CHR 0x0D]) = Some (''require_ssl '', '' true'' @ [CHR 0x0D])"
  by code_simp

lemma s_crlf_key: "trim ''require_ssl '' = ''require_ssl''"
  by code_simp

lemmas s_crlf_lines = s_crlf_header s_crlf_entry s_crlf_no_cut s_crlf_cut s_crlf_key

end
