(* ===== verification/Logger.thy ===== *)
theory Logger
  imports Prelude
begin

text \<open>
  \<open>utils/logger.cpp\<close>: levels, the three formats and the escaping of JSON strings. The clock's text and
  the process id are arguments; the output is the list of lines the streams get.
\<close>

datatype log_level = TRACE | DEBUG | INFO | WARN | ERROR | FATAL

datatype log_format = STANDARD | JSON | EXTENDED

record logger =
  lg_level :: log_level
  lg_format :: log_format
  lg_console :: bool
  lg_file :: bool
  lg_file_open :: bool
  lg_console_out :: string
  lg_file_out :: string

definition level_number :: "log_level \<Rightarrow> nat" where
  "level_number l = (case l of TRACE \<Rightarrow> 0 | DEBUG \<Rightarrow> 1 | INFO \<Rightarrow> 2 | WARN \<Rightarrow> 3 | ERROR \<Rightarrow> 4 | FATAL \<Rightarrow> 5)"

text \<open>The comparison of the enumeration.\<close>

instantiation log_level :: linorder
begin

definition less_eq_log_level :: "log_level \<Rightarrow> log_level \<Rightarrow> bool" where
  "less_eq_log_level a b = (level_number a \<le> level_number b)"

definition less_log_level :: "log_level \<Rightarrow> log_level \<Rightarrow> bool" where
  "less_log_level a b = (level_number a < level_number b)"

instance
proof
  fix a b :: log_level
  show "a \<le> b \<Longrightarrow> b \<le> a \<Longrightarrow> a = b"
    by (cases a; cases b) (simp_all add: less_eq_log_level_def level_number_def)
qed (auto simp: less_eq_log_level_def less_log_level_def)

end

definition levelToString :: "log_level \<Rightarrow> string" where
  "levelToString l = (case l of
     TRACE \<Rightarrow> ''TRACE'' | DEBUG \<Rightarrow> ''DEBUG'' | INFO \<Rightarrow> ''INFO'' | WARN \<Rightarrow> ''WARN''
   | ERROR \<Rightarrow> ''ERROR'' | FATAL \<Rightarrow> ''FATAL'')"

definition hex_digit :: "nat \<Rightarrow> char" where
  "hex_digit n = (if n < 10 then char_of (48 + n) else char_of (87 + n))"

definition escape_char :: "char \<Rightarrow> string" where
  "escape_char c =
     (if c = CHR 0x22 then [CHR 0x5C, CHR 0x22]
      else if c = CHR 0x5C then [CHR 0x5C, CHR 0x5C]
      else if c = CHR 0x08 then [CHR 0x5C, CHR ''b'']
      else if c = CHR 0x0C then [CHR 0x5C, CHR ''f'']
      else if c = CHR 0x0A then [CHR 0x5C, CHR ''n'']
      else if c = CHR 0x0D then [CHR 0x5C, CHR ''r'']
      else if c = CHR 0x09 then [CHR 0x5C, CHR ''t'']
      else if (of_char c :: nat) < 0x20
      then [CHR 0x5C, CHR ''u'', CHR ''0'', CHR ''0'', hex_digit (of_char c div 16), hex_digit (of_char c mod 16)]
      else [c])"

definition escapeJsonString :: "string \<Rightarrow> string" where
  "escapeJsonString s = concat (map escape_char s)"

definition formatMessage :: "string \<Rightarrow> int \<Rightarrow> log_format \<Rightarrow> log_level \<Rightarrow> string \<Rightarrow> string" where
  "formatMessage timestamp pid fmt level message = (case fmt of
     JSON \<Rightarrow> [CHR ''{'', CHR 0x22] @ ''timestamp'' @ [CHR 0x22, CHR '':'', CHR 0x22] @ timestamp @ [CHR 0x22, CHR '','', CHR 0x22] @
       ''level'' @ [CHR 0x22, CHR '':'', CHR 0x22] @ levelToString level @ [CHR 0x22, CHR '','', CHR 0x22] @
       ''message'' @ [CHR 0x22, CHR '':'', CHR 0x22] @ escapeJsonString message @ [CHR 0x22, CHR ''}'']
   | EXTENDED \<Rightarrow> ''['' @ timestamp @ ''] ['' @ levelToString level @ ''] [PID:'' @ to_string pid @ ''] '' @ message
   | STANDARD \<Rightarrow> ''['' @ timestamp @ ''] ['' @ levelToString level @ ''] '' @ message)"

definition log :: "string \<Rightarrow> int \<Rightarrow> log_level \<Rightarrow> string \<Rightarrow> logger \<Rightarrow> logger" where
  "log timestamp pid level message l =
     (if level < lg_level l then l
      else let line = formatMessage timestamp pid (lg_format l) level message @ [CHR 0x0A];
               l = (if lg_console l then l\<lparr>lg_console_out := lg_console_out l @ line\<rparr> else l)
           in if lg_file l \<and> lg_file_open l then l\<lparr>lg_file_out := lg_file_out l @ line\<rparr> else l)"

definition setLevel :: "log_level \<Rightarrow> logger \<Rightarrow> logger" where
  "setLevel level l = l\<lparr>lg_level := level\<rparr>"

definition setFormat :: "log_format \<Rightarrow> logger \<Rightarrow> logger" where
  "setFormat fmt l = l\<lparr>lg_format := fmt\<rparr>"

text \<open>The constructor: the file is opened only when it is wanted and named.\<close>

definition new_logger :: "string \<Rightarrow> log_level \<Rightarrow> bool \<Rightarrow> bool \<Rightarrow> log_format \<Rightarrow> bool \<Rightarrow> logger" where
  "new_logger log_file level console file fmt open_ok =
     \<lparr>lg_level = level, lg_format = fmt, lg_console = console, lg_file = file,
      lg_file_open = (file \<and> log_file \<noteq> [] \<and> open_ok), lg_console_out = [], lg_file_out = []\<rparr>"

subsection \<open>The escaping against the definition of JSON strings\<close>

definition hex_value :: "char \<Rightarrow> nat option" where
  "hex_value c =
     (let n = of_char c :: nat
      in if 48 \<le> n \<and> n \<le> 57 then Some (n - 48)
         else if 97 \<le> n \<and> n \<le> 102 then Some (n - 87)
         else if 65 \<le> n \<and> n \<le> 70 then Some (n - 55) else None)"

text \<open>The string a JSON reader makes of the text between the quotes (code points up to 255).\<close>

fun json_unescape :: "string \<Rightarrow> string option" where
  "json_unescape [] = Some []"
| "json_unescape (c # cs) =
     (if c = CHR 0x22 \<or> (of_char c :: nat) < 0x20 then None
      else if c \<noteq> CHR 0x5C then map_option (Cons c) (json_unescape cs)
      else (case cs of
              [] \<Rightarrow> None
            | e # r \<Rightarrow>
                if e = CHR ''u'' then
                  (case r of
                     z # y # p # q # t \<Rightarrow>
                       (case (hex_value z, hex_value y, hex_value p, hex_value q) of
                          (Some 0, Some 0, Some m, Some n) \<Rightarrow>
                            map_option (Cons (char_of (m * 16 + n))) (json_unescape t)
                        | _ \<Rightarrow> None)
                   | _ \<Rightarrow> None)
                else (case map_of [(CHR 0x22, CHR 0x22), (CHR 0x5C, CHR 0x5C), (CHR ''/'', CHR ''/''),
                                   (CHR ''b'', CHR 0x08), (CHR ''f'', CHR 0x0C), (CHR ''n'', CHR 0x0A),
                                   (CHR ''r'', CHR 0x0D), (CHR ''t'', CHR 0x09)] e of
                        None \<Rightarrow> None | Some x \<Rightarrow> map_option (Cons x) (json_unescape r))))"

lemma hex_low: "n < 16 \<Longrightarrow> hex_value (hex_digit n) = Some n"
  by (simp add: hex_digit_def hex_value_def Let_def)

lemma unescape_control:
  assumes "n < 16" "m < 16"
  shows "json_unescape ([CHR 0x5C, CHR ''u'', CHR ''0'', CHR ''0'', hex_digit m, hex_digit n] @ r) =
           map_option (Cons (char_of (m * 16 + n))) (json_unescape r)"
proof -
  have "hex_value CHR ''0'' = Some 0"
    by code_simp
  then show ?thesis
    using assms by (simp add: hex_low)
qed

lemma unescape_char: "json_unescape (escape_char c @ r) = map_option (Cons c) (json_unescape r)"
proof -
  have h: "json_unescape ([CHR 0x5C, CHR ''u'', CHR ''0'', CHR ''0'', hex_digit (of_char c div 16), hex_digit (of_char c mod 16)] @ r) =
      map_option (Cons c) (json_unescape r)" if "(of_char c :: nat) < 0x20"
    using that by (subst unescape_control) simp_all
  consider "c = CHR 0x22" | "c = CHR 0x5C" | "c = CHR 0x08" | "c = CHR 0x0C" | "c = CHR 0x0A" | "c = CHR 0x0D" | "c = CHR 0x09"
    | "c \<notin> {CHR 0x22, CHR 0x5C, CHR 0x08, CHR 0x0C, CHR 0x0A, CHR 0x0D, CHR 0x09}"
    by blast
  then show ?thesis
  proof cases
    case 8
    then show ?thesis
      using h by (cases "(of_char c :: nat) < 0x20") (simp_all add: escape_char_def)
  qed (simp_all add: escape_char_def)
qed

lemma unescape_escape: "json_unescape (escapeJsonString s) = Some s"
  by (induction s) (simp_all add: escapeJsonString_def unescape_char)

text \<open>No control character, no line end in particular, is left in the escaped text.\<close>

lemma hex_digit_printable: "n < 16 \<Longrightarrow> 0x20 \<le> (of_char (hex_digit n) :: nat)"
  by (simp add: hex_digit_def)

lemma escape_char_printable: "list_all (\<lambda>c. 0x20 \<le> (of_char c :: nat)) (escape_char c)"
  by (simp add: escape_char_def hex_digit_printable)

lemma escape_printable: "list_all (\<lambda>c. 0x20 \<le> (of_char c :: nat)) (escapeJsonString s)"
  by (induction s) (simp_all add: escapeJsonString_def escape_char_printable)

text \<open>What a level lets through: exactly the messages of at least that level reach an open destination.\<close>

lemma log_threshold:
  "lg_console_out (log t pid level m l) =
     lg_console_out l @ (if lg_level l \<le> level \<and> lg_console l
                         then formatMessage t pid (lg_format l) level m @ [CHR 0x0A] else [])"
  by (auto simp: log_def Let_def)

end
