(* ===== verification/Monitoring.thy ===== *)
theory Monitoring
  imports Config_Loading Logger "HOL-Library.Word"
begin

text \<open>
  \<open>utils/performance_monitor.cpp\<close>: counters of 64 bits, each an atomic of its own, and
  \<open>utils/vulnerability_scanner.cpp\<close>: the checks of a configuration file and of two files of the
  installation. \<open>getAverageTransferRate\<close> computes a floating-point quotient and has no model.
\<close>

subsection \<open>Counters\<close>

record monitor =
  total_connections :: "64 word"
  active_connections :: "64 word"
  total_transfers :: "64 word"
  total_bytes :: "64 word"
  total_uploads :: "64 word"
  total_downloads :: "64 word"
  total_requests :: "64 word"
  total_errors :: "64 word"
  total_transfer_time_ms :: "64 word"
  start_time :: int

definition reset_monitor :: "int \<Rightarrow> monitor" where
  "reset_monitor now =
     \<lparr>total_connections = 0, active_connections = 0, total_transfers = 0, total_bytes = 0, total_uploads = 0,
      total_downloads = 0, total_requests = 0, total_errors = 0, total_transfer_time_ms = 0, start_time = now\<rparr>"

definition recordConnection :: "monitor \<Rightarrow> monitor" where
  "recordConnection m = m\<lparr>total_connections := total_connections m + 1, active_connections := active_connections m + 1\<rparr>"

text \<open>The test and the decrement are two atomic accesses; another thread may come between.\<close>

definition any_active :: "monitor \<Rightarrow> bool" where
  "any_active m = (0 < active_connections m)"

definition drop_active :: "monitor \<Rightarrow> monitor" where
  "drop_active m = m\<lparr>active_connections := active_connections m - 1\<rparr>"

definition recordDisconnection :: "monitor \<Rightarrow> monitor" where
  "recordDisconnection m = (if any_active m then drop_active m else m)"

definition recordActiveConnection :: "monitor \<Rightarrow> monitor" where
  "recordActiveConnection m = m"

definition recordTransfer :: "64 word \<Rightarrow> bool \<Rightarrow> monitor \<Rightarrow> monitor" where
  "recordTransfer bytes upload m =
     (let m = m\<lparr>total_transfers := total_transfers m + 1, total_bytes := total_bytes m + bytes\<rparr>
      in if upload then m\<lparr>total_uploads := total_uploads m + 1\<rparr>
         else m\<lparr>total_downloads := total_downloads m + 1\<rparr>)"

definition recordTransferTime :: "64 word \<Rightarrow> monitor \<Rightarrow> monitor" where
  "recordTransferTime duration m = m\<lparr>total_transfer_time_ms := total_transfer_time_ms m + duration\<rparr>"

definition recordRequest_pm :: "monitor \<Rightarrow> monitor" where
  "recordRequest_pm m = m\<lparr>total_requests := total_requests m + 1\<rparr>"

definition recordError :: "monitor \<Rightarrow> monitor" where
  "recordError m = m\<lparr>total_errors := total_errors m + 1\<rparr>"

definition getAverageTransferTime :: "monitor \<Rightarrow> int" where
  "getAverageTransferTime m =
     (if total_transfers m = 0 then 0 else sint (total_transfer_time_ms m div total_transfers m))"

datatype monitor_event =
    Connected | Disconnected | Active
  | Transferred "64 word" bool
  | Took "64 word"
  | Requested | Erred
  | Reset int

fun record_event :: "monitor_event \<Rightarrow> monitor \<Rightarrow> monitor" where
  "record_event Connected m = recordConnection m"
| "record_event Disconnected m = recordDisconnection m"
| "record_event Active m = recordActiveConnection m"
| "record_event (Transferred n up) m = recordTransfer n up m"
| "record_event (Took d) m = recordTransferTime d m"
| "record_event Requested m = recordRequest_pm m"
| "record_event Erred m = recordError m"
| "record_event (Reset now) m = reset_monitor now"

lemmas monitor_defs = recordConnection_def recordDisconnection_def recordActiveConnection_def
  recordTransfer_def recordTransferTime_def recordRequest_pm_def recordError_def reset_monitor_def
  any_active_def drop_active_def

text \<open>
  The books of the counters: uploads and downloads make up the transfers, and while the
  connections do not wrap no more are active than were ever counted.
\<close>

definition monitor_ok :: "monitor \<Rightarrow> bool" where
  "monitor_ok m \<longleftrightarrow> total_uploads m + total_downloads m = total_transfers m"

lemma record_ok: "monitor_ok m \<Longrightarrow> monitor_ok (record_event e m)"
  by (cases e) (auto simp: monitor_ok_def monitor_defs Let_def algebra_simps)

lemma records_ok: "monitor_ok m \<Longrightarrow> monitor_ok (fold record_event es m)"
  by (induction es arbitrary: m) (simp_all add: record_ok)

fun reset_free :: "monitor_event \<Rightarrow> bool" where
  "reset_free (Reset t) = False"
| "reset_free e = True"

fun bytes_of :: "monitor_event \<Rightarrow> 64 word" where
  "bytes_of (Transferred n up) = n"
| "bytes_of e = 0"

lemma bytes_recorded:
  "list_all reset_free es \<Longrightarrow> total_bytes (fold record_event es m) = total_bytes m + sum_list (map bytes_of es)"
proof (induction es arbitrary: m)
  case (Cons e es)
  then show ?case
    by (cases e) (simp_all add: monitor_defs Let_def)
qed simp

lemma active_recorded:
  "unat (total_connections m) + length es < 2 ^ 64 \<Longrightarrow> active_connections m \<le> total_connections m \<Longrightarrow>
   active_connections (fold record_event es m) \<le> total_connections (fold record_event es m)"
proof (induction es arbitrary: m)
  case (Cons e es)
  have "unat (total_connections m + 1) = Suc (unat (total_connections m))"
    "active_connections m + 1 \<le> total_connections m + 1"
    using Cons.prems by (simp_all add: unat_word_ariths word_le_nat_alt)
  moreover have "active_connections m - 1 \<le> total_connections m" if "0 < active_connections m"
    using that Cons.prems(2) by (simp add: word_le_nat_alt unat_minus_one word_neq_0_conv)
  ultimately show ?case
    using Cons.prems by (cases e) (auto intro!: Cons.IH simp: monitor_defs Let_def)
qed simp

text \<open>Two threads that both pass the test before either decrements wrap the counter around.\<close>

lemma disconnect_race:
  "active_connections m = 1 \<Longrightarrow>
   any_active m \<and> active_connections (drop_active (drop_active m)) = - 1"
  by (simp add: any_active_def drop_active_def)

subsection \<open>The scanner\<close>

record vulnerability =
  v_type :: string
  v_severity :: string
  v_description :: string
  v_recommendation :: string

abbreviation vulnerability :: "string \<Rightarrow> string \<Rightarrow> string \<Rightarrow> string \<Rightarrow> vulnerability" where
  "vulnerability t s d r \<equiv> \<lparr>v_type = t, v_severity = s, v_description = d, v_recommendation = r\<rparr>"

definition others_read :: "filesys \<Rightarrow> string \<Rightarrow> bool" where
  "others_read f p = (case resolve f p of
     At c \<Rightarrow> (case map_of (tree f) c of Some i \<Rightarrow> odd (imode i div 4) | None \<Rightarrow> False)
   | _ \<Rightarrow> False)"

definition scan_ssl :: "filesys \<Rightarrow> server_config \<Rightarrow> vulnerability list option" where
  "scan_ssl f cfg =
     (if ssl_cert_file (security cfg) \<noteq> [] \<and> ssl_key_file (security cfg) \<noteq> [] then
        do { present \<leftarrow> fs_exists f (ssl_cert_file (security cfg));
             Some (if present then []
                   else [vulnerability ''MISSING_SSL_CERT'' ''HIGH''
                           (''SSL certificate file not found: '' @ ssl_cert_file (security cfg))
                           ''Generate or install SSL certificate'']) }
      else Some (if require_ssl (security cfg) then []
                 else [vulnerability ''SSL_NOT_REQUIRED'' ''MEDIUM'' ''SSL/TLS is not required for connections''
                         ''Enable require_ssl for production deployments'']))"

definition scan_settings :: "server_config \<Rightarrow> vulnerability list" where
  "scan_settings cfg =
     (if chroot_enabled (security cfg) then []
      else [vulnerability ''CHROOT_DISABLED'' ''MEDIUM'' ''Chroot is disabled'' ''Enable chroot for directory restrictions'']) @
     (if drop_privileges (security cfg) then []
      else [vulnerability ''PRIVILEGES_NOT_DROPPED'' ''HIGH'' ''Privilege dropping is disabled''
              ''Enable drop_privileges for security hardening'']) @
     (if \<not> allow_anonymous (security cfg) then []
      else [vulnerability ''ANONYMOUS_ACCESS_ENABLED'' ''LOW'' ''Anonymous access is enabled''
              ''Disable anonymous access if not needed''])"

definition scanConfiguration :: "'j json_lib \<Rightarrow> filesys \<Rightarrow> string \<Rightarrow> vulnerability list option" where
  "scanConfiguration L f file =
     do { present \<leftarrow> fs_exists f file;
          if \<not> present then
            Some [vulnerability ''MISSING_CONFIG'' ''MEDIUM'' (''Configuration file not found: '' @ file)
                    ''Create a configuration file with appropriate security settings'']
          else do {
            let open_file =
              (if others_read f file
               then [vulnerability ''INSECURE_PERMISSIONS'' ''HIGH'' (''Configuration file is world-readable: '' @ file)
                       ''Set file permissions to 600 (owner read/write only)'']
               else []);
            (loaded, cfg) \<leftarrow> loadFromFile L f file default_config;
            if loaded then do { ssl \<leftarrow> scan_ssl f cfg; Some (open_file @ ssl @ scan_settings cfg) }
            else Some open_file } }"

definition critical_files :: "string list" where
  "critical_files = [''/etc/simple-sftpd/simple-sftpd.conf'', ''/etc/simple-sftpd/ssl/server.key'']"

text \<open>The messages of level \<open>WARN\<close> that the check of the installed files hands to the logger.\<close>

fun checkFilePermissions :: "filesys \<Rightarrow> string list \<Rightarrow> string list option" where
  "checkFilePermissions f [] = Some []"
| "checkFilePermissions f (file # files) =
     do { present \<leftarrow> fs_exists f file;
          rest \<leftarrow> checkFilePermissions f files;
          Some ((if present \<and> others_read f file then [''Insecure file permissions detected: '' @ file] else []) @ rest) }"

definition scanSystem :: "filesys \<Rightarrow> (vulnerability list \<times> string list) option" where
  "scanSystem f = map_option (Pair []) (checkFilePermissions f critical_files)"

definition checkSecurityConfig :: "filesys \<Rightarrow> (vulnerability list \<times> string list) option" where
  "checkSecurityConfig f = scanSystem f"

lemma scan_ssl_clean:
  "scan_ssl f cfg = Some [] \<longleftrightarrow>
     (if ssl_cert_file (security cfg) \<noteq> [] \<and> ssl_key_file (security cfg) \<noteq> []
      then fs_exists f (ssl_cert_file (security cfg)) = Some True
      else require_ssl (security cfg))"
  by (cases "fs_exists f (ssl_cert_file (security cfg))") (simp_all add: scan_ssl_def)

lemma scan_settings_clean:
  "scan_settings cfg = [] \<longleftrightarrow>
     chroot_enabled (security cfg) \<and> drop_privileges (security cfg) \<and> \<not> allow_anonymous (security cfg)"
  by (simp add: scan_settings_def)

lemma scan_clean:
  "scanConfiguration L f file = Some [] \<longleftrightarrow>
   (fs_exists f file = Some True \<and> \<not> others_read f file \<and>
    (\<exists>loaded cfg. loadFromFile L f file default_config = Some (loaded, cfg) \<and>
      (loaded \<longrightarrow> scan_ssl f cfg = Some [] \<and> scan_settings cfg = [])))"
proof (cases "fs_exists f file")
  case (Some present)
  show ?thesis
  proof (cases "loadFromFile L f file default_config")
    case None
    then show ?thesis
      using Some by (simp add: scanConfiguration_def Let_def)
  next
    case l: (Some r)
    show ?thesis
    proof (cases r)
      case (Pair loaded cfg)
      then show ?thesis
        using Some l by (cases "scan_ssl f cfg") (simp_all add: scanConfiguration_def Let_def)
    qed
  qed
qed (simp add: scanConfiguration_def)

end
