(* ===== verification/File_Cache.thy ===== *)
theory File_Cache
  imports Std_Map "HOL-Library.Word" "HOL-Library.Signed_Division" "HOL-Library.Multiset"
begin

text \<open>
  \<open>utils/file_cache.cpp\<close>: the table of file metadata with its time to live and its bound. Times are
  the ticks of \<open>system_clock\<close> (nanoseconds, they may go back); an operation, which holds the mutex
  throughout, reads one time. \<open>std::sort\<close> may order equal times either way, so it is a parameter;
  \<open>time_order\<close> states what the standard promises of it. Sequences of operations are lists of
  \<open>cache_op\<close>.
\<close>

record file_metadata =
  fm_path :: string
  fm_size :: nat
  fm_is_directory :: bool
  fm_last_modified :: int
  fm_cache_time :: int

record file_cache =
  fc_cache :: "(string, file_metadata) std_map"
  fc_max_entries :: nat
  fc_ttl :: int
  fc_hits :: "64 word"
  fc_misses :: "64 word"

type_synonym time_sort = "(string \<times> int) list \<Rightarrow> (string \<times> int) list"

definition new_cache :: "nat \<Rightarrow> int \<Rightarrow> file_cache" where
  "new_cache max_entries ttl =
     \<lparr>fc_cache = [], fc_max_entries = max_entries, fc_ttl = ttl, fc_hits = 0, fc_misses = 0\<rparr>"

text \<open>\<open>duration_cast\<close> to seconds drops the fraction.\<close>

definition cache_expired :: "int \<Rightarrow> int \<Rightarrow> file_metadata \<Rightarrow> bool" where
  "cache_expired ttl now m = (ttl < (now - fm_cache_time m) sdiv 1000000000)"

definition cache_get :: "int \<Rightarrow> string \<Rightarrow> file_cache \<Rightarrow> file_metadata option \<times> file_cache" where
  "cache_get now path c =
     (case map_of (fc_cache c) path of
        Some m \<Rightarrow>
          if \<not> cache_expired (fc_ttl c) now m then (Some m, c\<lparr>fc_hits := fc_hits c + 1\<rparr>)
          else (None, c\<lparr>fc_cache := map_erase path (fc_cache c), fc_misses := fc_misses c + 1\<rparr>)
      | None \<Rightarrow> (None, c\<lparr>fc_misses := fc_misses c + 1\<rparr>))"

definition evictOldEntries :: "time_sort \<Rightarrow> int \<Rightarrow> file_cache \<Rightarrow> file_cache" where
  "evictOldEntries order now c =
     (let kept = filter (\<lambda>e. \<not> cache_expired (fc_ttl c) now (snd e)) (fc_cache c)
      in if fc_max_entries c \<le> length kept then
           (let entries = order (map (\<lambda>e. (fst e, fm_cache_time (snd e))) kept);
                to_remove = length kept - fc_max_entries c + 1
            in c\<lparr>fc_cache := fold (\<lambda>e. map_erase (fst e)) (take to_remove entries) kept\<rparr>)
         else c\<lparr>fc_cache := kept\<rparr>)"

definition cache_put :: "time_sort \<Rightarrow> int \<Rightarrow> string \<Rightarrow> file_metadata \<Rightarrow> file_cache \<Rightarrow> file_cache" where
  "cache_put order now path metadata c =
     (let c = (if fc_max_entries c \<le> length (fc_cache c) then evictOldEntries order now c else c)
      in c\<lparr>fc_cache := map_put path (metadata\<lparr>fm_cache_time := now\<rparr>) (fc_cache c)\<rparr>)"

definition cache_invalidate :: "string \<Rightarrow> file_cache \<Rightarrow> file_cache" where
  "cache_invalidate path c = c\<lparr>fc_cache := map_erase path (fc_cache c)\<rparr>"

definition cache_clear :: "file_cache \<Rightarrow> file_cache" where
  "cache_clear c = c\<lparr>fc_cache := []\<rparr>"

definition cache_size :: "file_cache \<Rightarrow> nat" where
  "cache_size c = length (fc_cache c)"

subsection \<open>Sequences of operations\<close>

datatype cache_op =
    Get int string
  | Put int string file_metadata
  | Invalidate string
  | Clear

fun cache_step :: "time_sort \<Rightarrow> cache_op \<Rightarrow> file_cache \<Rightarrow> file_cache" where
  "cache_step order (Get now p) c = snd (cache_get now p c)"
| "cache_step order (Put now p m) c = cache_put order now p m c"
| "cache_step order (Invalidate p) c = cache_invalidate p c"
| "cache_step order Clear c = cache_clear c"

definition cache_run :: "time_sort \<Rightarrow> cache_op list \<Rightarrow> file_cache \<Rightarrow> file_cache" where
  "cache_run order ops c = fold (cache_step order) ops c"

text \<open>What \<open>std::sort\<close> with this comparison promises.\<close>

definition time_order :: "time_sort \<Rightarrow> bool" where
  "time_order order \<longleftrightarrow> (\<forall>es. mset (order es) = mset es \<and> sorted (map snd (order es)))"

lemma time_order_sort_key: "time_order (sort_key snd)"
  by (simp add: time_order_def)

definition cache_ok :: "file_cache \<Rightarrow> bool" where
  "cache_ok c \<longleftrightarrow> sorted_map (fc_cache c) \<and> length (fc_cache c) \<le> max 1 (fc_max_entries c)"

subsection \<open>Erasing a list of keys\<close>

lemma erase_all: "fold (\<lambda>e. map_erase (fst e)) es m = filter (\<lambda>e. fst e \<notin> fst ` set es) m"
  by (induction es arbitrary: m) (auto simp: map_erase_def intro: filter_cong)

lemma sorted_map_filter: "sorted_map m \<Longrightarrow> sorted_map (filter P m)"
  by (induction m) (auto simp: sorted_map_def)

lemma length_map_put: "length (map_put k v m) \<le> Suc (length m)"
  by (induction k v m rule: map_put.induct) auto

lemma length_map_erase: "length (map_erase k m) \<le> length m"
  by (simp add: map_erase_def)

text \<open>Erasing \<open>n\<close> different keys of a map takes \<open>n\<close> entries out.\<close>

lemma erased_length:
  assumes "distinct (map fst m)" "distinct ks" "set ks \<subseteq> fst ` set m"
  shows "length (filter (\<lambda>e. fst e \<notin> set ks) m) = length m - length ks"
proof -
  have "length (filter (\<lambda>e. fst e \<in> set ks) m) = card (fst ` set (filter (\<lambda>e. fst e \<in> set ks) m))"
    using assms(1) by (metis distinct_card distinct_map_filter length_map set_map)
  also have "fst ` set (filter (\<lambda>e. fst e \<in> set ks) m) = set ks"
    using assms(3) by auto
  also have "card (set ks) = length ks"
    using assms(2) by (rule distinct_card)
  finally show ?thesis
    using sum_length_filter_compl[of "\<lambda>e. fst e \<in> set ks" m] by simp
qed

subsection \<open>Eviction\<close>

lemma order_keys:
  assumes "time_order order"
  shows "mset (map fst (order es)) = mset (map fst es)" "set (order es) = set es" "length (order es) = length es"
  using assms unfolding time_order_def by (metis mset_map, metis mset_eq_setD, metis mset_eq_length)

lemma evict_bound:
  assumes o: "time_order order" and s: "sorted_map (fc_cache c)"
  shows "length (fc_cache (evictOldEntries order now c)) \<le> fc_max_entries c - 1"
proof -
  define kept where "kept = filter (\<lambda>e. \<not> cache_expired (fc_ttl c) now (snd e)) (fc_cache c)"
  define es where "es = map (\<lambda>e. (fst e, fm_cache_time (snd e))) kept"
  define n where "n = length kept - fc_max_entries c + 1"
  have k: "map fst es = map fst kept" "length es = length kept"
    by (simp_all add: es_def o_def)
  have d: "distinct (map fst kept)"
    using s by (simp add: kept_def sorted_map_filter sorted_map_distinct)
  have d': "distinct (map fst (order es))"
    using d order_keys(1)[OF o, of es] by (metis k(1) mset_eq_imp_distinct_iff)
  have "length (filter (\<lambda>e. fst e \<notin> set (take n (map fst (order es)))) kept) = length kept - min n (length kept)"
  proof (subst erased_length)
    have "set (map fst (order es)) = fst ` set kept"
      using order_keys(2)[OF o, of es] k(1) by (metis set_map)
    then show "set (take n (map fst (order es))) \<subseteq> fst ` set kept"
      using set_take_subset[of n "map fst (order es)"] by simp
  qed (use d d' order_keys(3)[OF o, of es] k in \<open>simp_all add: min.commute\<close>)
  moreover have "fst ` set (take n (order es)) = set (take n (map fst (order es)))"
    by (simp add: take_map)
  ultimately show ?thesis
    by (auto simp: evictOldEntries_def Let_def erase_all kept_def es_def n_def)
qed

lemma evict_sorted: "sorted_map (fc_cache c) \<Longrightarrow> sorted_map (fc_cache (evictOldEntries order now c))"
  by (simp add: evictOldEntries_def Let_def erase_all sorted_map_filter)

lemma evict_settings [simp]:
  "fc_max_entries (evictOldEntries order now c) = fc_max_entries c"
  "fc_ttl (evictOldEntries order now c) = fc_ttl c"
  "fc_hits (evictOldEntries order now c) = fc_hits c"
  "fc_misses (evictOldEntries order now c) = fc_misses c"
  by (simp_all add: evictOldEntries_def Let_def)

lemma put_ok:
  assumes "time_order order" "cache_ok c"
  shows "cache_ok (cache_put order now path m c)"
proof -
  let ?c = "if fc_max_entries c \<le> length (fc_cache c) then evictOldEntries order now c else c"
  have "length (fc_cache ?c) \<le> max 1 (fc_max_entries c) - 1"
    using evict_bound[OF assms(1), of c now] assms(2) by (auto simp: cache_ok_def)
  then show ?thesis
    using assms(2) length_map_put[of path "m\<lparr>fm_cache_time := now\<rparr>" "fc_cache ?c"]
    by (auto simp: cache_put_def Let_def cache_ok_def sorted_put evict_sorted)
qed

lemma step_ok: "time_order order \<Longrightarrow> cache_ok c \<Longrightarrow> cache_ok (cache_step order op c)"
  using length_map_erase[of _ "fc_cache c"]
  by (cases op; (simp add: put_ok; fail)?)
    (auto simp: cache_get_def cache_invalidate_def cache_clear_def cache_ok_def sorted_erase
      sorted_map_def[of "[]"] intro: order_trans split: option.splits)

lemma run_ok: "time_order order \<Longrightarrow> cache_ok c \<Longrightarrow> cache_ok (cache_run order ops c)"
  by (induction ops arbitrary: c) (simp_all add: cache_run_def step_ok)

lemma step_settings [simp]:
  "fc_max_entries (cache_step order op c) = fc_max_entries c"
  "fc_ttl (cache_step order op c) = fc_ttl c"
  by (cases op; simp add: cache_get_def cache_put_def cache_invalidate_def cache_clear_def Let_def split: option.splits)+

lemma cache_run_settings:
  "fc_max_entries (cache_run order ops c) = fc_max_entries c"
  "fc_ttl (cache_run order ops c) = fc_ttl c"
  by (induction ops arbitrary: c) (simp_all add: cache_run_def)

lemma new_cache_ok: "cache_ok (new_cache n ttl)"
  by (simp add: cache_ok_def new_cache_def sorted_map_def)

text \<open>A lookup is answered by the last store of the name as long as the entry is young enough.\<close>

lemma get_after_put:
  "cache_get later path (cache_put order now path m c) =
     (if cache_expired (fc_ttl c) later (m\<lparr>fm_cache_time := now\<rparr>)
      then (None, snd (cache_get later path (cache_put order now path m c)))
      else (Some (m\<lparr>fm_cache_time := now\<rparr>), snd (cache_get later path (cache_put order now path m c))))"
  by (simp add: cache_get_def cache_put_def Let_def)

text \<open>What an eviction drops before its time is not younger than anything it keeps.\<close>

lemma evict_oldest:
  assumes o: "time_order order" and s: "sorted_map (fc_cache c)"
    and p: "map_of (fc_cache c) p = Some m" "\<not> cache_expired (fc_ttl c) now m"
    and gone: "map_of (fc_cache (evictOldEntries order now c)) p = None"
    and q: "map_of (fc_cache (evictOldEntries order now c)) q = Some l"
  shows "fm_cache_time m \<le> fm_cache_time l"
proof -
  define kept where "kept = filter (\<lambda>e. \<not> cache_expired (fc_ttl c) now (snd e)) (fc_cache c)"
  define es where "es = map (\<lambda>e. (fst e, fm_cache_time (snd e))) kept"
  define n where "n = length kept - fc_max_entries c + 1"
  have pk: "(p, m) \<in> set kept"
    using p by (auto simp: kept_def dest: map_of_SomeD)
  have full: "fc_cache (evictOldEntries order now c) = filter (\<lambda>e. fst e \<notin> fst ` set (take n (order es))) kept"
    using gone pk
    by (auto simp: evictOldEntries_def Let_def erase_all kept_def es_def n_def map_of_eq_None_iff image_iff
        split: if_splits)
  have ql: "(q, l) \<in> set kept" "q \<notin> fst ` set (take n (order es))"
    using map_of_SomeD[OF q] by (auto simp: full)
  have dk: "distinct (map fst kept)"
    using s by (simp add: kept_def sorted_map_filter sorted_map_distinct)
  have "p \<in> fst ` set (take n (order es))"
    using gone pk by (force simp: full map_of_eq_None_iff image_iff)
  then obtain t where t: "(p, t) \<in> set (take n (order es))"
    by auto
  then have "(p, t) \<in> set es"
    using order_keys(2)[OF o] by (meson in_set_takeD subsetI subset_eq order_keys(2)[OF o, THEN equalityD1])
  then have tm: "t = fm_cache_time m"
    using dk pk by (auto simp: es_def dest: eq_key_imp_eq_value)
  have "(q, fm_cache_time l) \<in> set (order es)"
    using ql(1) order_keys(2)[OF o] by (force simp: es_def)
  then have "(q, fm_cache_time l) \<in> set (drop n (order es))"
    using ql(2) by (metis UnE append_take_drop_id fst_conv image_eqI set_append)
  moreover have "sorted (map snd (take n (order es)) @ map snd (drop n (order es)))"
    using o by (simp add: time_order_def flip: map_append)
  ultimately show ?thesis
    using t by (force simp: sorted_append tm)
qed

text \<open>Every lookup is counted once.\<close>

fun lookups :: "cache_op list \<Rightarrow> nat" where
  "lookups [] = 0"
| "lookups (Get t p # ops) = Suc (lookups ops)"
| "lookups (op # ops) = lookups ops"

lemma lookups_counted:
  "fc_hits (cache_run order ops c) + fc_misses (cache_run order ops c) =
     fc_hits c + fc_misses c + of_nat (lookups ops)"
proof (induction ops arbitrary: c rule: lookups.induct)
qed (simp_all add: cache_run_def cache_get_def cache_put_def cache_invalidate_def cache_clear_def Let_def
    split: option.splits)

end
