(* ===== verification/Zlib_Stream.thy ===== *)
theory Zlib_Stream
  imports Prelude
begin

text \<open>
  \<open>ZlibStream::process\<close> of \<open>utils/compression.cpp\<close>: the loop around \<open>deflate\<close> and \<open>inflate\<close>. One
  call of the library is the parameter \<open>call\<close>: from the flush flag, the state of the stream and the
  input at hand to the return code, the input it took, the at most 16384 bytes it wrote and the next
  state. The loop has no bound in the source; \<open>zlib_process\<close> is \<open>None\<close> where it never ends.
\<close>

datatype zret = Z_OK | Z_STREAM_END | Z_NEED_DICT | Z_STREAM_ERROR | Z_DATA_ERROR | Z_MEM_ERROR | Z_BUF_ERROR

type_synonym 's zcall = "bool \<Rightarrow> 's \<Rightarrow> string \<Rightarrow> zret \<times> nat \<times> string \<times> 's"

record 's zstream =
  zs_state :: 's
  zs_valid :: bool

definition buf_len :: nat where
  "buf_len = 16384"

text \<open>The constructor: \<open>init\<close> is what \<open>deflateInit\<close> or \<open>inflateInit\<close> answers.\<close>

definition new_zstream :: "zret \<Rightarrow> 's \<Rightarrow> 's zstream" where
  "new_zstream init s = \<lparr>zs_state = s, zs_valid = (init = Z_OK)\<rparr>"

partial_function (option) zlib_process_loop ::
  "'s zcall \<Rightarrow> bool \<Rightarrow> 's \<Rightarrow> string \<Rightarrow> string \<Rightarrow> (bool \<times> string \<times> 's) option" where
  "zlib_process_loop call finish s input acc =
     (case call finish s input of
        (ret, taken, have_bytes, s') \<Rightarrow>
          if ret = Z_STREAM_ERROR \<or> ret = Z_DATA_ERROR \<or> ret = Z_MEM_ERROR then Some (False, acc, s')
          else if ret = Z_STREAM_END then Some (True, acc @ have_bytes, s')
          else if ret = Z_BUF_ERROR \<and> drop taken input = [] \<and> \<not> finish then Some (True, acc @ have_bytes, s')
          else if length have_bytes = buf_len \<or> finish
          then zlib_process_loop call finish s' (drop taken input) (acc @ have_bytes)
          else Some (ret = Z_OK \<or> ret = Z_BUF_ERROR, acc @ have_bytes, s'))"

definition zlib_process :: "'s zcall \<Rightarrow> string \<Rightarrow> bool \<Rightarrow> 's zstream \<Rightarrow> (bool \<times> string \<times> 's zstream) option" where
  "zlib_process call input finish z =
     (if \<not> zs_valid z then Some (False, [], z)
      else map_option (\<lambda>(ok, acc, s). (ok, acc, z\<lparr>zs_state := s\<rparr>))
             (zlib_process_loop call finish (zs_state z) (take (length input mod 2 ^ 32) input) []))"

subsection \<open>Closing a stream\<close>

text \<open>
  \<open>rest s input\<close> is what a library that is asked to finish still has to write. zlib documents that
  \<open>deflate\<close> with \<open>Z_FINISH\<close> writes all of it and answers \<open>Z_STREAM_END\<close>, or fills the buffer and
  asks to be called again.
\<close>

definition finishes :: "'s zcall \<Rightarrow> ('s \<Rightarrow> string \<Rightarrow> string) \<Rightarrow> bool" where
  "finishes call rest \<longleftrightarrow>
     (\<forall>s input. case call True s input of (ret, taken, have_bytes, s') \<Rightarrow>
        (ret = Z_STREAM_END \<and> have_bytes = rest s input) \<or>
        ((ret = Z_OK \<or> ret = Z_BUF_ERROR) \<and> length have_bytes = buf_len \<and>
         rest s input = have_bytes @ rest s' (drop taken input)))"

lemma finish_loop:
  assumes "finishes call rest"
  shows "\<exists>s'. zlib_process_loop call True s input acc = Some (True, acc @ rest s input, s')"
proof (induction "length (rest s input)" arbitrary: s input acc rule: less_induct)
  case less
  obtain ret taken w t where c: "call True s input = (ret, taken, w, t)"
    by (cases "call True s input")
  consider "ret = Z_STREAM_END" "w = rest s input"
    | "ret = Z_OK \<or> ret = Z_BUF_ERROR" "length w = buf_len" "rest s input = w @ rest t (drop taken input)"
    using assms[unfolded finishes_def, rule_format, of s input] by (auto simp: c)
  then show ?case
  proof cases
    case 1
    then show ?thesis
      by (subst zlib_process_loop.simps) (simp add: c)
  next
    case 2
    then have "length (rest t (drop taken input)) < length (rest s input)"
      by (simp add: buf_len_def)
    from less[OF this, of "acc @ w"] show ?thesis
      using 2 by (subst zlib_process_loop.simps) (auto simp: c)
  qed
qed

text \<open>
  \<open>inflate\<close> without input cannot make progress before the end of the stream: it answers
  \<open>Z_BUF_ERROR\<close>, writes nothing and stays as it was.
\<close>

definition starved :: "'s zcall \<Rightarrow> 's \<Rightarrow> bool" where
  "starved call s \<longleftrightarrow> call True s [] = (Z_BUF_ERROR, 0, [], s)"

lemma starved_not_Some:
  "zlib_process_loop call finish s input acc = Some y \<Longrightarrow> \<not> (finish \<and> input = [] \<and> starved call s)"
proof (rule zlib_process_loop.raw_induct
    [where P = "\<lambda>call finish s input acc y. \<not> (finish \<and> input = [] \<and> starved call s)"])
  fix loop call finish s input acc y
  assume ih: "\<And>call finish s input acc y.
      loop call finish s input acc = Some y \<Longrightarrow> \<not> (finish \<and> input = [] \<and> starved call s)"
    and body: "(case call finish s input of
        (ret, taken, have_bytes, s') \<Rightarrow>
          if ret = Z_STREAM_ERROR \<or> ret = Z_DATA_ERROR \<or> ret = Z_MEM_ERROR then Some (False, acc, s')
          else if ret = Z_STREAM_END then Some (True, acc @ have_bytes, s')
          else if ret = Z_BUF_ERROR \<and> drop taken input = [] \<and> \<not> finish then Some (True, acc @ have_bytes, s')
          else if length have_bytes = buf_len \<or> finish
          then loop call finish s' (drop taken input) (acc @ have_bytes)
          else Some (ret = Z_OK \<or> ret = Z_BUF_ERROR, acc @ have_bytes, s')) = Some y"
  show "\<not> (finish \<and> input = [] \<and> starved call s)"
  proof
    assume a: "finish \<and> input = [] \<and> starved call s"
    then have "loop call finish s input acc = Some y"
      using body by (simp add: starved_def)
    then show False
      using ih a by blast
  qed
qed

lemma starved_loop: "starved call s \<Longrightarrow> zlib_process_loop call True s [] acc = None"
  using starved_not_Some[of call True s "[]" acc] by (cases "zlib_process_loop call True s [] acc") simp_all

lemma zlib_process_finishes:
  assumes "finishes call rest" "zs_valid z" "length input < 2 ^ 32"
  shows "\<exists>z'. zlib_process call input True z = Some (True, rest (zs_state z) input, z')"
  using finish_loop[OF assms(1), of "zs_state z" input "[]"] assms(2,3) by (auto simp: zlib_process_def)

lemma zlib_process_starved: "starved call (zs_state z) \<Longrightarrow> zs_valid z \<Longrightarrow> zlib_process call [] True z = None"
  by (simp add: zlib_process_def starved_loop)

end
