(* ===== verification/Installation.thy ===== *)
theory Installation
  imports Host_Store Config_Loading Login
begin

text \<open>
  Where the files of an installation lie (\<open>core/connection.cpp\<close> and \<open>src/main/production.cpp\<close> look for
  them the same way) and the constructor of \<open>FTPConnection\<close>: it loads the user table, adds the
  accounts it wants to find there, and prepares PAM and TLS as the configuration says.
\<close>

subsection \<open>Default places\<close>

record place =
  pl_access :: "string \<Rightarrow> bool"   \<comment> \<open>\<open>access(path, W_OK) == 0\<close>\<close>
  pl_home :: "string option"       \<comment> \<open>the variable \<open>HOME\<close>\<close>

definition etc_dir :: string where
  "etc_dir = ''/etc/simple-sftpd''"

definition default_file :: "place \<Rightarrow> string \<Rightarrow> filesys \<Rightarrow> string option" where
  "default_file pl name f =
     do { present \<leftarrow> fs_exists f etc_dir;
          Some (if \<not> present \<and> \<not> pl_access pl etc_dir
                then (case pl_home pl of Some h \<Rightarrow> h | None \<Rightarrow> ''.'') @ ''/.simple-sftpd/'' @ name
                else etc_dir @ ''/'' @ name) }"

definition default_user_file :: "place \<Rightarrow> filesys \<Rightarrow> string option" where
  "default_user_file pl f = default_file pl ''users.json'' f"

definition defaultVirtualHostsFilePath :: "place \<Rightarrow> filesys \<Rightarrow> string option" where
  "defaultVirtualHostsFilePath pl f = default_file pl ''virtual_hosts.json'' f"

text \<open>An exception of the loader leaves the function.\<close>

definition resolveVirtualHostsFile :: "'j json_lib \<Rightarrow> place \<Rightarrow> string \<Rightarrow> filesys \<Rightarrow> string option" where
  "resolveVirtualHostsFile L pl config_file f =
     do { present \<leftarrow> (if config_file \<noteq> [] then fs_exists f config_file else Some False);
          named \<leftarrow> (if present then
                       do { (loaded, cfg) \<leftarrow> loadFromFile L f config_file default_config;
                            Some (if loaded then virtual_hosts_file (security cfg) else []) }
                     else Some []);
          if named \<noteq> [] then Some named else defaultVirtualHostsFilePath pl f }"

subsection \<open>The constructor of a connection\<close>

text \<open>The answers during construction: the clock, the derivation, the random bytes of the i-th account of
  the file and of the two built-in accounts, and the outcome of the TLS initialisation.\<close>

record birth =
  b_place :: place
  b_now :: int
  b_kdf :: kdf
  b_load_rand :: "nat \<Rightarrow> string option"
  b_test_rand :: "string option"
  b_anon_rand :: "string option"
  b_tls_ok :: bool

text \<open>\<open>addUser\<close> of an account when the table lacks it.\<close>

definition ensure_account ::
  "'j json_lib \<Rightarrow> int \<Rightarrow> bool \<Rightarrow> ftp_user \<Rightarrow> user_manager \<times> filesys \<Rightarrow> (user_manager \<times> filesys) option" where
  "ensure_account L now wanted u = (\<lambda>(m, f).
     if wanted then do { (_, m, f) \<leftarrow> addUser L now (Some u) m f; Some (m, f) } else Some (m, f))"

definition connection_users ::
  "'j json_lib \<Rightarrow> birth \<Rightarrow> server_config \<Rightarrow> filesys \<Rightarrow> (user_manager \<times> filesys) option" where
  "connection_users L b cfg f =
     do { file \<leftarrow> (if user_file (security cfg) = [] then default_user_file (b_place b) f
                    else Some (user_file (security cfg)));
          (m, f) \<leftarrow> new_user_manager L (b_kdf b) (b_load_rand b) (b_now b) file f;
          (m, f) \<leftarrow> ensure_account L (b_now b) (listUsers m = [])
                      (new_user (b_kdf b) (b_test_rand b) ''test'' ''test'' ''/tmp'') (m, f);
          ensure_account L (b_now b) (allow_anonymous (security cfg) \<and> getUser m ''anonymous'' = None)
            (new_user (b_kdf b) (b_anon_rand b) ''anonymous'' [] ''/tmp'') (m, f) }"

definition new_connection ::
  "'j json_lib \<Rightarrow> birth \<Rightarrow> int \<Rightarrow> server_config \<Rightarrow> vhost_manager option \<Rightarrow> session_tracker option \<Rightarrow> filesys \<Rightarrow>
   conn option" where
  "new_connection L b sock cfg hosts trk f =
     do { (m, f) \<leftarrow> connection_users L b cfg f;
          let tls = (ssl_cert_file (security cfg) \<noteq> [] \<and> ssl_key_file (security cfg) \<noteq> []);
          Some \<lparr>socket_open = (0 \<le> sock), config = cfg, user_manager = m, ssl_context = tls,
            pam_auth = enable_pam (security cfg), active = False, authenticated = False, username = [],
            current_user = None, current_directory = ''/'', ssl_enabled = (tls \<and> b_tls_ok b), ssl_active = False,
            ssl_session = False, passive_listen_socket = -1, data_socket = -1, transfer_type = ''A'',
            transfer_mode = ''S'', protection_level = ''C'', active_mode_ip = [], active_mode_port = 0,
            active_mode_enabled = False, resume_position = 0, rename_from_path = [], epsv_all = False,
            utf8_enabled = True, store_unique_name = [], virtual_host_manager = hosts,
            current_virtual_host = None, has_tracker = (trk \<noteq> None), session_registered = False, fs = f,
            tracker = (case trk of None \<Rightarrow> new_tracker | Some t \<Rightarrow> t), replies = [], send_calls = 0,
            data_out = [], closed = [], dialled = [], slept = 0\<rparr> }"

subsection \<open>What the table holds afterwards\<close>

lemma ensure_account_users:
  assumes "ensure_account L now wanted u (m, f) = Some (n, g)"
  shows "users n = (if wanted then map_put (u_username u) u (users m) else users m)"
  using assms by (auto simp: ensure_account_def addUser_def Let_def bind_eq_Some_conv split: if_splits)

lemma new_user_name [simp]:
  "u_username (new_user kd r n p h) = n" "u_home (new_user kd r n p h) = h" "u_expires_at (new_user kd r n p h) = 0"
  by (simp_all add: new_user_def setPassword_def Let_def)

text \<open>Later additions do not touch the accounts under other names.\<close>

lemma connection_users_keep:
  assumes "new_user_manager L (b_kdf b) (b_load_rand b) (b_now b) file f = Some (m, f')"
    and "connection_users L b cfg f = Some (n, g)"
    and "file = user_file (security cfg)" "file \<noteq> []" "getUser m name = Some u"
  shows "getUser n name = Some u"
proof -
  have ne: "listUsers m \<noteq> []"
    using assms(5) by (auto simp: getUser_def listUsers_def)
  obtain n' g' where t: "ensure_account L (b_now b) (listUsers m = [])
        (new_user (b_kdf b) (b_test_rand b) ''test'' ''test'' ''/tmp'') (m, f') = Some (n', g')"
      "ensure_account L (b_now b) (allow_anonymous (security cfg) \<and> getUser n' ''anonymous'' = None)
        (new_user (b_kdf b) (b_anon_rand b) ''anonymous'' [] ''/tmp'') (n', g') = Some (n, g)"
    using assms(1-4) by (auto simp: connection_users_def bind_eq_Some_conv)
  have "users n' = users m"
    using ensure_account_users[OF t(1)] ne by simp
  moreover have "name = ''anonymous'' \<Longrightarrow> getUser n' ''anonymous'' \<noteq> None"
    using calculation assms(5) by (simp add: getUser_def)
  ultimately show ?thesis
    using ensure_account_users[OF t(2)] assms(5) by (auto simp: getUser_def)
qed

lemma new_connection_fields:
  assumes "new_connection L b sock cfg hosts trk f = Some c"
  shows "\<exists>m g. connection_users L b cfg f = Some (m, g) \<and> user_manager c = m \<and> fs c = g"
    "\<not> authenticated c" "username c = []" "current_virtual_host c = None" "config c = cfg"
    "pam_auth c = enable_pam (security cfg)" "has_tracker c = (trk \<noteq> None)"
  using assms by (auto simp: new_connection_def bind_eq_Some_conv Let_def)

text \<open>Without a user file, the table is the built-in account.\<close>

lemma fresh_table:
  assumes "read_file f file = None" "connection_users L b cfg f = Some (m, g)"
    and "file = user_file (security cfg)" "file \<noteq> []"
  shows "getUser m ''test'' = Some (new_user (b_kdf b) (b_test_rand b) ''test'' ''test'' ''/tmp'')"
proof -
  let ?t = "new_user (b_kdf b) (b_test_rand b) ''test'' ''test'' ''/tmp''"
  let ?e = "\<lparr>users = [], users_file = file\<rparr>"
  have l: "new_user_manager L (b_kdf b) (b_load_rand b) (b_now b) file f = Some (?e, f)"
    using assms(1,4) by (simp add: new_user_manager_def loadUsers_def Let_def)
  obtain n g' where t: "ensure_account L (b_now b) True ?t (?e, f) = Some (n, g')"
      "ensure_account L (b_now b) (allow_anonymous (security cfg) \<and> getUser n ''anonymous'' = None)
        (new_user (b_kdf b) (b_anon_rand b) ''anonymous'' [] ''/tmp'') (n, g') = Some (m, g)"
    using assms(2-4) l by (auto simp: connection_users_def listUsers_def bind_eq_Some_conv)
  show ?thesis
    using ensure_account_users[OF t(1)] ensure_account_users[OF t(2)] by (simp add: getUser_def)
qed

end
