(* ===== verification/Cli_Arguments.thy ===== *)
theory Cli_Arguments
  imports Prelude
begin

text \<open>
  How \<open>src/main/production.cpp\<close> reads its command line: the global options, the options of the \<open>user\<close> and
  \<open>virtual\<close> commands, comma lists, and the password prompt with the echo of the terminal.
\<close>

subsection \<open>The global options\<close>

record cli =
  cl_config :: string
  cl_command :: string
  cl_args :: "string list"
  cl_daemon :: bool
  cl_foreground :: bool
  cl_verbose :: bool

definition no_cli :: cli where
  "no_cli = \<lparr>cl_config = [], cl_command = [], cl_args = [], cl_daemon = False, cl_foreground = False,
             cl_verbose = False\<rparr>"

text \<open>What the function prints before it gives up.\<close>

datatype refusal = Usage | Version | No_path

fun parse_args :: "string list \<Rightarrow> cli \<Rightarrow> refusal + cli" where
  "parse_args [] c = Inr c"
| "parse_args (arg # rest) c =
     (if arg = ''--help'' \<or> arg = ''-h'' then Inl Usage
      else if arg = ''--version'' \<or> arg = ''-v'' then Inl Version
      else if arg = ''--config'' \<or> arg = ''-c'' then
        (case rest of [] \<Rightarrow> Inl No_path | path # rest \<Rightarrow> parse_args rest (c\<lparr>cl_config := path\<rparr>))
      else if arg = ''--verbose'' \<or> arg = ''-V'' then parse_args rest (c\<lparr>cl_verbose := True\<rparr>)
      else if arg = ''--daemon'' \<or> arg = ''-d'' then parse_args rest (c\<lparr>cl_daemon := True\<rparr>)
      else if arg = ''--foreground'' \<or> arg = ''-f'' then parse_args rest (c\<lparr>cl_foreground := True\<rparr>)
      else if arg = ''--test-config'' then parse_args rest (c\<lparr>cl_command := ''test-config''\<rparr>)
      else if arg = ''--validate'' then parse_args rest (c\<lparr>cl_command := ''validate''\<rparr>)
      else if arg = [] \<or> hd arg \<noteq> CHR ''-'' then
        parse_args rest (if cl_command c = [] then c\<lparr>cl_command := arg\<rparr> else c\<lparr>cl_args := cl_args c @ [arg]\<rparr>)
      else parse_args rest (if cl_command c \<noteq> [] then c\<lparr>cl_args := cl_args c @ [arg]\<rparr> else c))"

definition parseArguments :: "string list \<Rightarrow> refusal + cli" where
  "parseArguments argv = parse_args (tl argv) no_cli"

subsection \<open>Comma lists\<close>

definition splitCommaList :: "string \<Rightarrow> string list" where
  "splitCommaList text = filter (\<lambda>w. w \<noteq> []) (map trim (getline_fields CHR '','' text))"

subsection \<open>Options of the commands\<close>

record user_opts =
  uo_username :: string
  uo_password :: string
  uo_password_given :: bool
  uo_home :: string
  uo_set_home :: bool
  uo_permissions :: "string list"
  uo_permissions_text :: string
  uo_set_permissions :: bool

definition no_user_opts :: user_opts where
  "no_user_opts = \<lparr>uo_username = [], uo_password = [], uo_password_given = False, uo_home = [], uo_set_home = False,
                   uo_permissions = [], uo_permissions_text = [], uo_set_permissions = False\<rparr>"

text \<open>The loops look at pairs: a flag they know takes the next argument, any other argument is skipped alone,
  and the last argument counts for nothing.\<close>

fun scan_flags :: "(string \<Rightarrow> (string \<Rightarrow> 'o \<Rightarrow> 'o) option) \<Rightarrow> string list \<Rightarrow> 'o \<Rightarrow> 'o" where
  "scan_flags known (a # v # r) opts =
     (case known a of Some put \<Rightarrow> scan_flags known r (put v opts) | None \<Rightarrow> scan_flags known (v # r) opts)"
| "scan_flags known _ opts = opts"

definition username_flag :: "string \<Rightarrow> (string \<Rightarrow> user_opts \<Rightarrow> user_opts) option" where
  "username_flag a = (if a = ''--username'' \<or> a = ''-u'' then Some (\<lambda>v opts. opts\<lparr>uo_username := v\<rparr>) else None)"

definition password_flag :: "string \<Rightarrow> (string \<Rightarrow> user_opts \<Rightarrow> user_opts) option" where
  "password_flag a =
     (if a = ''--username'' \<or> a = ''-u'' then Some (\<lambda>v opts. opts\<lparr>uo_username := v\<rparr>)
      else if a = ''--password'' \<or> a = ''-p''
      then Some (\<lambda>v opts. opts\<lparr>uo_password := v, uo_password_given := True\<rparr>) else None)"

definition add_flag :: "string \<Rightarrow> (string \<Rightarrow> user_opts \<Rightarrow> user_opts) option" where
  "add_flag a =
     (if a = ''--username'' \<or> a = ''-u'' then Some (\<lambda>v opts. opts\<lparr>uo_username := v\<rparr>)
      else if a = ''--password'' \<or> a = ''-p''
      then Some (\<lambda>v opts. opts\<lparr>uo_password := v, uo_password_given := True\<rparr>)
      else if a = ''--home'' \<or> a = ''-h'' then Some (\<lambda>v opts. opts\<lparr>uo_home := v\<rparr>)
      else if a = ''--permissions'' then Some (\<lambda>v opts. opts\<lparr>uo_permissions := splitCommaList v\<rparr>) else None)"

definition modify_flag :: "string \<Rightarrow> (string \<Rightarrow> user_opts \<Rightarrow> user_opts) option" where
  "modify_flag a =
     (if a = ''--username'' \<or> a = ''-u'' then Some (\<lambda>v opts. opts\<lparr>uo_username := v\<rparr>)
      else if a = ''--home'' \<or> a = ''-h'' then Some (\<lambda>v opts. opts\<lparr>uo_home := v, uo_set_home := True\<rparr>)
      else if a = ''--permissions''
      then Some (\<lambda>v opts. opts\<lparr>uo_permissions_text := v, uo_set_permissions := True\<rparr>) else None)"

record vhost_opts =
  vo_hostname :: string
  vo_root :: string
  vo_cert :: string
  vo_key :: string
  vo_ca :: string
  vo_user_file :: string
  vo_has_enabled :: bool
  vo_enabled :: bool
  vo_has_max_sessions :: bool
  vo_max_sessions :: int
  vo_has_storage_quota :: bool
  vo_storage_quota :: nat
  vo_has_bandwidth_quota :: bool
  vo_bandwidth_quota :: nat

definition no_vhost_opts :: vhost_opts where
  "no_vhost_opts =
     \<lparr>vo_hostname = [], vo_root = [], vo_cert = [], vo_key = [], vo_ca = [], vo_user_file = [],
      vo_has_enabled = False, vo_enabled = True, vo_has_max_sessions = False, vo_max_sessions = 0,
      vo_has_storage_quota = False, vo_storage_quota = 0, vo_has_bandwidth_quota = False, vo_bandwidth_quota = 0\<rparr>"

definition vhost_flag :: "string \<Rightarrow> string \<Rightarrow> vhost_opts \<Rightarrow> vhost_opts option" where
  "vhost_flag flag v opts =
     (if flag = ''--hostname'' \<or> flag = ''-n'' then Some (opts\<lparr>vo_hostname := v\<rparr>)
      else if flag = ''--root'' \<or> flag = ''-r'' then Some (opts\<lparr>vo_root := v\<rparr>)
      else if flag = ''--certificate'' \<or> flag = ''--cert'' then Some (opts\<lparr>vo_cert := v\<rparr>)
      else if flag = ''--private-key'' \<or> flag = ''--key'' then Some (opts\<lparr>vo_key := v\<rparr>)
      else if flag = ''--ca-certificate'' \<or> flag = ''--ca'' then Some (opts\<lparr>vo_ca := v\<rparr>)
      else if flag = ''--user-file'' then Some (opts\<lparr>vo_user_file := v\<rparr>)
      else if flag = ''--max-sessions''
      then map_option (\<lambda>n. opts\<lparr>vo_has_max_sessions := True, vo_max_sessions := n\<rparr>) (stoi v)
      else if flag = ''--storage-quota''
      then map_option (\<lambda>n. opts\<lparr>vo_has_storage_quota := True, vo_storage_quota := n\<rparr>) (stoull v)
      else if flag = ''--bandwidth-quota''
      then map_option (\<lambda>n. opts\<lparr>vo_has_bandwidth_quota := True, vo_bandwidth_quota := n\<rparr>) (stoull v)
      else if flag = ''--enabled''
      then Some (opts\<lparr>vo_has_enabled := True, vo_enabled := (v = ''true'' \<or> v = ''1'' \<or> v = ''yes'')\<rparr>)
      else Some opts)"

text \<open>Here every two arguments make a pair, known or not.\<close>

fun vhost_pairs :: "string list \<Rightarrow> vhost_opts \<Rightarrow> vhost_opts option" where
  "vhost_pairs (flag # v # r) opts = (case vhost_flag flag v opts of None \<Rightarrow> None | Some opts \<Rightarrow> vhost_pairs r opts)"
| "vhost_pairs _ opts = Some opts"

definition parseVirtualHostOptions :: "string list \<Rightarrow> nat \<Rightarrow> vhost_opts option" where
  "parseVirtualHostOptions args start = vhost_pairs (drop start args) no_vhost_opts"

subsection \<open>The password prompt\<close>

record terminal =
  tm_tty :: bool
  tm_attr_ok :: bool               \<comment> \<open>\<open>tcgetattr\<close>\<close>
  tm_mute_ok :: "nat \<Rightarrow> bool"      \<comment> \<open>the i-th \<open>tcsetattr\<close> that turns the echo off\<close>
  tm_mutes :: nat
  tm_echo :: bool
  tm_lines :: "string list"        \<comment> \<open>what is still to be read\<close>
  tm_seen :: "string list"         \<comment> \<open>the lines the terminal has echoed\<close>

definition read_line :: "terminal \<Rightarrow> string option \<times> terminal" where
  "read_line t = (case tm_lines t of
     [] \<Rightarrow> (None, t)
   | l # ls \<Rightarrow> (Some l, t\<lparr>tm_lines := ls, tm_seen := tm_seen t @ (if tm_tty t \<and> tm_echo t then [l] else [])\<rparr>))"

definition readPasswordFromTerminal :: "terminal \<Rightarrow> string option \<times> terminal" where
  "readPasswordFromTerminal t =
     (if \<not> tm_tty t then read_line t
      else if \<not> tm_attr_ok t then (None, t)
      else let original = tm_echo t; i = tm_mutes t; t = t\<lparr>tm_mutes := i + 1\<rparr>
           in if \<not> tm_mute_ok t i then (None, t)
              else (case read_line (t\<lparr>tm_echo := False\<rparr>) of (r, t) \<Rightarrow> (r, t\<lparr>tm_echo := original\<rparr>)))"

definition promptForNewPassword :: "terminal \<Rightarrow> string option \<times> terminal" where
  "promptForNewPassword t =
     (case readPasswordFromTerminal t of
        (None, t) \<Rightarrow> (None, t)
      | (Some first, t) \<Rightarrow>
          if first = [] then (None, t)
          else if tm_tty t then
            (case readPasswordFromTerminal t of
               (None, t) \<Rightarrow> (None, t)
             | (Some second, t) \<Rightarrow> (if first \<noteq> second then None else Some first, t))
          else (Some first, t))"

lemma read_password_quiet:
  "readPasswordFromTerminal t = (r, t') \<Longrightarrow> tm_echo t' = tm_echo t \<and> tm_seen t' = tm_seen t \<and> tm_tty t' = tm_tty t"
  by (auto simp: readPasswordFromTerminal_def read_line_def Let_def split: if_splits list.splits prod.splits)

lemma prompt_quiet:
  "promptForNewPassword t = (r, t') \<Longrightarrow> tm_echo t' = tm_echo t \<and> tm_seen t' = tm_seen t"
  by (auto simp: promptForNewPassword_def split: prod.splits option.splits if_splits dest!: read_password_quiet)

lemma prompt_result: "promptForNewPassword t = (Some p, t') \<Longrightarrow> p \<noteq> []"
  by (auto simp: promptForNewPassword_def split: prod.splits option.splits if_splits)

subsection \<open>What gets through\<close>

text \<open>An argument that no global option catches.\<close>

definition passes :: "string \<Rightarrow> bool" where
  "passes a =
     (a \<notin> {''--help'', ''-h'', ''--version'', ''-v'', ''--config'', ''-c'', ''--verbose'', ''-V'', ''--daemon'', ''-d'',
            ''--foreground'', ''-f'', ''--test-config'', ''--validate''})"

lemma parse_passing:
  "cl_command c \<noteq> [] \<Longrightarrow> list_all passes args \<Longrightarrow> parse_args args c = Inr (c\<lparr>cl_args := cl_args c @ args\<rparr>)"
  by (induction args arbitrary: c) (simp_all add: passes_def)

lemma parse_command:
  assumes "cmd \<noteq> []" "hd cmd \<noteq> CHR ''-''" "list_all passes args"
  shows "parseArguments (prog # cmd # args) = Inr (no_cli\<lparr>cl_command := cmd, cl_args := args\<rparr>)"
proof -
  have "passes cmd"
    using assms(2) by (auto simp: passes_def)
  then show ?thesis
    using assms parse_passing[of "no_cli\<lparr>cl_command := cmd\<rparr>" args]
    by (simp add: parseArguments_def passes_def no_cli_def)
qed

text \<open>Lists are read back from the text with commas.\<close>

lemma split_joined:
  assumes "\<And>w. w \<in> set ws \<Longrightarrow> w \<noteq> [] \<and> CHR '','' \<notin> set w \<and> trim w = w"
  shows "splitCommaList (join CHR '','' ws) = ws"
proof (cases "ws = []")
  case False
  then have s: "split_on CHR '','' (join CHR '','' ws) = ws"
    using assms by (intro split_on_join) auto
  have "last ws \<noteq> []"
    using assms[of "last ws"] False by simp
  then have "getline_fields CHR '','' (join CHR '','' ws) = ws"
    by (simp add: getline_fields_def s)
  moreover have "map trim ws = ws" "filter (\<lambda>w. w \<noteq> []) ws = ws"
    using assms by (auto simp: map_idI filter_id_conv)
  ultimately show ?thesis
    by (simp add: splitCommaList_def)
qed (simp add: splitCommaList_def getline_fields_def)

end
