(* ===== verification/Administration.thy ===== *)
theory Administration
  imports Installation Cli_Arguments Login_Facts
begin

text \<open>
  The commands \<open>user\<close> and \<open>virtual\<close> of \<open>src/main/production.cpp\<close>: each builds the manager of its file, which
  loads (and may rewrite) it, and works on that. A command answers whether it succeeded, the lines
  of a listing (other messages are left out) and the file system; \<open>None\<close> is an exception, which
  \<open>main\<close> does not catch.
\<close>

type_synonym outcome = "(bool \<times> string list \<times> filesys) option"

record operator =
  op_place :: place
  op_now :: int
  op_kdf :: kdf
  op_load_rand :: "nat \<Rightarrow> nat \<Rightarrow> string option"
  op_rand :: "string option"
  op_terminal :: terminal

abbreviation refuse :: "filesys \<Rightarrow> outcome" where
  "refuse f \<equiv> Some (False, [], f)"

subsection \<open>Users\<close>

text \<open>The password of the command line, or of the prompt.\<close>

definition chosen_password :: "operator \<Rightarrow> user_opts \<Rightarrow> string option" where
  "chosen_password w opts =
     (case (if uo_password_given opts then Some (uo_password opts) else fst (promptForNewPassword (op_terminal w))) of
        None \<Rightarrow> None
      | Some p \<Rightarrow> if p = [] then None else Some p)"

definition user_add :: "'j json_lib \<Rightarrow> operator \<Rightarrow> string list \<Rightarrow> user_manager \<Rightarrow> filesys \<Rightarrow> outcome" where
  "user_add L w args m f =
     (let opts = scan_flags add_flag args no_user_opts
      in if uo_username opts = [] \<or> uo_home opts = [] then refuse f
         else (case chosen_password w opts of
                 None \<Rightarrow> refuse f
               | Some p \<Rightarrow>
                   let u = new_user (op_kdf w) (op_rand w) (uo_username opts) p (uo_home opts);
                       u = (if uo_permissions opts \<noteq> [] then u\<lparr>u_permissions := uo_permissions opts\<rparr> else u)
                   in do { (ok, _, f) \<leftarrow> addUser L (op_now w) (Some u) m f; Some (ok, [], f) }))"

definition user_remove :: "'j json_lib \<Rightarrow> operator \<Rightarrow> string list \<Rightarrow> user_manager \<Rightarrow> filesys \<Rightarrow> outcome" where
  "user_remove L w args m f =
     (let opts = scan_flags username_flag args no_user_opts
      in if uo_username opts = [] then refuse f
         else do { (ok, _, f) \<leftarrow> removeUser L (op_now w) (uo_username opts) m f; Some (ok, [], f) })"

definition user_listing :: "user_manager \<Rightarrow> string list" where
  "user_listing m =
     (if users m = [] then [''No users found'']
      else ''Users:'' # map (\<lambda>e. ''  '' @ fst e @ '' (home: '' @ u_home (snd e) @ '')'') (users m))"

text \<open>A changed account, and the file written anew.\<close>

definition save_changed :: "'j json_lib \<Rightarrow> int \<Rightarrow> string \<Rightarrow> ftp_user \<Rightarrow> user_manager \<Rightarrow> filesys \<Rightarrow> outcome" where
  "save_changed L now name u m f =
     do { (ok, f) \<leftarrow> saveUsers L now (m\<lparr>users := map_put name u (users m)\<rparr>) [] f; Some (ok, [], f) }"

definition user_password :: "'j json_lib \<Rightarrow> operator \<Rightarrow> string list \<Rightarrow> user_manager \<Rightarrow> filesys \<Rightarrow> outcome" where
  "user_password L w args m f =
     (let opts = scan_flags password_flag args no_user_opts
      in if uo_username opts = [] then refuse f
         else (case getUser m (uo_username opts) of
                 None \<Rightarrow> refuse f
               | Some u \<Rightarrow>
                   (case chosen_password w opts of
                      None \<Rightarrow> refuse f
                    | Some p \<Rightarrow>
                        let u = setPassword (op_kdf w) (op_rand w) u p
                        in if hasLegacyPassword u then refuse f
                           else save_changed L (op_now w) (uo_username opts) u m f)))"

definition user_modify :: "'j json_lib \<Rightarrow> operator \<Rightarrow> string list \<Rightarrow> user_manager \<Rightarrow> filesys \<Rightarrow> outcome" where
  "user_modify L w args m f =
     (let opts = scan_flags modify_flag args no_user_opts
      in if uo_username opts = [] then refuse f
         else if \<not> uo_set_home opts \<and> \<not> uo_set_permissions opts then refuse f
         else (case getUser m (uo_username opts) of
                 None \<Rightarrow> refuse f
               | Some u \<Rightarrow>
                   let u = (if uo_set_home opts then u\<lparr>u_home := uo_home opts\<rparr> else u);
                       u = (if uo_set_permissions opts
                            then u\<lparr>u_permissions := splitCommaList (uo_permissions_text opts)\<rparr> else u)
                   in save_changed L (op_now w) (uo_username opts) u m f))"

definition handleUserCommand :: "'j json_lib \<Rightarrow> operator \<Rightarrow> string list \<Rightarrow> filesys \<Rightarrow> outcome" where
  "handleUserCommand L w args f = (case args of
     [] \<Rightarrow> refuse f
   | subcommand # args \<Rightarrow>
       do { file \<leftarrow> default_user_file (op_place w) f;
            (m, f) \<leftarrow> new_user_manager L (op_kdf w) (op_load_rand w 0) (op_now w) file f;
            if subcommand = ''add'' then user_add L w args m f
            else if subcommand = ''remove'' then user_remove L w args m f
            else if subcommand = ''list'' then Some (True, user_listing m, f)
            else if subcommand = ''password'' then user_password L w args m f
            else if subcommand = ''modify'' then user_modify L w args m f
            else refuse f })"

subsection \<open>Virtual hosts\<close>

definition printVirtualHostDetails :: "virtual_host \<Rightarrow> string list" where
  "printVirtualHostDetails h =
     [''  '' @ vh_hostname h @ (if vh_enabled h then '' [enabled]'' else '' [disabled]''), ''    root: '' @ vh_root h] @
     (if vh_ssl_cert h \<noteq> [] then [''    ssl_cert: '' @ vh_ssl_cert h] else []) @
     (if vh_ssl_key h \<noteq> [] then [''    ssl_key: '' @ vh_ssl_key h] else []) @
     (if 0 < vh_max_sessions h then [''    max_sessions: '' @ to_string (vh_max_sessions h)] else []) @
     (if 0 < vh_storage_quota h then [''    storage_quota_bytes: '' @ dec_of_nat (vh_storage_quota h)] else []) @
     (case vh_users h of
        None \<Rightarrow> []
      | Some m \<Rightarrow> if users_file m \<noteq> [] then [''    user_file: '' @ users_file m] else [])"

definition vhost_listing :: "vhost_manager \<Rightarrow> string list" where
  "vhost_listing m =
     (let hosts = getAllVirtualHosts m
      in (if hosts = [] then [''No virtual hosts configured'']
          else (''Virtual hosts ('' @ dec_of_nat (length hosts) @ ''):'') # concat (map printVirtualHostDetails hosts)) @
         [''Storage file: '' @ vhosts_file m])"

text \<open>The options both \<open>add\<close> and \<open>modify\<close> apply, in the order of the code; a user file brings its table.\<close>

definition apply_vhost_opts ::
  "'j json_lib \<Rightarrow> operator \<Rightarrow> vhost_opts \<Rightarrow> virtual_host \<Rightarrow> filesys \<Rightarrow> (virtual_host \<times> filesys) option" where
  "apply_vhost_opts L w opts h f =
     (let h = (if vo_has_enabled opts then h\<lparr>vh_enabled := vo_enabled opts\<rparr> else h);
          h = (if vo_cert opts \<noteq> [] then h\<lparr>vh_ssl_cert := vo_cert opts\<rparr> else h);
          h = (if vo_key opts \<noteq> [] then h\<lparr>vh_ssl_key := vo_key opts\<rparr> else h);
          h = (if vo_ca opts \<noteq> [] then h\<lparr>vh_ssl_ca := vo_ca opts\<rparr> else h);
          h = (if vo_has_max_sessions opts then h\<lparr>vh_max_sessions := vo_max_sessions opts\<rparr> else h);
          h = (if vo_has_storage_quota opts then h\<lparr>vh_storage_quota := vo_storage_quota opts\<rparr> else h);
          h = (if vo_has_bandwidth_quota opts then h\<lparr>vh_bandwidth_quota := vo_bandwidth_quota opts\<rparr> else h)
      in if vo_user_file opts \<noteq> [] then
           do { (m, f) \<leftarrow> new_user_manager L (op_kdf w) (op_load_rand w 0) (op_now w) (vo_user_file opts) f;
                Some (h\<lparr>vh_users := Some m\<rparr>, f) }
         else Some (h, f))"

definition virtual_add :: "'j json_lib \<Rightarrow> operator \<Rightarrow> vhost_opts \<Rightarrow> vhost_manager \<Rightarrow> filesys \<Rightarrow> outcome" where
  "virtual_add L w opts m f =
     (if vo_hostname opts = [] \<or> vo_root opts = [] then refuse f
      else do { (h, f) \<leftarrow> apply_vhost_opts L w opts (new_virtual_host (vo_hostname opts) (vo_root opts)) f;
                case addVirtualHost L (op_now w) (Some h) m f of (ok, _, f) \<Rightarrow> Some (ok, [], f) })"

definition virtual_remove :: "'j json_lib \<Rightarrow> operator \<Rightarrow> vhost_opts \<Rightarrow> vhost_manager \<Rightarrow> filesys \<Rightarrow> outcome" where
  "virtual_remove L w opts m f =
     (if vo_hostname opts = [] then refuse f
      else (case removeVirtualHost L (op_now w) (vo_hostname opts) m f of (ok, _, f) \<Rightarrow> Some (ok, [], f)))"

definition save_host :: "'j json_lib \<Rightarrow> int \<Rightarrow> string \<Rightarrow> virtual_host \<Rightarrow> vhost_manager \<Rightarrow> filesys \<Rightarrow> outcome" where
  "save_host L now hostname h m f =
     (case saveVirtualHosts L now (m\<lparr>virtual_hosts := map_put hostname h (virtual_hosts m)\<rparr>) [] f of
        (ok, f) \<Rightarrow> Some (ok, [], f))"

definition virtual_enable :: "'j json_lib \<Rightarrow> operator \<Rightarrow> bool \<Rightarrow> vhost_opts \<Rightarrow> vhost_manager \<Rightarrow> filesys \<Rightarrow> outcome" where
  "virtual_enable L w on opts m f =
     (if vo_hostname opts = [] then refuse f
      else (case getVirtualHost m (vo_hostname opts) of
              None \<Rightarrow> refuse f
            | Some h \<Rightarrow> save_host L (op_now w) (vo_hostname opts) (h\<lparr>vh_enabled := on\<rparr>) m f))"

definition virtual_modify :: "'j json_lib \<Rightarrow> operator \<Rightarrow> vhost_opts \<Rightarrow> vhost_manager \<Rightarrow> filesys \<Rightarrow> outcome" where
  "virtual_modify L w opts m f =
     (if vo_hostname opts = [] then refuse f
      else (case getVirtualHost m (vo_hostname opts) of
              None \<Rightarrow> refuse f
            | Some h \<Rightarrow>
                do { (h, f) \<leftarrow> apply_vhost_opts L w opts
                       (if vo_root opts \<noteq> [] then h\<lparr>vh_root := vo_root opts\<rparr> else h) f;
                     save_host L (op_now w) (vo_hostname opts) h m f }))"

definition handleVirtualCommand :: "'j json_lib \<Rightarrow> operator \<Rightarrow> string list \<Rightarrow> string \<Rightarrow> filesys \<Rightarrow> outcome" where
  "handleVirtualCommand L w args config_file f = (case args of
     [] \<Rightarrow> refuse f
   | subcommand # _ \<Rightarrow>
       do { file \<leftarrow> resolveVirtualHostsFile L (op_place w) config_file f;
            (m, f) \<leftarrow> new_vhost_manager L (op_kdf w) (\<lambda>i. op_load_rand w (i + 1)) (op_now w) file f;
            if subcommand = ''list'' then Some (True, vhost_listing m, f)
            else do { opts \<leftarrow> parseVirtualHostOptions args 1;
                      if subcommand = ''add'' then virtual_add L w opts m f
                      else if subcommand = ''remove'' then virtual_remove L w opts m f
                      else if subcommand = ''enable'' \<or> subcommand = ''disable''
                      then virtual_enable L w (subcommand = ''enable'') opts m f
                      else if subcommand = ''modify'' then virtual_modify L w opts m f
                      else refuse f } })"

subsection \<open>What the user commands leave on disk\<close>

text \<open>No plain password reaches the file through \<open>user password\<close>, whatever the generator does.\<close>

lemma password_keeps_hashed:
  assumes "user_password L w args m f = Some (True, ls, g)" "hashed_table (users m)"
  shows "\<exists>name u. isHashed (u_password u) \<and> hashed_table (map_put name u (users m)) \<and>
     saveUsers L (op_now w) (m\<lparr>users := map_put name u (users m)\<rparr>) [] f = Some (True, g)"
proof -
  let ?o = "scan_flags password_flag args no_user_opts"
  obtain u p where u: "getUser m (uo_username ?o) = Some u"
      "\<not> hasLegacyPassword (setPassword (op_kdf w) (op_rand w) u p)"
      "save_changed L (op_now w) (uo_username ?o) (setPassword (op_kdf w) (op_rand w) u p) m f = Some (True, ls, g)"
    using assms(1) by (auto simp: user_password_def Let_def split: if_splits option.splits)
  let ?v = "setPassword (op_kdf w) (op_rand w) u p"
  have "u_username u = uo_username ?o"
    using u(1) assms(2) by (fastforce simp: getUser_def hashed_table_def dest: map_of_SomeD)
  then have "u_username ?v = uo_username ?o"
    by (simp add: setPassword_def Let_def)
  then have "hashed_table (map_put (uo_username ?o) ?v (users m))"
    using assms(2) u(2) by (auto simp: hashed_table_def hasLegacyPassword_def dest!: set_map_put)
  then show ?thesis
    using u(2,3) by (intro exI[of _ "uo_username ?o"] exI[of _ ?v])
      (auto simp: save_changed_def hasLegacyPassword_def bind_eq_Some_conv)
qed

subsection \<open>From \<open>user add\<close> to a login\<close>

abbreviation add_args :: "string \<Rightarrow> string \<Rightarrow> string \<Rightarrow> string list" where
  "add_args name p home \<equiv> [''add'', ''--username'', name, ''--password'', p, ''--home'', home]"

abbreviation added_account :: "operator \<Rightarrow> string \<Rightarrow> string \<Rightarrow> string \<Rightarrow> ftp_user" where
  "added_account w name p home \<equiv> new_user (op_kdf w) (op_rand w) name p home"

lemma scan_add_args:
  "scan_flags add_flag (tl (add_args name p home)) no_user_opts =
     no_user_opts\<lparr>uo_username := name, uo_password := p, uo_password_given := True, uo_home := home\<rparr>"
  by (simp add: add_flag_def no_user_opts_def)

abbreviation with_account :: "operator \<Rightarrow> string \<Rightarrow> string \<Rightarrow> string \<Rightarrow> user_manager \<Rightarrow> user_manager" where
  "with_account w name p home m \<equiv> m\<lparr>users := map_put name (added_account w name p home) (users m)\<rparr>"

text \<open>The command reports success whether or not the file could be written.\<close>

lemma add_command:
  assumes "handleUserCommand L w (add_args name p home) f = Some (True, ls, g)"
    and "default_user_file (op_place w) f = Some file" "file \<noteq> []"
    and "new_user_manager L (op_kdf w) (op_load_rand w 0) (op_now w) file f = Some (m, f')"
  shows "name \<noteq> [] \<and> p \<noteq> [] \<and> home \<noteq> [] \<and> users_file m = file \<and>
     (\<exists>ok. saveUsers L (op_now w) (with_account w name p home m) [] f' = Some (ok, g))"
proof -
  have m: "users_file m = file"
    using new_user_manager_file[OF assms(4)] .
  have "user_add L w (tl (add_args name p home)) m f' = Some (True, ls, g)"
    using assms(1,2,4) by (simp add: handleUserCommand_def)
  then show ?thesis
    using assms(3) m unfolding user_add_def scan_add_args
    by (auto simp: chosen_password_def addUser_def Let_def bind_eq_Some_conv no_user_opts_def split: if_splits)
qed

lemma saveUsers_default: "users_file m \<noteq> [] \<Longrightarrow> saveUsers L now m [] f = saveUsers L now m (users_file m) f"
  by (simp add: saveUsers_def)

lemma added_storable:
  assumes "op_rand w = Some salt" "derive (op_kdf w) p salt kDefaultIterations = Some d"
  shows "storable (name, added_account w name p home)"
proof -
  have "hash (op_kdf w) (Some salt) p kDefaultIterations \<noteq> []"
    using assms(2) by (simp add: hash_def Let_def kDefaultIterations_def kPrefix_def)
  then have "isHashed (u_password (added_account w name p home))"
    using isHashed_hash[of "op_kdf w" "Some salt" p kDefaultIterations] assms(1)
    by (auto simp: new_user_def setPassword_def Let_def)
  then show ?thesis
    by (simp add: storable_def) (simp add: new_user_def setPassword_def Let_def)
qed

text \<open>What the next reader of the file finds, and the table of a connection after a successful addition.\<close>

lemma added_loaded:
  assumes "json_laws L" "users_file m = file" "file \<noteq> []"
    and save: "saveUsers L now (with_account w name p home m) [] f' = Some (True, g)"
    and parse: "js_parse L (js_write L (users_document L now (with_account w name p home m))) =
       Some (users_document L now (with_account w name p home m))"
    and table: "sorted_map (users m)" "\<forall>e\<in>set (users m). storable e"
    and rand: "op_rand w = Some salt" "derive (op_kdf w) p salt kDefaultIterations = Some d"
  shows "new_user_manager L kd rnd t file g = Some (\<lparr>users = users (with_account w name p home m), users_file = file\<rparr>, g)"
proof -
  let ?m = "with_account w name p home m"
  have "\<forall>e\<in>set (users ?m). storable e"
    using table(2) added_storable[OF rand, of name home] by (auto dest!: set_map_put)
  moreover have "sorted_map (users ?m)"
    using table(1) by (simp add: sorted_put)
  moreover have "saveUsers L now ?m file f' = Some (True, g)"
    using save assms(2,3) saveUsers_default[of ?m L now f'] by simp
  ultimately have "loadUsers L kd rnd t file \<lparr>users = [], users_file = file\<rparr> g =
      Some (True, \<lparr>users = [], users_file = file\<rparr>\<lparr>users := users ?m\<rparr>, g)"
    using load_saved[OF assms(1) _ assms(3) parse] by blast
  then show ?thesis
    using assms(3) by (simp add: new_user_manager_def loadUsers_default)
qed

lemma added_account_found:
  assumes loaded: "new_user_manager L (b_kdf b) (b_load_rand b) (b_now b) file g =
       Some (\<lparr>users = users (with_account w name p home m), users_file = file\<rparr>, g)" "file \<noteq> []"
    and conn: "new_connection L b sock cfg hosts trk g = Some c" "user_file (security cfg) = file"
  shows "getUser (user_manager c) name = Some (added_account w name p home)"
proof -
  obtain n h where n: "connection_users L b cfg g = Some (n, h)" "user_manager c = n"
    using new_connection_fields(1)[OF conn(1)] by blast
  have "getUser \<lparr>users = users (with_account w name p home m), users_file = file\<rparr> name =
      Some (added_account w name p home)"
    by (simp add: getUser_def)
  then show ?thesis
    using connection_users_keep[OF loaded(1) n(1) conn(2)[symmetric] loaded(2)] n(2) by simp
qed

lemma added_account_authenticates:
  assumes "\<not> isHashed p" "op_rand w = Some salt" "salt \<noteq> []" "derive (op_kdf w) p salt kDefaultIterations = Some d"
  shows "authenticate (op_kdf w) now (added_account w name p home) p"
proof -
  have "hash (op_kdf w) (Some salt) p kDefaultIterations \<noteq> []"
    using assms(4) by (simp add: hash_def Let_def kDefaultIterations_def kPrefix_def)
  then have "u_password (added_account w name p home) = hash (op_kdf w) (Some salt) p kDefaultIterations"
    using assms(1,2) by (simp add: new_user_def setPassword_def Let_def)
  then show ?thesis
    using verify_hash[OF assms(3), of kDefaultIterations "op_kdf w" p d p] assms(4)
    by (simp add: authenticate_def isExpired_def kDefaultIterations_def)
qed

subsection \<open>Logging in on a new connection\<close>

text \<open>Without a virtual host and without a limit on sessions, an account that authenticates is logged in.\<close>

lemma login_succeeds:
  assumes "current_virtual_host c = None" "max_sessions_per_user (security (config c)) \<le> 0" "name \<noteq> []"
    and "getUser (user_manager c) name = Some u" "authenticate (kdf e) (clock e) u p"
    and "handleUSER e name c = Some d" "handlePASS e p d = Some d'"
  shows "authenticated d' \<and> current_user d' = Some u"
proof -
  have d: "username d = name" "user_manager d = user_manager c" "current_virtual_host d = None" "config d = config c"
    using assms(1,6) by (auto simp: handleUSER_def)
  have ok: "authenticateUser (kdf e) (clock e) (auth_manager d) (username d) p"
    using d assms(4,5) by (simp add: authenticateUser_def auth_manager_def)
  have "credentials_ok e p d"
    using ok d(1) assms(3) by (simp add: credentials_ok_def)
  moreover have "session_limit_reply (snd (check_password e p d)) = None"
    using d assms(2) by (simp add: session_limit_reply_def)
  ultimately have "authenticated d' \<and> current_user d' = current_user (snd (check_password e p d))"
    using handlePASS_accepted[OF assms(7)] by blast
  then show ?thesis
    using d assms(4,5) by (simp add: check_password_def auth_manager_def Let_def)
qed

text \<open>The built-in account accepts its password whether or not the derivation worked.\<close>

lemma test_account_authenticates:
  assumes "r \<noteq> Some []"
  shows "authenticate kd now (new_user kd r ''test'' ''test'' ''/tmp'') ''test''"
proof -
  have n: "\<not> isHashed ''test''"
    by (simp add: isHashed_def kPrefix_def)
  have "verify kd ''test'' (u_password (new_user kd r ''test'' ''test'' ''/tmp''))"
  proof (cases "hash kd r ''test'' kDefaultIterations = []")
    case True
    then show ?thesis
      using n by (simp add: new_user_def setPassword_def verify_def constantTimeEquals_short)
  next
    case False
    then obtain salt d where s: "r = Some salt" "derive kd ''test'' salt kDefaultIterations = Some d"
      by (auto simp: hash_def kDefaultIterations_def Let_def split: option.splits if_splits)
    then show ?thesis
      using False n assms verify_hash[of salt kDefaultIterations kd "''test''" d "''test''"]
      by (simp add: new_user_def setPassword_def kDefaultIterations_def)
  qed
  then show ?thesis
    by (simp add: authenticate_def isExpired_def)
qed

end
