(* ===== verification/Process_Control.thy ===== *)
theory Process_Control
  imports Administration Monitoring Server
begin

text \<open>
  The commands of \<open>src/main/production.cpp\<close> that deal with the running daemon, and \<open>main\<close>: the PID file,
  \<open>start\<close>, \<open>stop\<close>, \<open>restart\<close>, \<open>status\<close>, \<open>reload\<close>, \<open>test\<close>. The kernel's answers (which signals arrive,
  which polls find the process alive) are arguments; messages and the log file are left out.
\<close>

record kernel =
  kn_pid :: int                    \<comment> \<open>the process itself\<close>
  kn_stray :: int                  \<comment> \<open>what an uninitialised \<open>pid_t\<close> holds\<close>
  kn_alive :: "nat \<Rightarrow> bool"        \<comment> \<open>the i-th \<open>kill(pid, 0)\<close> succeeds\<close>
  kn_term_ok :: bool               \<comment> \<open>\<open>kill(pid, SIGTERM)\<close>\<close>
  kn_hup_ok :: bool
  kn_fork_ok :: bool
  kn_setsid_ok :: bool
  kn_chdir_ok :: bool
  kn_listen :: listen_env
  kn_identity :: identity_env
  kn_heap :: "nat \<Rightarrow> conn"         \<comment> \<open>the connections to come\<close>

subsection \<open>The PID file\<close>

definition getPidFile :: string where
  "getPidFile = ''/var/run/simple-sftpd.pid''"

definition writePidFile :: "kernel \<Rightarrow> filesys \<Rightarrow> filesys" where
  "writePidFile k f = (case open_write f getPidFile True of
     None \<Rightarrow> f
   | Some (d, g) \<Rightarrow> write_at g d 0 (to_string (kn_pid k) @ [CHR 0x0A]))"

text \<open>\<open>file >> pid\<close>: nothing but white space leaves the variable as it was, other failures set it.\<close>

definition extract_int :: "int \<Rightarrow> string \<Rightarrow> int" where
  "extract_int stray s =
     (if dropWhile is_space s = [] then stray
      else (case strto 10 s of
              None \<Rightarrow> 0
            | Some (neg, n) \<Rightarrow>
                if neg then max (- (2 ^ 31)) (- int n) else min (2 ^ 31 - 1) (int n)))"

definition readPidFile :: "kernel \<Rightarrow> filesys \<Rightarrow> int" where
  "readPidFile k f = (case read_file f getPidFile of None \<Rightarrow> -1 | Some s \<Rightarrow> extract_int (kn_stray k) s)"

definition removePidFile :: "filesys \<Rightarrow> filesys option" where
  "removePidFile f =
     do { present \<leftarrow> fs_exists f getPidFile;
          if present then map_option snd (fs_remove f getPidFile) else Some f }"

definition isProcessRunning :: "kernel \<Rightarrow> nat \<Rightarrow> int \<Rightarrow> bool" where
  "isProcessRunning k i pid = (0 < pid \<and> kn_alive k i)"

lemma dec_of_nat_head: "\<exists>c cs. dec_of_nat n = c # cs \<and> \<not> is_space c \<and> c \<noteq> CHR ''-'' \<and> c \<noteq> CHR ''+'' \<and> digit_val 10 c \<noteq> None"
proof -
  obtain c cs where c: "dec_of_nat n = c # cs"
    by (cases "dec_of_nat n") auto
  then have "digit_val 10 c \<noteq> None"
    using dec_of_nat_digits[of c n] by simp
  then show ?thesis
    using c by (auto simp: digit_val_def is_space_def)
qed

lemma strto_dec_line: "strto 10 (dec_of_nat n @ [CHR 0x0A]) = Some (False, n)"
proof -
  obtain c cs where c: "dec_of_nat n = c # cs" "\<not> is_space c" "c \<noteq> CHR ''-''" "c \<noteq> CHR ''+''" "digit_val 10 c \<noteq> None"
    using dec_of_nat_head[of n] by blast
  have "read_digits 10 0 (dec_of_nat n @ [CHR 0x0A]) = n"
    using dec_of_nat_digits by (simp add: read_digits_append read_digits_dec digit_val_def)
  then show ?thesis
    using c by (auto simp: strto_def split: option.splits)
qed

lemma pid_round_trip:
  assumes "open_write f getPidFile True \<noteq> None" "0 < kn_pid k" "kn_pid k < 2 ^ 31"
  shows "readPidFile k' (writePidFile k f) = kn_pid k"
proof -
  obtain d g where w: "open_write f getPidFile True = Some (d, g)"
    using assms(1) by auto
  let ?n = "nat (kn_pid k)"
  have s: "to_string (kn_pid k) = dec_of_nat ?n"
    using assms(2) by (simp add: to_string_def)
  have "strto 10 (dec_of_nat ?n @ [CHR 0x0A]) = Some (False, ?n)"
    by (rule strto_dec_line)
  moreover have "dropWhile is_space (dec_of_nat ?n @ [CHR 0x0A]) \<noteq> []"
    using dec_of_nat_head[of ?n] by auto
  ultimately show ?thesis
    using assms(2,3) w read_written[OF w, of "to_string (kn_pid k) @ [CHR 0x0A]"]
    by (auto simp: readPidFile_def writePidFile_def s extract_int_def)
qed

subsection \<open>Stopping, restarting, asking\<close>

datatype sig = SIGINT | SIGTERM | SIGKILL | SIGHUP

text \<open>The wait: polls from number \<open>i\<close> on, at most \<open>n\<close> times asleep; the number of the next poll.\<close>

primrec polls :: "(nat \<Rightarrow> bool) \<Rightarrow> nat \<Rightarrow> nat \<Rightarrow> nat" where
  "polls alive 0 i = Suc i"
| "polls alive (Suc n) i = (if alive i then polls alive n (Suc i) else Suc i)"

definition stopServer :: "kernel \<Rightarrow> filesys \<Rightarrow> (bool \<times> sig list \<times> filesys) option" where
  "stopServer k f =
     (let pid = readPidFile k f
      in if pid \<le> 0 then Some (False, [], f)
         else if \<not> isProcessRunning k 0 pid then map_option (\<lambda>g. (False, [], g)) (removePidFile f)
         else if kn_term_ok k then
           (let i = polls (\<lambda>i. isProcessRunning k i pid) 30 1;
                signals = (if isProcessRunning k i pid then [SIGTERM, SIGKILL] else [SIGTERM])
            in map_option (\<lambda>g. (True, signals, g)) (removePidFile f))
         else Some (False, [SIGTERM], f))"

definition showStatus :: "'j json_lib \<Rightarrow> kernel \<Rightarrow> string \<Rightarrow> filesys \<Rightarrow> (bool \<times> filesys) option" where
  "showStatus L k config_file f =
     (let pid = readPidFile k f
      in if 0 < pid \<and> isProcessRunning k 0 pid
         then do { _ \<leftarrow> loadFromFile L f config_file default_config; Some (True, f) }
         else if 0 < pid then map_option (Pair False) (removePidFile f)
         else Some (False, f))"

definition reloadConfiguration :: "kernel \<Rightarrow> filesys \<Rightarrow> bool \<times> sig list" where
  "reloadConfiguration k f =
     (let pid = readPidFile k f
      in if pid \<le> 0 \<or> \<not> isProcessRunning k 0 pid then (False, [])
         else (kn_hup_ok k, [SIGHUP]))"

subsection \<open>Checking a configuration\<close>

definition testConfiguration :: "'j json_lib \<Rightarrow> string \<Rightarrow> filesys \<Rightarrow> bool option" where
  "testConfiguration L config_file f =
     do { (loaded, cfg) \<leftarrow> loadFromFile L f config_file default_config;
          Some (loaded \<and> fst (validate cfg)) }"

definition validateConfiguration :: "'j json_lib \<Rightarrow> string \<Rightarrow> filesys \<Rightarrow> bool option" where
  "validateConfiguration L config_file f =
     do { (loaded, cfg) \<leftarrow> loadFromFile L f config_file default_config;
          Some (loaded \<and> errors cfg = []) }"

subsection \<open>Starting\<close>

definition log_level_of :: "string \<Rightarrow> log_level" where
  "log_level_of s =
     (if s = ''TRACE'' then TRACE else if s = ''DEBUG'' then DEBUG else if s = ''INFO'' then INFO
      else if s = ''WARN'' then WARN else if s = ''ERROR'' then ERROR else if s = ''FATAL'' then FATAL else INFO)"

definition configured_logger :: "bool \<Rightarrow> logging_config \<Rightarrow> logger" where
  "configured_logger opened lc =
     new_logger (log_file lc) (log_level_of (Config.log_level lc)) (log_to_console lc) (log_to_file lc)
       (if Config.log_format lc = ''JSON'' then JSON
        else if Config.log_format lc = ''EXTENDED'' then EXTENDED else STANDARD) opened"

text \<open>The virtual hosts the server's constructor loads.\<close>

definition server_hosts ::
  "'j json_lib \<Rightarrow> operator \<Rightarrow> server_config \<Rightarrow> filesys \<Rightarrow> (vhost_manager \<times> filesys) option" where
  "server_hosts L w cfg f =
     do { file \<leftarrow> (if virtual_hosts_file (security cfg) = [] then defaultVirtualHostsFilePath (op_place w) f
                    else Some (virtual_hosts_file (security cfg)));
          new_vhost_manager L (op_kdf w) (op_load_rand w) (op_now w) file f }"

text \<open>What \<open>startServer\<close> tries: the server it started, or the reason to answer false.\<close>

definition try_start ::
  "'j json_lib \<Rightarrow> operator \<Rightarrow> kernel \<Rightarrow> string \<Rightarrow> process \<Rightarrow> filesys \<Rightarrow>
   (server option \<times> process \<times> filesys) option" where
  "try_start L w k config_file p f =
     do { (loaded, cfg) \<leftarrow> loadFromFile L f config_file default_config;
          if \<not> loaded then Some (None, p, f)
          else (case validate cfg of (valid, cfg) \<Rightarrow>
            if \<not> valid then Some (None, p, f)
            else do { (_, f) \<leftarrow> server_hosts L w cfg f;
                      case server_start (kn_listen k) (kn_identity k) (new_server cfg (kn_heap k)) p of
                        (ok, s, p) \<Rightarrow> Some (if ok then Some s else None, p, f) }) }"

text \<open>
  \<open>startServer\<close>: the answer, the server it ran (in the state before its loop) and the file system after
  the shutdown. An exception is caught and the PID file removed; the removal may throw itself.
\<close>

definition startServer ::
  "'j json_lib \<Rightarrow> operator \<Rightarrow> kernel \<Rightarrow> string \<Rightarrow> process \<Rightarrow> filesys \<Rightarrow>
   (bool \<times> server option \<times> filesys) option" where
  "startServer L w k config_file p f =
     (case try_start L w k config_file p f of
        None \<Rightarrow> map_option (\<lambda>g. (False, None, g)) (removePidFile f)
      | Some (None, p, f) \<Rightarrow> Some (False, None, f)
      | Some (Some s, p, f) \<Rightarrow> map_option (\<lambda>g. (True, Some s, g)) (removePidFile (writePidFile k f)))"

text \<open>\<open>daemonize\<close>: the parent is gone with status 0; what is left is the child, or the error.\<close>

definition daemonize :: "kernel \<Rightarrow> filesys \<Rightarrow> filesys option" where
  "daemonize k f =
     (if kn_fork_ok k \<and> kn_setsid_ok k \<and> kn_chdir_ok k then Some (f\<lparr>cwd := root f\<rparr>) else None)"

definition restartServer ::
  "'j json_lib \<Rightarrow> operator \<Rightarrow> kernel \<Rightarrow> string \<Rightarrow> process \<Rightarrow> filesys \<Rightarrow> (bool \<times> filesys) option" where
  "restartServer L w k config_file p f =
     do { (stopped, _, f) \<leftarrow> stopServer k f;
          if stopped then do { (ok, _, f) \<leftarrow> startServer L w k config_file p f; Some (ok, f) }
          else Some (False, f) }"

definition handleSslCommand :: "'j json_lib \<Rightarrow> string list \<Rightarrow> string \<Rightarrow> filesys \<Rightarrow> bool option" where
  "handleSslCommand L args config_file f = (case args of
     [] \<Rightarrow> Some False
   | subcommand # _ \<Rightarrow>
       if subcommand = ''status'' then
         do { present \<leftarrow> (if config_file \<noteq> [] then fs_exists f config_file else Some False);
              if present then
                do { (loaded, cfg) \<leftarrow> loadFromFile L f config_file default_config;
                     if loaded \<and> ssl_cert_file (security cfg) \<noteq> [] \<and> ssl_key_file (security cfg) \<noteq> [] then
                       do { _ \<leftarrow> fs_exists f (ssl_cert_file (security cfg));
                            _ \<leftarrow> fs_exists f (ssl_key_file (security cfg)); Some True }
                     else Some True }
              else Some True }
       else Some (subcommand = ''generate''))"

subsection \<open>Signals\<close>

text \<open>The globals of the running daemon; \<open>dm_exit\<close> is the status it ended with.\<close>

record daemon =
  dm_requested :: bool             \<comment> \<open>\<open>g_shutdown_requested\<close>\<close>
  dm_server :: "server option"     \<comment> \<open>\<open>g_server\<close>\<close>
  dm_exit :: "int option"

text \<open>The signals that have the handler.\<close>

definition setupSignalHandlers :: "sig list" where
  "setupSignalHandlers = [SIGINT, SIGTERM, SIGHUP]"

definition signalHandler :: "daemon \<Rightarrow> filesys \<Rightarrow> (daemon \<times> filesys) option" where
  "signalHandler d f =
     (if dm_requested d then Some (d\<lparr>dm_exit := Some 1\<rparr>, f)
      else map_option (Pair (d\<lparr>dm_requested := True, dm_server := map_option server_stop (dm_server d)\<rparr>)) (removePidFile f))"

text \<open>A signal without the handler ends the process; one that comes after the end is lost.\<close>

definition deliver :: "sig \<Rightarrow> daemon \<times> filesys \<Rightarrow> (daemon \<times> filesys) option" where
  "deliver s = (\<lambda>(d, f).
     if dm_exit d \<noteq> None then Some (d, f)
     else if s \<in> set setupSignalHandlers then signalHandler d f
     else Some (d\<lparr>dm_exit := Some 137\<rparr>, f))"

text \<open>The condition of the loop in \<open>startServer\<close>.\<close>

definition keeps_serving :: "daemon \<Rightarrow> bool" where
  "keeps_serving d = (\<not> dm_requested d \<and> (case dm_server d of None \<Rightarrow> False | Some s \<Rightarrow> sv_running s) \<and> dm_exit d = None)"

lemma server_stop_stops: "\<not> sv_running (server_stop s)" "sv_config (server_stop s) = sv_config s"
  by (simp_all add: server_stop_def Let_def)

text \<open>Whichever of its signals arrives first, the daemon stops serving.\<close>

lemma handled_signal_stops:
  assumes "deliver s (d, f) = Some (d', g)" "s \<in> set setupSignalHandlers" "dm_exit d = None" "\<not> dm_requested d"
  shows "dm_requested d' \<and> \<not> keeps_serving d' \<and> dm_server d' = map_option server_stop (dm_server d) \<and> dm_exit d' = None"
  using assms by (auto simp: deliver_def signalHandler_def keeps_serving_def)

subsection \<open>main\<close>

definition exit_code :: "bool \<Rightarrow> int" where
  "exit_code ok = (if ok then 0 else 1)"

definition default_config_path :: string where
  "default_config_path = ''/etc/simple-sftpd/simple-sftpd.conf''"

definition start_command ::
  "'j json_lib \<Rightarrow> operator \<Rightarrow> kernel \<Rightarrow> cli \<Rightarrow> string \<Rightarrow> process \<Rightarrow> filesys \<Rightarrow> (int \<times> filesys) option" where
  "start_command L w k c config_file p f =
     (case (if cl_daemon c \<and> \<not> cl_foreground c then daemonize k f else Some f) of
        None \<Rightarrow> Some (1, f)
      | Some f \<Rightarrow> do { (ok, _, f) \<leftarrow> startServer L w k config_file p f; Some (exit_code ok, f) })"

definition run_command ::
  "'j json_lib \<Rightarrow> operator \<Rightarrow> kernel \<Rightarrow> cli \<Rightarrow> process \<Rightarrow> filesys \<Rightarrow> (int \<times> filesys) option" where
  "run_command L w k c p f =
     (let command = cl_command c;
          config_file = (if cl_config c = [] then default_config_path else cl_config c)
      in if command = ''test-config'' \<or> command = ''test''
         then do { ok \<leftarrow> testConfiguration L config_file f; Some (exit_code ok, f) }
         else if command = ''validate''
         then do { ok \<leftarrow> validateConfiguration L config_file f; Some (exit_code ok, f) }
         else if command = ''stop'' then do { (ok, _, f) \<leftarrow> stopServer k f; Some (exit_code ok, f) }
         else if command = ''status'' then do { (_, f) \<leftarrow> showStatus L k config_file f; Some (0, f) }
         else if command = ''restart'' then do { (ok, f) \<leftarrow> restartServer L w k config_file p f; Some (exit_code ok, f) }
         else if command = ''reload'' then Some (exit_code (fst (reloadConfiguration k f)), f)
         else if command = ''user'' then do { (ok, _, f) \<leftarrow> handleUserCommand L w (cl_args c) f; Some (exit_code ok, f) }
         else if command = ''virtual''
         then do { (ok, _, f) \<leftarrow> handleVirtualCommand L w (cl_args c) config_file f; Some (exit_code ok, f) }
         else if command = ''ssl'' then do { ok \<leftarrow> handleSslCommand L (cl_args c) config_file f; Some (exit_code ok, f) }
         else if command = [] \<or> command = ''start'' then start_command L w k c config_file p f
         else Some (1, f))"

definition run_main ::
  "'j json_lib \<Rightarrow> operator \<Rightarrow> kernel \<Rightarrow> string list \<Rightarrow> process \<Rightarrow> filesys \<Rightarrow> (int \<times> filesys) option" where
  "run_main L w k argv p f = (case parseArguments argv of
     Inl _ \<Rightarrow> Some (0, f)
   | Inr c \<Rightarrow> run_command L w k c p f)"

subsection \<open>Facts\<close>

lemma polls_dies: "\<exists>j. i \<le> j \<and> j \<le> i + n \<and> \<not> alive j \<Longrightarrow> (\<And>j l. \<not> alive j \<Longrightarrow> j \<le> l \<Longrightarrow> \<not> alive l) \<Longrightarrow> \<not> alive (polls alive n i)"
proof (induction n arbitrary: i)
  case 0
  then show ?case
    by (metis add_0_right le_Suc_eq le_antisym polls.simps(1))
next
  case (Suc n)
  show ?case
  proof (cases "alive i")
    case True
    then have "\<exists>j. Suc i \<le> j \<and> j \<le> Suc i + n \<and> \<not> alive j"
      using Suc.prems(1) by (metis add_Suc_shift not_less_eq_eq le_antisym)
    then show ?thesis
      using Suc True by simp
  next
    case False
    then show ?thesis
      using Suc.prems(2)[of i "Suc i"] by simp
  qed
qed

text \<open>A process that ends within the three seconds of the wait is not killed.\<close>

lemma no_kill:
  assumes "stopServer k f = Some (True, signals, g)" "\<not> kn_alive k j" "1 \<le> j" "j \<le> 31"
    and "\<And>j l. \<not> kn_alive k j \<Longrightarrow> j \<le> l \<Longrightarrow> \<not> kn_alive k l"
  shows "signals = [SIGTERM]"
proof -
  have "\<not> isProcessRunning k (polls (\<lambda>i. isProcessRunning k i pid) 30 1) pid" for pid
    using assms(2-5) by (intro polls_dies[of 1 30 "\<lambda>i. isProcessRunning k i pid"]) (auto simp: isProcessRunning_def)
  then show ?thesis
    using assms(1) by (auto simp: stopServer_def Let_def split: if_splits)
qed

text \<open>A server starts only with a configuration that the test accepts.\<close>

lemma started_config:
  assumes "startServer L w k config_file p f = Some (ok, Some s, g)"
  shows "\<exists>cfg. loadFromFile L f config_file default_config = Some (True, cfg) \<and> fst (validate cfg) \<and>
     sv_config s = snd (validate cfg) \<and> testConfiguration L config_file f = Some True"
proof -
  have c: "server_start le ie t p = (b, u, q) \<Longrightarrow> sv_config u = sv_config t" for le ie t p b u q
    by (auto simp: server_start_def Let_def split: if_splits)
  obtain q h where t: "try_start L w k config_file p f = Some (Some s, q, h)"
    using assms by (auto simp: startServer_def split: option.splits)
  then obtain cfg where l: "loadFromFile L f config_file default_config = Some (True, cfg)" "fst (validate cfg)"
      "(case server_start (kn_listen k) (kn_identity k) (new_server (snd (validate cfg)) (kn_heap k)) p of
          (ok, s, p) \<Rightarrow> Some (if ok then Some s else None, p, h)) = Some (Some s, q, h)"
    by (auto simp: try_start_def bind_eq_Some_conv split_beta split: if_splits)
  then have "sv_config s = snd (validate cfg)"
    using c[of "kn_listen k" "kn_identity k" "new_server (snd (validate cfg)) (kn_heap k)" p]
    by (auto simp: new_server_def split: prod.splits if_splits)
  then show ?thesis
    using l(1,2) by (simp add: testConfiguration_def)
qed

text \<open>\<open>chdir("/")\<close> comes before the configuration is read: a relative path names another file then, and a
  missing file means the defaults.\<close>

lemma default_is_valid: "validate default_config = (True, default_config)"
  by (simp add: validate_def clear_errors_def default_config_def Let_def)

lemma reset_default: "reset_defaults default_config = default_config"
  by (simp add: reset_defaults_def clear_errors_def default_config_def)

lemma missing_config:
  assumes "fs_exists f file = Some False" "startServer L w k file p f = Some (ok, Some s, g)"
  shows "sv_config s = default_config"
proof -
  have "validate (warnings_update (\<lambda>ws. ws @ [x]) default_config) = (True, default_config)" for x
    by (simp add: validate_def clear_errors_def default_config_def Let_def)
  then show ?thesis
    using started_config[OF assms(2)] assms(1) by (auto simp: loadFromFile_def reset_default Let_def)
qed

text \<open>From the shell to the command \<open>user\<close>: arguments that are no global options arrive as they were typed.\<close>

lemma user_command_line:
  assumes "list_all passes args" "run_main L w k (prog # ''user'' # args) p f = Some (st, g)"
  shows "\<exists>ok ls. handleUserCommand L w args f = Some (ok, ls, g) \<and> st = exit_code ok"
proof -
  have "parseArguments (prog # ''user'' # args) = Inr (no_cli\<lparr>cl_command := ''user'', cl_args := args\<rparr>)"
    using parse_command[of "''user''" args prog] assms(1) by simp
  then show ?thesis
    using assms(2) by (auto simp: run_main_def run_command_def no_cli_def Let_def bind_eq_Some_conv)
qed

lemma add_args_pass: "passes name \<Longrightarrow> passes p \<Longrightarrow> passes home \<Longrightarrow> list_all passes (add_args name p home)"
  by (simp add: passes_def)

end
