(* ===== verification/Pam_Auth.thy ===== *)
theory Pam_Auth
  imports Prelude
begin

text \<open>
  \<open>security/pam_auth.cpp\<close>. libpam is a parameter: the answers of \<open>pam_start\<close> and \<open>pam_acct_mgmt\<close> and
  the passwords each account accepts. \<open>pam_authenticate\<close> asks the conversation function, which hands
  out the password \<open>appdata_ptr\<close> points to; \<open>pam_start\<close> copies the \<open>pam_conv\<close>. That structure is one
  static variable of the process, which every connection's thread writes: the interleavings are the
  step relation at the end.
\<close>

record pam_lib =
  pl_start_ok :: "string \<Rightarrow> bool"
  pl_accepts :: "string \<Rightarrow> string \<Rightarrow> bool"
  pl_acct_ok :: "string \<Rightarrow> bool"

subsection \<open>The conversation\<close>

datatype pam_style = ECHO_OFF | ECHO_ON | Other_style

fun pam_conv_func :: "pam_style list \<Rightarrow> string \<Rightarrow> string option list" where
  "pam_conv_func [] password = []"
| "pam_conv_func (m # ms) password =
     (case m of ECHO_OFF \<Rightarrow> Some password | ECHO_ON \<Rightarrow> Some password | Other_style \<Rightarrow> None) # pam_conv_func ms password"

subsection \<open>One authentication\<close>

text \<open>The verdict and whether a handle was opened and closed.\<close>

record pam_run =
  pr_ok :: bool
  pr_opened :: bool
  pr_closed :: bool

definition pam_login :: "pam_lib \<Rightarrow> bool \<Rightarrow> string \<Rightarrow> string \<Rightarrow> pam_run" where
  "pam_login L available name password =
     (if \<not> available then \<lparr>pr_ok = False, pr_opened = False, pr_closed = False\<rparr>
      else if \<not> pl_start_ok L name then \<lparr>pr_ok = False, pr_opened = False, pr_closed = False\<rparr>
      else if \<not> pl_accepts L name password then \<lparr>pr_ok = False, pr_opened = True, pr_closed = True\<rparr>
      else if \<not> pl_acct_ok L name then \<lparr>pr_ok = False, pr_opened = True, pr_closed = True\<rparr>
      else \<lparr>pr_ok = True, pr_opened = True, pr_closed = True\<rparr>)"

lemma pam_handle_closed: "pr_closed (pam_login L a n p) = pr_opened (pam_login L a n p)"
  by (simp add: pam_login_def)

subsection \<open>Threads\<close>

text \<open>A thread: whom it authenticates, with what, and how far it has come.\<close>

datatype pam_phase = Idle | Published | Copied string | Done bool

record pam_thread =
  pt_name :: string
  pt_password :: string
  pt_phase :: pam_phase

text \<open>The shared structure points to the password of the thread that wrote it last.\<close>

record pam_state =
  ps_conv :: "nat option"
  ps_threads :: "nat \<Rightarrow> pam_thread"

definition set_phase :: "nat \<Rightarrow> pam_phase \<Rightarrow> pam_state \<Rightarrow> pam_state" where
  "set_phase i ph s = s\<lparr>ps_threads := (ps_threads s)(i := (ps_threads s i)\<lparr>pt_phase := ph\<rparr>)\<rparr>"

inductive pam_step :: "pam_lib \<Rightarrow> pam_state \<Rightarrow> pam_state \<Rightarrow> bool" for L where
  publish: "pt_phase (ps_threads s i) = Idle \<Longrightarrow> pam_step L s (set_phase i Published (s\<lparr>ps_conv := Some i\<rparr>))"
| start_ok: "pt_phase (ps_threads s i) = Published \<Longrightarrow> ps_conv s = Some j \<Longrightarrow> pl_start_ok L (pt_name (ps_threads s i)) \<Longrightarrow>
     pam_step L s (set_phase i (Copied (pt_password (ps_threads s j))) s)"
| start_bad: "pt_phase (ps_threads s i) = Published \<Longrightarrow> \<not> pl_start_ok L (pt_name (ps_threads s i)) \<Longrightarrow>
     pam_step L s (set_phase i (Done False) s)"
| verdict: "pt_phase (ps_threads s i) = Copied p \<Longrightarrow>
     pam_step L s (set_phase i (Done (pl_accepts L (pt_name (ps_threads s i)) p \<and> pl_acct_ok L (pt_name (ps_threads s i)))) s)"

inductive pam_steps :: "pam_lib \<Rightarrow> pam_state \<Rightarrow> pam_state \<Rightarrow> bool" for L where
  pam_refl: "pam_steps L s s"
| pam_next: "pam_steps L s t \<Longrightarrow> pam_step L t u \<Longrightarrow> pam_steps L s u"

inductive_cases pam_stepE: "pam_step L s t"

text \<open>Alone, a thread gets the verdict of its own password.\<close>

definition lone :: "nat \<Rightarrow> pam_state \<Rightarrow> bool" where
  "lone i s \<longleftrightarrow> (\<forall>j. j \<noteq> i \<longrightarrow> (\<exists>b. pt_phase (ps_threads s j) = Done b)) \<and>
     (case pt_phase (ps_threads s i) of
        Idle \<Rightarrow> True
      | Published \<Rightarrow> ps_conv s = Some i
      | Copied p \<Rightarrow> p = pt_password (ps_threads s i)
      | Done b \<Rightarrow> True)"

text \<open>Two threads: the second publishes its password between the first one's publication and its copy.\<close>

lemma pam_race:
  assumes "i \<noteq> j" "pt_phase (ps_threads s i) = Idle" "pt_phase (ps_threads s j) = Idle"
    and "pl_start_ok L (pt_name (ps_threads s i))" "pl_acct_ok L (pt_name (ps_threads s i))"
    and "pl_accepts L (pt_name (ps_threads s i)) (pt_password (ps_threads s j))"
  shows "\<exists>t. pam_steps L s t \<and> pt_phase (ps_threads t i) = Done True \<and>
     pt_name (ps_threads t i) = pt_name (ps_threads s i) \<and> pt_password (ps_threads t i) = pt_password (ps_threads s i)"
proof -
  let ?a = "set_phase i Published (s\<lparr>ps_conv := Some i\<rparr>)"
  let ?b = "set_phase j Published (?a\<lparr>ps_conv := Some j\<rparr>)"
  let ?c = "set_phase i (Copied (pt_password (ps_threads ?b j))) ?b"
  let ?p = "pt_password (ps_threads ?b j)"
  let ?d = "set_phase i (Done (pl_accepts L (pt_name (ps_threads ?c i)) ?p \<and> pl_acct_ok L (pt_name (ps_threads ?c i)))) ?c"
  have 1: "pam_step L s ?a"
    using assms(2) by (rule publish)
  have 2: "pam_step L ?a ?b"
    using assms(1,3) by (intro publish) (simp add: set_phase_def)
  have 3: "pam_step L ?b ?c"
    using assms(1,4) by (intro start_ok[of ?b i j]) (simp_all add: set_phase_def)
  have 4: "pam_step L ?c ?d"
    by (intro verdict) (simp add: set_phase_def)
  have "pam_steps L s ?d"
    using pam_next[OF pam_next[OF pam_next[OF pam_next[OF pam_refl 1] 2] 3] 4] .
  moreover have "pt_phase (ps_threads ?d i) = Done True"
    using assms(1,5,6) by (simp add: set_phase_def)
  ultimately show ?thesis
    using assms(1) by (intro exI[of _ ?d]) (simp add: set_phase_def)
qed

lemma lone_step: "lone i s \<Longrightarrow> pam_step L s t \<Longrightarrow> lone i t"
proof (elim pam_stepE)
qed (auto simp: lone_def set_phase_def split: pam_phase.splits)

lemma lone_verdict:
  assumes "pam_steps L s t" "lone i s" "pt_phase (ps_threads s i) = Idle" "pt_phase (ps_threads t i) = Done b"
  shows "b = (pl_start_ok L (pt_name (ps_threads s i)) \<and> pl_accepts L (pt_name (ps_threads s i)) (pt_password (ps_threads s i)) \<and>
      pl_acct_ok L (pt_name (ps_threads s i)))"
proof -
  let ?n = "pt_name (ps_threads s i)" and ?p = "pt_password (ps_threads s i)"
  have "lone i t \<and> pt_name (ps_threads t i) = ?n \<and> pt_password (ps_threads t i) = ?p \<and>
     (\<forall>q. pt_phase (ps_threads t i) = Copied q \<longrightarrow> pl_start_ok L ?n) \<and>
     (\<forall>b. pt_phase (ps_threads t i) = Done b \<longrightarrow> b = (pl_start_ok L ?n \<and> pl_accepts L ?n ?p \<and> pl_acct_ok L ?n))"
    using assms(1,2,3)
  proof (induction rule: pam_steps.induct)
    case (pam_next s t u)
    then have l: "lone i u"
      using lone_step by blast
    from pam_next.hyps(2) show ?case
      using pam_next.IH[OF pam_next.prems] l
      by (elim pam_stepE) (auto simp: set_phase_def lone_def split: if_splits)
  qed simp
  then show ?thesis
    using assms(4) by blast
qed

end
