(* ===== verification/Samples_Install.thy ===== *)
theory Samples_Install
  imports Json_Sample Process_Control Pam_Auth
begin

text \<open>
  An installation with its directory under \<open>/etc\<close>, the operator at its command line, and a connection
  that opens the user file of that directory.
\<close>

definition s_users_path :: string where
  "s_users_path = ''/etc/simple-sftpd/users.json''"

definition s_installed :: filesys where
  "s_installed = s_fs\<lparr>tree := tree s_fs @ [([''etc'', ''simple-sftpd''], dir_node)]\<rparr>"

definition s_place :: place where
  "s_place = \<lparr>pl_access = (\<lambda>_. True), pl_home = None\<rparr>"

definition s_operator :: operator where
  "s_operator = \<lparr>op_place = s_place, op_now = 0, op_kdf = s_kdf, op_load_rand = (\<lambda>_ _. None),
     op_rand = Some ''0123456789abcdef'',
     op_terminal = \<lparr>tm_tty = False, tm_attr_ok = True, tm_mute_ok = (\<lambda>_. True), tm_mutes = 0, tm_echo = True,
                    tm_lines = [], tm_seen = []\<rparr>\<rparr>"

definition s_birth :: birth where
  "s_birth = \<lparr>b_place = s_place, b_now = 0, b_kdf = s_kdf, b_load_rand = (\<lambda>_. None), b_test_rand = None,
     b_anon_rand = None, b_tls_ok = True\<rparr>"

definition s_config :: server_config where
  "s_config = default_config\<lparr>security := (security default_config)\<lparr>user_file := s_users_path\<rparr>\<rparr>"

lemma s_config_fields [simp]:
  "user_file (security s_config) = s_users_path" "max_sessions_per_user (security s_config) = 0"
  "chroot_enabled (security s_config) = False" "allow_anonymous (security s_config) = False"
  "enable_pam (security s_config) = False" "s_users_path \<noteq> []"
  by (simp_all add: s_config_def default_config_def s_users_path_def)

lemma s_installed_dir: "status s_installed etc_dir = FDir" "status s_installed (parent_path s_users_path) = FDir"
  by code_simp+

lemma s_installed_file: "read_file s_installed s_users_path = None" "open_write s_installed s_users_path True \<noteq> None"
  by code_simp+

lemma s_users_parent: "parent_path s_users_path \<noteq> []" "\<not> trailing_slash (parent_path s_users_path)"
  by code_simp+

lemma s_default_path: "default_user_file s_place s_installed = Some s_users_path"
  by (simp add: default_user_file_def default_file_def fs_exists_def exists_ec_def s_installed_dir s_users_path_def
      etc_dir_def[symmetric])

lemma s_save:
  assumes "users_file m = s_users_path"
  shows "\<exists>g. saveUsers L now m [] s_installed = Some (True, g)"
  using assms s_installed_file(2) s_installed_dir(2) s_users_parent
  by (auto simp: saveUsers_def create_directories_def Let_def)

definition s_empty :: user_manager where
  "s_empty = \<lparr>users = [], users_file = s_users_path\<rparr>"

lemma s_no_users: "new_user_manager L kd rnd now s_users_path s_installed = Some (s_empty, s_installed)"
  by (simp add: new_user_manager_def loadUsers_def s_installed_file s_empty_def)

lemma s_derived: "derive s_kdf ''looking'' ''0123456789abcdef'' n = Some ''looking0123456789abcdefxxxxxxxxx''"
  by (simp add: derive_def s_kdf_def kDigestBytes_def numeral_eq_Suc)

text \<open>Adding \<open>alice\<close>.\<close>

abbreviation s_add :: "string list" where
  "s_add \<equiv> add_args ''alice'' ''looking'' ''/srv/alice''"

abbreviation s_added :: user_manager where
  "s_added \<equiv> with_account s_operator ''alice'' ''looking'' ''/srv/alice'' s_empty"

lemma s_operator_fields [simp]:
  "op_rand s_operator = Some ''0123456789abcdef''" "op_kdf s_operator = s_kdf" "op_now s_operator = 0"
  "op_place s_operator = s_place"
  by (simp_all add: s_operator_def)

lemma s_birth_fields [simp]: "b_kdf s_birth = s_kdf" "b_test_rand s_birth = None" "b_place s_birth = s_place"
  by (simp_all add: s_birth_def)

lemma no_nul_base64: "CHR 0x00 \<notin> set (base64Encode xs)"
proof -
  have "b64_at t k \<noteq> CHR 0x00" for t k
    using b64_at_simps(1)[of t k] by (auto simp: b64_value_def)
  then show ?thesis
    by (induction xs rule: base64Encode.induct) (auto simp: Let_def dest: sym)
qed

lemma s_added_plain: "plain_json (users_document s_json 0 s_added)"
proof -
  have "CHR 0x00 \<notin> set (hash s_kdf (Some salt) p n)" for salt p n
    using no_nul_dec no_nul_base64
    by (auto simp: hash_def kPrefix_def to_string_def Let_def split: option.split)
  then show ?thesis
    by (simp add: users_document_def user_json_def s_json_def s_empty_def new_user_def setPassword_def isHashed_def
        kPrefix_def Let_def)
qed

lemma s_add_command: "\<exists>g. handleUserCommand s_json s_operator s_add s_installed = Some (True, [], g) \<and>
   saveUsers s_json 0 s_added [] s_installed = Some (True, g)"
proof -
  obtain g where g: "saveUsers s_json 0 s_added [] s_installed = Some (True, g)"
    using s_save[of s_added] by (auto simp: s_empty_def)
  have "users_file s_empty \<noteq> []"
    by (simp add: s_empty_def)
  then have "handleUserCommand s_json s_operator s_add s_installed = Some (True, [], g)"
    using g scan_add_args[of "''alice''" "''looking''" "''/srv/alice''"]
    by (simp add: handleUserCommand_def s_default_path s_no_users user_add_def chosen_password_def addUser_def
        no_user_opts_def Let_def)
  then show ?thesis
    using g by blast
qed

lemma s_connects:
  assumes "new_user_manager s_json s_kdf (b_load_rand s_birth) (b_now s_birth) s_users_path g = Some (m, h)" "users m \<noteq> []"
  shows "new_connection s_json s_birth 1 s_config None None g \<noteq> None"
  using assms by (simp add: new_connection_def connection_users_def ensure_account_def listUsers_def)

lemma s_fresh_connects: "new_connection s_json s_birth 1 s_config None None s_installed \<noteq> None"
proof -
  let ?m = "\<lparr>users = [(''test'', new_user s_kdf None ''test'' ''test'' ''/tmp'')], users_file = s_users_path\<rparr>"
  obtain g where "saveUsers s_json (b_now s_birth) ?m [] s_installed = Some (True, g)"
    using s_save[of ?m s_json "b_now s_birth"] by auto
  then show ?thesis
    by (simp add: new_connection_def connection_users_def s_no_users ensure_account_def addUser_def s_empty_def
        listUsers_def Let_def)
qed

text \<open>The two steps of a login return: there is neither a limit nor a change of root.\<close>

lemma s_login_steps:
  assumes "new_connection s_json s_birth 1 s_config None None g = Some c"
  shows "\<exists>d d'. handleUSER s_env name c = Some d \<and> handlePASS s_env p d = Some d'"
proof -
  have c: "config c = s_config" "\<not> has_tracker c"
    using new_connection_fields[OF assms] by simp_all
  obtain d where d: "handleUSER s_env name c = Some d" "config d = s_config" "\<not> has_tracker d"
    using c by (simp add: handleUSER_def)
  then have "handlePASS s_env p d \<noteq> None"
    by (auto simp: handlePASS_def split_def Let_def split: option.split)
  then show ?thesis
    using d(1) by blast
qed

subsection \<open>Starting\<close>

definition s_kernel :: kernel where
  "s_kernel = \<lparr>kn_pid = 4711, kn_stray = 0, kn_alive = (\<lambda>i. i < 3), kn_term_ok = True, kn_hup_ok = True,
     kn_fork_ok = True, kn_setsid_ok = True, kn_chdir_ok = True,
     kn_listen = \<lparr>le_socket = 3, le_reuse_ok = True, le_bind_ok = True, le_bound_port = Some 21, le_listen_ok = True\<rparr>,
     kn_identity = \<lparr>passwd_uid = (\<lambda>_. None), group_gid = (\<lambda>_. None), setgid_ok = True, setuid_ok = True\<rparr>,
     kn_heap = (\<lambda>_. s_conn)\<rparr>"

lemma s_server_starts:
  "\<exists>s q. server_start (kn_listen s_kernel) (kn_identity s_kernel) (new_server cfg (kn_heap s_kernel)) p = (True, s, q)"
  by (simp add: server_start_def new_server_def s_kernel_def Let_def)

text \<open>Started in \<open>/srv\<close>, where its configuration lies.\<close>

definition s_workdir :: filesys where
  "s_workdir = s_fs\<lparr>tree := tree s_fs @ [([''srv'', ''my.conf''], file_node (''[security]'' @ CHR 0x0A # ''require_ssl = true'' @ [CHR 0x0A]))],
     cwd := [''srv'']\<rparr>"

definition s_rooted :: filesys where
  "s_rooted = s_workdir\<lparr>cwd := root s_workdir\<rparr>"

lemma s_my_conf: "fs_exists s_workdir ''my.conf'' = Some True" "fs_exists s_rooted ''my.conf'' = Some False"
  by code_simp+

lemma s_daemonize: "daemonize s_kernel s_workdir = Some s_rooted"
  by (simp add: daemonize_def s_kernel_def s_rooted_def)

lemma s_missing: "loadFromFile L s_rooted ''my.conf'' default_config =
  Some (True, warnings_update (\<lambda>ws. ws @ [''Configuration file not found: my.conf, using defaults'']) default_config)"
  by (simp add: loadFromFile_def s_my_conf reset_default Let_def)

lemma s_no_pid_file: "fs_exists s_rooted getPidFile = Some False" "open_write s_rooted getPidFile True = None"
  by code_simp+

lemma s_hosts_read: "fs_exists s_rooted etc_dir = Some False" "read_file s_rooted ''/etc/simple-sftpd/virtual_hosts.json'' = None"
  by code_simp+

lemma s_started: "\<exists>s. startServer L s_operator s_kernel ''my.conf'' p s_rooted = Some (True, Some s, s_rooted)"
proof -
  have v: "validate (warnings_update (\<lambda>ws. ws @ [x]) default_config) = (True, default_config)" for x
    by (simp add: validate_def clear_errors_def default_config_def Let_def)
  have n: "virtual_hosts_file (security default_config) = []"
    by (simp add: default_config_def)
  have h: "server_hosts L s_operator default_config s_rooted =
      Some (\<lparr>virtual_hosts = [], vhosts_file = ''/etc/simple-sftpd/virtual_hosts.json''\<rparr>, s_rooted)"
    using s_hosts_read
    by (simp add: server_hosts_def n defaultVirtualHostsFilePath_def default_file_def s_place_def
        new_vhost_manager_def loadVirtualHosts_def etc_dir_def)
  obtain s q where t: "server_start (kn_listen s_kernel) (kn_identity s_kernel) (new_server default_config (kn_heap s_kernel)) p =
      (True, s, q)"
    using s_server_starts by blast
  have "writePidFile s_kernel s_rooted = s_rooted"
    by (simp add: writePidFile_def s_no_pid_file)
  then show ?thesis
    by (simp add: startServer_def try_start_def s_missing v h t removePidFile_def s_no_pid_file)
qed

end
