(* ===== verification/Tls_Context.thy ===== *)
theory Tls_Context
  imports Prelude
begin

text \<open>
  \<open>security/ssl_context.cpp\<close>, built with OpenSSL: the objects it owns and what it passes on. The library
  is a parameter (\<open>openssl\<close>: the answer of each call); \<open>ssl_heap\<close> holds the contexts and sessions
  that are allocated, so that what is created and freed can be compared. Reading and writing only
  forward; the error queue is a list.
\<close>

record openssl =
  os_ctx_new :: bool               \<comment> \<open>\<open>SSL_CTX_new\<close> gives a context\<close>
  os_cert_ok :: "string \<Rightarrow> bool"
  os_key_ok :: "string \<Rightarrow> bool"
  os_pair_ok :: "string \<Rightarrow> string \<Rightarrow> bool"
  os_ca_ok :: "string \<Rightarrow> bool"
  os_ssl_new :: bool
  os_set_fd :: "int \<Rightarrow> bool"
  os_accept :: "nat \<Rightarrow> int"
  os_connect :: "nat \<Rightarrow> int"
  os_read :: "nat \<Rightarrow> int \<Rightarrow> int"
  os_write :: "nat \<Rightarrow> string \<Rightarrow> int"
  os_subject :: "nat \<Rightarrow> string option option"  \<comment> \<open>the peer's certificate, and the text of its subject\<close>

record ssl_heap =
  sh_next :: nat
  sh_ctxs :: "nat list"
  sh_ssls :: "nat list"

record ssl_ctx =
  sx_enabled :: bool
  sx_initialized :: bool
  sx_ctx :: "nat option"
  sx_verify_client :: bool
  sx_client_cas :: "string list"

definition new_ssl_ctx :: ssl_ctx where
  "new_ssl_ctx = \<lparr>sx_enabled = True, sx_initialized = False, sx_ctx = None, sx_verify_client = False, sx_client_cas = []\<rparr>"

definition ctx_alloc :: "ssl_heap \<Rightarrow> nat \<times> ssl_heap" where
  "ctx_alloc h = (sh_next h, h\<lparr>sh_next := sh_next h + 1, sh_ctxs := sh_next h # sh_ctxs h\<rparr>)"

definition ctx_free :: "nat \<Rightarrow> ssl_heap \<Rightarrow> ssl_heap" where
  "ctx_free i h = h\<lparr>sh_ctxs := removeAll i (sh_ctxs h)\<rparr>"

definition ssl_alloc :: "ssl_heap \<Rightarrow> nat \<times> ssl_heap" where
  "ssl_alloc h = (sh_next h, h\<lparr>sh_next := sh_next h + 1, sh_ssls := sh_next h # sh_ssls h\<rparr>)"

definition ssl_free :: "nat \<Rightarrow> ssl_heap \<Rightarrow> ssl_heap" where
  "ssl_free i h = h\<lparr>sh_ssls := removeAll i (sh_ssls h)\<rparr>"

subsection \<open>The context\<close>

text \<open>The early return after a failed call: the new context is freed.\<close>

definition init_failed :: "nat \<Rightarrow> ssl_ctx \<Rightarrow> ssl_heap \<Rightarrow> bool \<times> ssl_ctx \<times> ssl_heap" where
  "init_failed i x h = (False, x\<lparr>sx_ctx := None\<rparr>, ctx_free i h)"

definition ssl_initialize ::
  "openssl \<Rightarrow> string \<Rightarrow> string \<Rightarrow> string \<Rightarrow> bool \<Rightarrow> string \<Rightarrow> ssl_ctx \<Rightarrow> ssl_heap \<Rightarrow> bool \<times> ssl_ctx \<times> ssl_heap" where
  "ssl_initialize o' cert_file key_file ca_file require_client_cert client_ca_file x h =
     (if \<not> sx_enabled x then (False, x, h)
      else if \<not> os_ctx_new o' then (False, x\<lparr>sx_ctx := None\<rparr>, h)
      else (case ctx_alloc h of (i, h) \<Rightarrow>
        let x = x\<lparr>sx_ctx := Some i, sx_verify_client := False, sx_client_cas := []\<rparr>
        in if \<not> os_cert_ok o' cert_file then init_failed i x h
           else if \<not> os_key_ok o' key_file then init_failed i x h
           else if \<not> os_pair_ok o' cert_file key_file then init_failed i x h
           else let x = x\<lparr>sx_client_cas := (if ca_file \<noteq> [] \<and> os_ca_ok o' ca_file then [ca_file] else [])\<rparr>;
                    x = (if require_client_cert then
                           x\<lparr>sx_verify_client := True,
                             sx_client_cas := sx_client_cas x @
                               (if client_ca_file \<noteq> [] \<and> os_ca_ok o' client_ca_file then [client_ca_file] else [])\<rparr>
                         else x)
                in (True, x\<lparr>sx_initialized := True\<rparr>, h)))"

definition ssl_destroy :: "ssl_ctx \<Rightarrow> ssl_heap \<Rightarrow> ssl_heap" where
  "ssl_destroy x h = (case sx_ctx x of None \<Rightarrow> h | Some i \<Rightarrow> ctx_free i h)"

definition ssl_isEnabled :: "ssl_ctx \<Rightarrow> bool" where
  "ssl_isEnabled x = (sx_enabled x \<and> sx_initialized x)"

subsection \<open>Sessions\<close>

definition createSSL :: "openssl \<Rightarrow> int \<Rightarrow> ssl_ctx \<Rightarrow> ssl_heap \<Rightarrow> nat option \<times> ssl_heap" where
  "createSSL o' sock x h =
     (if \<not> sx_initialized x \<or> sx_ctx x = None then (None, h)
      else if \<not> os_ssl_new o' then (None, h)
      else (case ssl_alloc h of (s, h) \<Rightarrow>
        if \<not> os_set_fd o' sock then (None, ssl_free s h) else (Some s, h)))"

definition acceptSSL :: "openssl \<Rightarrow> nat option \<Rightarrow> bool" where
  "acceptSSL o' s = (case s of None \<Rightarrow> False | Some i \<Rightarrow> 0 < os_accept o' i)"

definition connectSSL :: "openssl \<Rightarrow> nat option \<Rightarrow> bool" where
  "connectSSL o' s = (case s of None \<Rightarrow> False | Some i \<Rightarrow> 0 < os_connect o' i)"

definition readSSL :: "openssl \<Rightarrow> nat option \<Rightarrow> int \<Rightarrow> int" where
  "readSSL o' s len = (case s of None \<Rightarrow> -1 | Some i \<Rightarrow> os_read o' i len)"

definition writeSSL :: "openssl \<Rightarrow> nat option \<Rightarrow> string \<Rightarrow> int" where
  "writeSSL o' s buf = (case s of None \<Rightarrow> -1 | Some i \<Rightarrow> os_write o' i buf)"

definition freeSSL :: "nat option \<Rightarrow> ssl_heap \<Rightarrow> ssl_heap" where
  "freeSSL s h = (case s of None \<Rightarrow> h | Some i \<Rightarrow> ssl_free i h)"

definition getClientCertificate :: "openssl \<Rightarrow> nat option \<Rightarrow> string" where
  "getClientCertificate o' s = (case s of
     None \<Rightarrow> []
   | Some i \<Rightarrow> (case os_subject o' i of None \<Rightarrow> [] | Some subject \<Rightarrow> (case subject of None \<Rightarrow> [] | Some t \<Rightarrow> t)))"

text \<open>The sessions \<open>SSL_shutdown\<close> is called on.\<close>

definition shutdownSSL :: "nat option \<Rightarrow> nat list" where
  "shutdownSSL s = (case s of None \<Rightarrow> [] | Some i \<Rightarrow> [i])"

text \<open>The error queue of the thread, oldest first, as the texts of the errors; a text is cut to the buffer.\<close>

definition ssl_error_text :: "string \<Rightarrow> string" where
  "ssl_error_text e = take 255 e"

definition getLastError :: "string list \<Rightarrow> string \<times> string list" where
  "getLastError q = (case q of [] \<Rightarrow> (''No SSL error'', []) | e # q \<Rightarrow> (ssl_error_text e, q))"

fun logSSLErrors :: "string list \<Rightarrow> string list \<Rightarrow> string list \<times> string list" where
  "logSSLErrors log [] = (log, [])"
| "logSSLErrors log (e # q) = logSSLErrors (log @ [''SSL Error: '' @ ssl_error_text e]) q"

lemma logSSLErrors_drains: "logSSLErrors log q = (log @ map (\<lambda>e. ''SSL Error: '' @ ssl_error_text e) q, [])"
  by (induction q arbitrary: log) simp_all

text \<open>So what a failed call logged is not there for \<open>getLastError\<close> any more.\<close>

lemma logged_errors_lost: "fst (getLastError (snd (logSSLErrors log q))) = ''No SSL error''"
  by (simp add: logSSLErrors_drains getLastError_def)

subsection \<open>What is allocated is owned\<close>

text \<open>Identifiers are new, and the context object owns the contexts beyond those of \<open>others\<close>.\<close>

definition heap_fresh :: "ssl_heap \<Rightarrow> bool" where
  "heap_fresh h \<longleftrightarrow> (\<forall>i\<in>set (sh_ctxs h) \<union> set (sh_ssls h). i < sh_next h)"

definition owns :: "nat set \<Rightarrow> ssl_ctx \<Rightarrow> ssl_heap \<Rightarrow> bool" where
  "owns others x h \<longleftrightarrow> heap_fresh h \<and> set (sh_ctxs h) = others \<union> set_option (sx_ctx x) \<and> set_option (sx_ctx x) \<inter> others = {}"

lemma initialize_owns:
  assumes "owns others x h" "sx_ctx x = None" "ssl_initialize o' c k a r l x h = (ok, y, g)"
  shows "owns others y g" "ok \<longleftrightarrow> sx_ctx y \<noteq> None" "sh_ssls g = sh_ssls h"
proof -
  have n: "sh_next h \<notin> others" "sh_next h \<notin> set (sh_ctxs h)"
    using assms(1,2) by (auto simp: owns_def heap_fresh_def)
  show "owns others y g" "ok \<longleftrightarrow> sx_ctx y \<noteq> None" "sh_ssls g = sh_ssls h"
    using assms n by (auto simp: ssl_initialize_def init_failed_def ctx_alloc_def ctx_free_def Let_def owns_def
        heap_fresh_def removeAll_id less_Suc_eq split: if_splits)
qed

lemma destroy_returns: "owns others x h \<Longrightarrow> set (sh_ctxs (ssl_destroy x h)) = others"
  by (cases "sx_ctx x") (auto simp: owns_def ssl_destroy_def ctx_free_def)

lemma create_free:
  "createSSL o' sock x h = (s, g) \<Longrightarrow> heap_fresh h \<Longrightarrow> set (sh_ssls (freeSSL s g)) = set (sh_ssls h) \<and> sh_ctxs (freeSSL s g) = sh_ctxs h"
  by (auto simp: createSSL_def ssl_alloc_def ssl_free_def freeSSL_def heap_fresh_def removeAll_id split: if_splits)

text \<open>Initialising twice drops the first context without freeing it.\<close>

lemma initialize_twice_leaks:
  assumes "owns {} new_ssl_ctx h" "ssl_initialize o' c k a r l new_ssl_ctx h = (True, x, g)"
    and "ssl_initialize o' c k a r l x g = (True, y, u)"
  shows "set (sh_ctxs (ssl_destroy y u)) \<noteq> {}"
  using assms by (auto simp: ssl_initialize_def init_failed_def new_ssl_ctx_def ctx_alloc_def ctx_free_def ssl_destroy_def
      Let_def split: if_splits)

end
