(* ===== verification/Typed_Settings.thy ===== *)
theory Typed_Settings
  imports Session_Laws
begin

text \<open>
  The values the transfer settings of a connection can take. The fields are strings and an offset;
  \<open>typed\<close> says which of their values the commands ever store, and every command keeps it.
\<close>

definition typed :: "conn \<Rightarrow> bool" where
  "typed c =
     (transfer_type c \<in> {''A'', ''I''} \<and> transfer_mode c \<in> {''S'', ''Z''} \<and>
      protection_level c \<in> {''C'', ''S'', ''E'', ''P''} \<and>
      (transfer_mode c = ''Z'' \<longrightarrow> compressionEnabled c) \<and>
      - (2 ^ 63) \<le> resume_position c \<and> resume_position c < 2 ^ 63)"

lemma typed_update [simp]:
  "typed (d\<lparr>active := x1\<rparr>) = typed d" "typed (d\<lparr>authenticated := x2\<rparr>) = typed d"
  "typed (d\<lparr>username := x3\<rparr>) = typed d" "typed (d\<lparr>current_user := x4\<rparr>) = typed d"
  "typed (d\<lparr>current_directory := x5\<rparr>) = typed d" "typed (d\<lparr>passive_listen_socket := x6\<rparr>) = typed d"
  "typed (d\<lparr>data_socket := x7\<rparr>) = typed d" "typed (d\<lparr>active_mode_ip := x8\<rparr>) = typed d"
  "typed (d\<lparr>active_mode_port := x9\<rparr>) = typed d" "typed (d\<lparr>active_mode_enabled := x10\<rparr>) = typed d"
  "typed (d\<lparr>rename_from_path := x11\<rparr>) = typed d" "typed (d\<lparr>epsv_all := x12\<rparr>) = typed d"
  "typed (d\<lparr>utf8_enabled := x13\<rparr>) = typed d" "typed (d\<lparr>store_unique_name := x14\<rparr>) = typed d"
  "typed (d\<lparr>current_virtual_host := x15\<rparr>) = typed d" "typed (d\<lparr>session_registered := x16\<rparr>) = typed d"
  "typed (d\<lparr>fs := x17\<rparr>) = typed d" "typed (d\<lparr>tracker := x18\<rparr>) = typed d" "typed (d\<lparr>data_out := x19\<rparr>) = typed d"
  "typed (d\<lparr>closed := x20\<rparr>) = typed d" "typed (d\<lparr>dialled := x21\<rparr>) = typed d" "typed (d\<lparr>slept := x22\<rparr>) = typed d"
  "typed (d\<lparr>replies := x23\<rparr>) = typed d" "typed (d\<lparr>send_calls := x24\<rparr>) = typed d"
  "typed (d\<lparr>ssl_context := x25\<rparr>) = typed d" "typed (d\<lparr>ssl_enabled := x26\<rparr>) = typed d"
  "typed (d\<lparr>ssl_active := x27\<rparr>) = typed d" "typed (d\<lparr>ssl_session := x28\<rparr>) = typed d"
  "typed (d\<lparr>socket_open := x29\<rparr>) = typed d"
  by (simp_all add: typed_def compressionEnabled_def)

lemma typed_close [simp]: "typed (close_fd fd d) = typed d"
  by (simp add: close_fd_def)

lemma typed_helpers [simp]:
  "typed (sendResponse e r d) = typed d" "typed (sendResponses e rs d) = typed d"
  "typed (send_data fd b d) = typed d" "typed (closeDataSocket d) = typed d"
  "typed (snd (acceptDataConnection e d)) = typed d" "typed (snd (createPassiveDataSocket e d)) = typed d"
  by (simp_all add: typed_def compressionEnabled_def)

text \<open>What the settings commands store.\<close>

lemma typed_stores [simp]:
  "typed d \<Longrightarrow> typed (d\<lparr>transfer_type := ''A''\<rparr>)" "typed d \<Longrightarrow> typed (d\<lparr>transfer_type := ''I''\<rparr>)"
  "typed d \<Longrightarrow> typed (d\<lparr>transfer_mode := ''S''\<rparr>)"
  "typed d \<Longrightarrow> compressionEnabled d \<Longrightarrow> typed (d\<lparr>transfer_mode := ''Z''\<rparr>)"
  "typed d \<Longrightarrow> typed (d\<lparr>protection_level := ''C''\<rparr>)" "typed d \<Longrightarrow> typed (d\<lparr>protection_level := ''P''\<rparr>)"
  "typed d \<Longrightarrow> typed (d\<lparr>protection_level := ''S''\<rparr>)" "typed d \<Longrightarrow> typed (d\<lparr>protection_level := ''E''\<rparr>)"
  "typed d \<Longrightarrow> typed (d\<lparr>resume_position := 0\<rparr>)"
  by (simp_all add: typed_def compressionEnabled_def)

lemma typed_rest [simp]: "typed d \<Longrightarrow> n < 2 ^ 64 \<Longrightarrow> typed (d\<lparr>resume_position := streamoff n\<rparr>)"
  by (simp add: typed_def compressionEnabled_def streamoff_def)

lemma look_typed:
  assumes "typed c"
  shows "returns (handlePWD e c) typed" "returns (handleCWD e a c) typed"
    "returns (handleCDUP e c) typed" "returns (handleLIST e a c) typed"
    "returns (handleMLSD e a c) typed" "returns (handleMLST e a c) typed"
    "returns (handleMDTM e a c) typed" "returns (handleSTAT e a c) typed"
    "returns (handleSIZE e a c) typed"
  using assms by (simp_all add: handlePWD_def handleCWD_def handleCDUP_def handleLIST_def handleMLSD_def
      handleMLST_def handleMDTM_def handleSTAT_def handleSIZE_def finish_listing_def returns_rules)

lemma stoull_less: "stoull s = Some n \<Longrightarrow> n < 2 ^ 64"
  by (auto simp: stoull_base_def split: option.splits if_splits)

lemma setting_typed:
  assumes "typed c"
  shows "returns (handlePASV e c) typed" "returns (handleEPSV e a c) typed"
    "returns (handlePORT e a c) typed" "returns (handleEPRT e a c) typed"
    "returns (handleMODE e a c) typed" "returns (handleTYPE e a c) typed"
    "returns (handleOPTS e a c) typed"
    "returns (handleABOR e c) typed" "returns (handleALLO e a c) typed"
    "returns (handleHELP e a c) typed" "returns (handleSITE e a c) typed"
  using assms by (auto simp add: handlePASV_def handleEPSV_def handlePORT_def handleEPRT_def handleMODE_def
      handleTYPE_def handleOPTS_def handleABOR_def handleALLO_def handleHELP_def
      handleSITE_def site_chmod_def returns_rules)

lemma handleREST_typed: "typed c \<Longrightarrow> returns (handleREST e a c) typed"
  by (auto simp: handleREST_def returns_rules dest: stoull_less)

lemma entry_typed:
  assumes "typed c"
  shows "returns (handleDELE e a c) typed" "returns (handleMKD e a c) typed"
    "returns (handleRMD e a c) typed" "returns (handleRNFR e a c) typed"
    "returns (handleRNTO e a c) typed"
  using assms by (simp_all add: handleDELE_def handleMKD_def handleRMD_def handleRNFR_def handleRNTO_def
      returns_rules)

lemma mode_z_typed: "typed c \<Longrightarrow> mode_z_refusal e c = Some c' \<Longrightarrow> typed c'"
  by (auto simp: mode_z_refusal_def split: if_splits)

lemma transfer_typed:
  assumes "typed d"
  shows "returns (retr_transfer e fd p d) typed" "returns (store_transfer e fd p d) typed"
  using assms by (simp_all add: retr_transfer_def store_transfer_def store_receive_def returns_rules)

lemma upload_typed:
  assumes "typed d"
  shows "returns (handleRETR e a d) typed" "returns (handleSTOR e a d) typed"
    "returns (handleAPPE e a d) typed"
  using assms by (simp_all add: handleRETR_def handleSTOR_def handleAPPE_def returns_rules transfer_typed
      mode_z_typed)

lemma handleSTOU_typed:
  assumes "typed c"
  shows "returns (handleSTOU e a c) typed"
proof -
  have "typed d" if "handleSTOR e n (c\<lparr>store_unique_name := n, resume_position := 0\<rparr>) = Some d" for n d
    using returnsD[OF upload_typed(2) that] assms by simp
  then show ?thesis
    using assms by (simp add: handleSTOU_def returns_rules)
qed

lemma applyChroot_typed: "typed d \<Longrightarrow> applyChroot e d = Some f \<Longrightarrow> typed f"
  by (auto simp: applyChroot_def Let_def split: option.splits bool.splits if_splits)

lemma handlePASS_typed:
  assumes "typed c"
  shows "returns (handlePASS e a c) typed"
proof -
  have k: "typed (snd (check_password e a c))"
    using assms by (simp add: check_password_def Let_def)
  then show ?thesis
    using assms by (auto simp: handlePASS_def returns_rules dest: applyChroot_typed[rotated])
qed

lemma login_typed:
  assumes "typed c"
  shows "returns (handleUSER e a c) typed" "returns (handleQUIT e c) typed"
    "returns (handleHOST e a c) typed" "returns (handlePBSZ e a c) typed"
    "returns (handlePROT e a c) typed"
  using assms by (simp_all add: handleUSER_def handleQUIT_def handleHOST_def handlePBSZ_def handlePROT_def
      returns_rules)

lemma handleAUTH_typed: "typed c \<Longrightarrow> returns (handleAUTH e a c) typed"
  by (cases "current_virtual_host c") (simp_all add: handleAUTH_def upgradeToSSL_def returns_rules Let_def
      if_distrib[of typed])

lemma dispatch_user_typed: "typed c \<Longrightarrow> returns (dispatch_user e cmd a c) typed"
  unfolding dispatch_user_def returns_if
  by (simp add: look_typed setting_typed handleREST_typed entry_typed upload_typed handleSTOU_typed)

lemma dispatch_typed: "typed c \<Longrightarrow> returns (dispatch e cmd a c) typed"
  unfolding dispatch_def returns_if
  by (simp add: dispatch_user_typed login_typed handleAUTH_typed handlePASS_typed setting_typed)

interpretation typed: command_invariant typed "\<lambda>_. True"
  by unfold_locales (simp_all add: dispatch_typed)

end
