(* ===== verification/Codec.thy ===== *)
theory Codec
  imports Prelude
begin

text \<open>
  The class \<open>Compression\<close> of \<open>utils/compression.cpp\<close>: whole buffers through gzip or bzip2. The formats are
  parameters: the stream that compressing a buffer gives, and what a stream holds. Documented of
  both libraries and used here: a call that is asked to finish succeeds exactly when the output fits
  the buffer it is given, and \<open>inflate\<close> goes on with a larger buffer. The estimates of the buffer
  sizes, and giving the input back on failure, are the code's.
\<close>

datatype codec = GZIP | BZIP2 | NO_CODEC

record codec_lib =
  gz_deflate_init :: bool
  gz_inflate_init :: bool
  gz_stream :: "string \<Rightarrow> string"
  gz_content :: "string \<Rightarrow> string option"
  bz_stream :: "string \<Rightarrow> string"
  bz_content :: "string \<Rightarrow> string option"

text \<open>\<open>size * 1.1 + k\<close>, exact as long as the size is far below \<open>2 ^ 52\<close>; bzip2 takes 32-bit lengths.\<close>

definition estimate :: "nat \<Rightarrow> nat \<Rightarrow> nat" where
  "estimate k n = 11 * n div 10 + k"

definition uint :: "nat \<Rightarrow> nat" where
  "uint n = n mod 2 ^ 32"

definition compressGzip :: "codec_lib \<Rightarrow> string \<Rightarrow> string" where
  "compressGzip L data =
     (if \<not> gz_deflate_init L then data
      else if length (gz_stream L data) \<le> estimate 12 (length data) then gz_stream L data else data)"

definition decompressGzip :: "codec_lib \<Rightarrow> string \<Rightarrow> string" where
  "decompressGzip L data =
     (if \<not> gz_inflate_init L then data
      else (case gz_content L data of
              None \<Rightarrow> data
            | Some content \<Rightarrow>
                if length content \<le> length data * 4 then content
                else if length content \<le> length data * 4 * 2 then content
                else data))"

definition compressBzip2 :: "codec_lib \<Rightarrow> string \<Rightarrow> string" where
  "compressBzip2 L data =
     (let given = take (uint (length data)) data
      in if length (bz_stream L given) \<le> uint (estimate 600 (length data)) then bz_stream L given else data)"

definition decompressBzip2 :: "codec_lib \<Rightarrow> string \<Rightarrow> string" where
  "decompressBzip2 L data =
     (case bz_content L (take (uint (length data)) data) of
        None \<Rightarrow> data
      | Some content \<Rightarrow>
          if length content \<le> uint (length data * 4) then content
          else if length content \<le> uint (length data * 8) then content
          else data)"

definition codec_compress :: "codec_lib \<Rightarrow> codec \<Rightarrow> string \<Rightarrow> string" where
  "codec_compress L type data = (case type of
     GZIP \<Rightarrow> compressGzip L data | BZIP2 \<Rightarrow> compressBzip2 L data | NO_CODEC \<Rightarrow> data)"

definition codec_decompress :: "codec_lib \<Rightarrow> codec \<Rightarrow> string \<Rightarrow> string" where
  "codec_decompress L type data = (case type of
     GZIP \<Rightarrow> decompressGzip L data | BZIP2 \<Rightarrow> decompressBzip2 L data | NO_CODEC \<Rightarrow> data)"

definition isSupported :: "codec \<Rightarrow> bool" where
  "isSupported type = (case type of GZIP \<Rightarrow> True | BZIP2 \<Rightarrow> True | NO_CODEC \<Rightarrow> True)"

subsection \<open>When decompressing inverts compressing\<close>

text \<open>Documented of the formats: a stream holds what it was made of.\<close>

definition codec_laws :: "codec_lib \<Rightarrow> bool" where
  "codec_laws L \<longleftrightarrow>
     gz_deflate_init L \<and> gz_inflate_init L \<and>
     (\<forall>s. gz_content L (gz_stream L s) = Some s) \<and> (\<forall>s. bz_content L (bz_stream L s) = Some s)"

definition codec_stream :: "codec_lib \<Rightarrow> codec \<Rightarrow> string \<Rightarrow> string" where
  "codec_stream L type = (case type of GZIP \<Rightarrow> gz_stream L | BZIP2 \<Rightarrow> bz_stream L | NO_CODEC \<Rightarrow> id)"

lemma uint_small: "n < 2 ^ 32 \<Longrightarrow> uint n = n"
  by (simp add: uint_def)

text \<open>Data that fits the estimate and shrinks at most eightfold comes back.\<close>

lemma codec_inverse:
  assumes "codec_laws L" "length s < 2 ^ 28"
    and "length (codec_stream L type s) \<le> estimate 12 (length s)" "length s \<le> 8 * length (codec_stream L type s)"
  shows "codec_decompress L type (codec_compress L type s) = s"
proof -
  have "11 * length s div 10 + 600 < 2 ^ 29"
    using assms(2) by simp
  then have "estimate 600 (length s) < 2 ^ 32" "8 * length (bz_stream L s) < 2 ^ 32" if "type = BZIP2"
    using assms(3) that by (simp_all add: estimate_def codec_stream_def)
  moreover have "estimate 12 n \<le> estimate 600 n" for n
    by (simp add: estimate_def)
  ultimately show ?thesis
    using assms order_trans[of "length (bz_stream L s)" "estimate 12 (length s)" "estimate 600 (length s)"]
    by (cases type) (auto simp: codec_decompress_def codec_compress_def compressGzip_def decompressGzip_def compressBzip2_def
        decompressBzip2_def codec_laws_def codec_stream_def uint_small Let_def)
qed

text \<open>Data that shrinks further does not: the compressed stream itself is handed out as the content.\<close>

lemma codec_ratio_lost:
  assumes "codec_laws L" "gz_stream L s \<noteq> s" "length (gz_stream L s) \<le> estimate 12 (length s)"
    and "8 * length (gz_stream L s) < length s"
  shows "codec_decompress L GZIP (codec_compress L GZIP s) = gz_stream L s"
  using assms by (simp add: codec_decompress_def codec_compress_def compressGzip_def decompressGzip_def codec_laws_def)

end
