(* ===== verification/Stores.thy ===== *)
theory Stores
  imports Host_Store
begin

text \<open>
  What the two JSON files have in common: a table is written whole and read whole, and reading gives
  back what the format can carry. The contract is the locale; the user file and the file of virtual
  hosts provide it. Its consequence is about restarts, each of which loads what the last run saved.
\<close>

locale file_table =
  fixes save :: "'t \<Rightarrow> filesys \<Rightarrow> filesys option" and load :: "filesys \<Rightarrow> 't option"
    and good :: "'t \<Rightarrow> bool" and kept :: "'t \<Rightarrow> 't"
  assumes load_save: "good t \<Longrightarrow> save t f = Some g \<Longrightarrow> load g = Some (kept t)"
    and good_kept: "good t \<Longrightarrow> good (kept t)"
    and kept_kept: "kept (kept t) = kept t"
begin

lemma last_save_wins: "good u \<Longrightarrow> save t f = Some g \<Longrightarrow> save u g = Some h \<Longrightarrow> load h = Some (kept u)"
  by (rule load_save)

end

text \<open>\<open>n\<close> runs that each save their table and load it again.\<close>

primrec generations ::
  "('t \<Rightarrow> filesys \<Rightarrow> filesys option) \<Rightarrow> (filesys \<Rightarrow> 't option) \<Rightarrow> nat \<Rightarrow> 't \<Rightarrow> filesys \<Rightarrow> ('t \<times> filesys) option" where
  "generations save load 0 t f = Some (t, f)"
| "generations save load (Suc n) t f =
     do { g \<leftarrow> save t f; u \<leftarrow> load g; generations save load n u g }"

context file_table
begin

text \<open>All losses happen in the first run.\<close>

lemma generations_kept: "good t \<Longrightarrow> generations save load n t f = Some (u, g) \<Longrightarrow> u = t \<or> u = kept t"
proof (induction n arbitrary: t f)
  case (Suc n)
  then obtain h where "save t f = Some h" "generations save load n (kept t) h = Some (u, g)"
    using load_save[of t f] by (auto simp: bind_eq_Some_conv)
  then show ?case
    using Suc.IH[of "kept t" h] good_kept[OF Suc.prems(1)] kept_kept by simp
qed simp

lemma generations_lose_once:
  assumes "good t" "generations save load (Suc n) t f = Some (u, g)"
  shows "u = kept t"
proof -
  obtain h where "generations save load n (kept t) h = Some (u, g)"
    using assms load_save[of t f] by (auto simp: bind_eq_Some_conv)
  then show ?thesis
    using generations_kept[of "kept t" n h u g] good_kept[OF assms(1)] kept_kept by auto
qed

end

subsection \<open>The user file\<close>

definition save_users :: "'j json_lib \<Rightarrow> int \<Rightarrow> string \<Rightarrow> (string, ftp_user) std_map \<Rightarrow> filesys \<Rightarrow> filesys option" where
  "save_users L now file us f =
     (case saveUsers L now \<lparr>users = us, users_file = file\<rparr> file f of Some (True, g) \<Rightarrow> Some g | _ \<Rightarrow> None)"

definition load_users ::
  "'j json_lib \<Rightarrow> kdf \<Rightarrow> (nat \<Rightarrow> string option) \<Rightarrow> int \<Rightarrow> string \<Rightarrow> filesys \<Rightarrow> (string, ftp_user) std_map option" where
  "load_users L kd rnd now file f = map_option (\<lambda>(m, _). users m) (new_user_manager L kd rnd now file f)"

definition good_users :: "'j json_lib \<Rightarrow> int \<Rightarrow> string \<Rightarrow> (string, ftp_user) std_map \<Rightarrow> bool" where
  "good_users L now file us \<longleftrightarrow>
     json_laws L \<and> file \<noteq> [] \<and> sorted_map us \<and> (\<forall>e\<in>set us. storable e) \<and>
     (let doc = users_document L now \<lparr>users = us, users_file = file\<rparr> in js_parse L (js_write L doc) = Some doc)"

interpretation user_table: file_table "save_users L now path" "load_users L kd rnd t path" "good_users L now path" id
  for L now path kd rnd t
proof
  fix us f g
  let ?m = "\<lparr>users = us, users_file = path\<rparr>"
  assume a: "good_users L now path us" "save_users L now path us f = Some g"
  then have "saveUsers L now ?m path f = Some (True, g)"
    by (auto simp: save_users_def split: option.splits prod.splits bool.splits)
  from load_saved[OF _ this, of kd rnd t "\<lparr>users = [], users_file = path\<rparr>"]
  have "loadUsers L kd rnd t path \<lparr>users = [], users_file = path\<rparr> g = Some (True, ?m, g)"
    using a(1) by (simp add: good_users_def Let_def)
  then show "load_users L kd rnd t path g = Some (id us)"
    using a(1) by (simp add: load_users_def new_user_manager_def loadUsers_default good_users_def)
qed simp_all

subsection \<open>The file of virtual hosts\<close>

definition save_hosts :: "'j json_lib \<Rightarrow> int \<Rightarrow> string \<Rightarrow> (string, virtual_host) std_map \<Rightarrow> filesys \<Rightarrow> filesys option" where
  "save_hosts L now file hs f =
     (case saveVirtualHosts L now \<lparr>virtual_hosts = hs, vhosts_file = file\<rparr> file f of (ok, g) \<Rightarrow> if ok then Some g else None)"

definition read_hosts ::
  "'j json_lib \<Rightarrow> kdf \<Rightarrow> (nat \<Rightarrow> nat \<Rightarrow> string option) \<Rightarrow> int \<Rightarrow> string \<Rightarrow> filesys \<Rightarrow> (string, virtual_host) std_map option" where
  "read_hosts L kd rnd now file f = map_option (\<lambda>(m, _). virtual_hosts m) (new_vhost_manager L kd rnd now file f)"

definition good_hosts :: "'j json_lib \<Rightarrow> int \<Rightarrow> string \<Rightarrow> (string, virtual_host) std_map \<Rightarrow> bool" where
  "good_hosts L now file hs \<longleftrightarrow>
     json_laws L \<and> file \<noteq> [] \<and> sorted_map hs \<and> (\<forall>e\<in>set hs. plain_host e) \<and>
     (\<forall>ks\<in>{hs, forget_errors hs}. let doc = hosts_document L now \<lparr>virtual_hosts = ks, vhosts_file = file\<rparr>
        in js_parse L (js_write L doc) = Some doc)"

lemma forget_twice: "forget_errors (forget_errors hs) = forget_errors hs"
  by (auto simp: forget_errors_def without_errors_def)

lemma plain_forget: "\<forall>e\<in>set hs. plain_host e \<Longrightarrow> \<forall>e\<in>set (forget_errors hs). plain_host e"
  by (auto simp: forget_errors_def plain_host_def without_errors_def)

interpretation host_table: file_table "save_hosts L now path" "read_hosts L kd rnd t path" "good_hosts L now path" forget_errors
  for L now path kd rnd t
proof
  fix hs f g
  let ?n = "\<lparr>virtual_hosts = [], vhosts_file = path\<rparr>"
  assume a: "good_hosts L now path hs" "save_hosts L now path hs f = Some g"
  then have "loadVirtualHosts L kd rnd t path ?n g =
      Some (True, ?n\<lparr>virtual_hosts := forget_errors (virtual_hosts \<lparr>virtual_hosts = hs, vhosts_file = path\<rparr>)\<rparr>, g)"
    by (intro hosts_reloaded[of L now _ path f])
      (auto simp: good_hosts_def save_hosts_def Let_def split: prod.splits if_splits)
  then show "read_hosts L kd rnd t path g = Some (forget_errors hs)"
    using a(1) by (simp add: read_hosts_def new_vhost_manager_def loadVirtualHosts_def good_hosts_def)
next
  fix hs
  assume "good_hosts L now path hs"
  then show "good_hosts L now path (forget_errors hs)"
    using plain_forget[of hs] by (simp add: good_hosts_def sorted_forget forget_twice)
qed (rule forget_twice)

text \<open>However often the daemon restarts: the accounts stay, and the hosts lose their replies once.\<close>

lemma users_survive_restarts:
  "good_users L now file us \<Longrightarrow> generations (save_users L now file) (load_users L kd rnd t file) (Suc n) us f = Some (vs, g) \<Longrightarrow>
   vs = us"
  using user_table.generations_lose_once by fastforce

lemma hosts_survive_restarts:
  "good_hosts L now file hs \<Longrightarrow> generations (save_hosts L now file) (read_hosts L kd rnd t file) (Suc n) hs f = Some (ks, g) \<Longrightarrow>
   ks = forget_errors hs"
  by (rule host_table.generations_lose_once)

end
