(* ===== verification/Spec2Isabelle.thy ===== *)
theory Spec2Isabelle
  imports Samples Protocol_Facts Server Json_Sample Monitoring File_Cache Zlib_Stream Samples_Install Tls_Context
    Typed_Settings Codec Stores Readers
begin

text \<open>
  A model of simple-sftpd, an FTP daemon in C++, and what it guarantees. Paths of sources are below
  \<^verbatim>\<open>src/simple-sftpd/\<close> unless they begin with \<^verbatim>\<open>main/\<close>; a definition has the name of the function it translates
  where Isabelle allows it.

  \<^bold>\<open>The program.\<close> \<^verbatim>\<open>main/production.cpp\<close> reads the command line and administers users, virtual hosts and
  the daemon. \<open>start\<close> loads the configuration and runs an \<open>FTPServer\<close>, whose loop accepts clients past
  the address lists, the rate limiter and the limit on connections. Each client is an
  \<open>FTPConnection\<close> with a thread of its own: it reads lines, dispatches commands, authenticates against
  the user table of the server or of a virtual host (or PAM), and moves files between the file system
  and the data connection, in the clear or compressed. The connections share the session tracker,
  which the limits on sessions consult, and the file system.

  \<^bold>\<open>How the model is made.\<close> Objects are records and methods take and return them; an exception that
  leaves a function is \<open>None\<close>, and one that leaves the command loop ends the process, so that no step of
  \<open>world_step\<close> or \<open>server_step\<close> follows it; strings are lists of characters. What the kernel, the peer, the clock,
  the random generator, OpenSSL, libpam, zlib, PBKDF2 and jsoncpp answer is an argument (\<open>env\<close>, \<open>kdf\<close>,
  \<open>json_lib\<close>, \<open>pam_lib\<close>, \<open>openssl\<close>, \<open>zcall\<close>, \<open>kernel\<close>, \<open>birth\<close>, \<open>operator\<close>), so a statement about any argument
  is a statement about any answer. A handler is \<open>handleX e argument c\<close>, from the environment and the
  connection to the connection afterwards, with the replies, the bytes sent, the descriptors closed
  and the time slept recorded in it.

  \<^bold>\<open>Theories.\<close>
  \<^item> \<open>Prelude\<close>, \<open>Std_Map\<close>: collections, strings and numbers of the C++ library, \<open>std::map\<close> (locale \<open>kv_store\<close>).
  \<^item> \<open>Filesystem\<close>, \<open>Paths\<close>, \<open>Files\<close>: the tree of inodes with symbolic links, and \<open>std::filesystem\<close> on it.
    \<open>Fs_Facts\<close> and \<open>Fs_Effects\<close> say where resolution ends and what each operation changes.
  \<^item> \<open>Password\<close>, \<open>Users\<close>, \<open>User_Store\<close>: \<^verbatim>\<open>security/password.cpp\<close>, \<^verbatim>\<open>user/user.cpp\<close>, \<^verbatim>\<open>user/user_manager.cpp\<close>.
    \<open>Virtual_Hosts\<close>, \<open>Host_Store\<close>: \<^verbatim>\<open>virtual_host/*.cpp\<close>. \<open>Json_Values\<close> is what they use of jsoncpp;
    \<open>Stores\<close> states what both files promise (locale \<open>file_table\<close>).
  \<^item> \<open>Config\<close>, \<open>Config_Loading\<close>: \<^verbatim>\<open>config/server_config.hpp\<close> and \<^verbatim>\<open>.cpp\<close>, with the INI, YAML and JSON notations.
  \<^item> \<open>Connection\<close> (state, replies, data sockets, path checks), \<open>Login\<close>, \<open>Listing\<close>, \<open>Settings\<close>, \<open>Transfers\<close>,
    \<open>Dispatch\<close> (directory entries, parsing, dispatch, the command loop): \<^verbatim>\<open>core/connection.cpp\<close>;
    \<open>Installation\<close> has its constructor.
  \<^item> \<open>Sessions\<close> (\<^verbatim>\<open>core/session_tracker.cpp\<close>, locale \<open>session_counter\<close>), \<open>Rate_Limiter\<close>, \<open>Access_Control\<close>,
    \<open>Connection_Manager\<close>, \<open>Server\<close>: the files of those names in \<^verbatim>\<open>security/\<close> and \<^verbatim>\<open>core/\<close>.
  \<^item> \<open>Cli_Arguments\<close>, \<open>Administration\<close>, \<open>Process_Control\<close>: \<^verbatim>\<open>main/production.cpp\<close>.
  \<^item> \<open>Logger\<close>, \<open>File_Cache\<close>, \<open>Monitoring\<close>, \<open>Zlib_Stream\<close>, \<open>Codec\<close>: \<^verbatim>\<open>utils/\<close>; \<open>Pam_Auth\<close>, \<open>Tls_Context\<close>: \<^verbatim>\<open>security/\<close>.
  \<^item> \<open>Samples\<close>, \<open>Json_Sample\<close>, \<open>Samples_Install\<close>: the concrete inputs on which the properties are tried.

  \<^bold>\<open>Groups of lemmas.\<close> \<open>Frames\<close> (collection \<open>frames\<close>), \<open>Confinement\<close>, \<open>Login_Facts\<close>, \<open>Protocol_Facts\<close>,
  \<open>Typed_Settings\<close> go through all commands once each: what a command leaves alone, what it changes below
  the home, who can log in, that it answers, that TLS stays on, what the settings can be.
  \<open>Session_Laws\<close> lifts such a fact from commands to sessions and to the command loop (locale
  \<open>command_invariant\<close>). \<open>Transfer_Facts\<close> and \<open>Upload_Facts\<close> are about the copy loops. \<open>World\<close> interleaves
  connections, a command at a time. \<open>File_Store\<close> states what the commands promise about files as edits of
  a map and shows that the handlers refine it; \<open>Permissions\<close> that changes and data are asked for;
  \<open>Exceptions\<close> which commands throw and when; \<open>Tenants\<close> carries the containment from one session to the
  whole server, through logins and changes of the virtual host; \<open>Readers\<close> is about accounts that cannot
  write. The sections below follow the same
  order: what a session may touch, transfers, sessions and limits, credentials, the server, corners of
  the protocol, the files of the installation, the utilities, and the way from the command line to
  the daemon.

  \<^bold>\<open>Bounds.\<close> Path resolution follows 40 symbolic links, as Linux does; \<open>normalizeForComparison\<close> and the
  loops over input recurse on what is left of it. \<open>STOU\<close> tries 10000 names and \<open>stop\<close> polls 30 times, as
  the code does. The loop of \<open>ZlibStream::process\<close> has no bound and is a \<open>partial_function\<close>: that it
  returns, and that it does not, are theorems. Integers the code keeps in \<open>int\<close>, \<open>size_t\<close> or \<open>uint64_t\<close>
  wrap or throw where the code's conversions do.

  \<^bold>\<open>Not modelled.\<close> The branches for other systems and for builds without compression, JSON, OpenSSL or
  PAM. Interleavings below one command, except where shared data is read and written in several
  steps (the performance monitor and PAM). Signals other than those the daemon handles: a \<open>send\<close> to a
  peer that is gone is a failed call here, while SIGPIPE, which the daemon leaves at its default, can
  end it. The directories \<open>create_directories\<close> leaves behind when it throws half way. Messages of the
  command line other than listings, what reaches the log file, \<open>printUsage\<close> and \<open>printVersion\<close>. The
  fixed protocol and cipher settings of OpenSSL, the floating-point transfer rate of the monitor,
  accessors that only return a field.
\<close>

section \<open>What a session may touch\<close>









text \<open>C5. Permissions are asked for: a command other than \<open>PASS\<close> that changes the file system was given by a
  client who is logged in, has the write permission for the path the command is about (the new name
  for \<open>STOU\<close>, the target of \<open>SITE CHMOD\<close>) and named a valid path; one that sends bytes on a data connection
  was given under the permission to read the file or to list.\<close>

theorem commands_need_permission:
  assumes "dispatch e cmd a c = Some d" "cmd \<noteq> ''PASS''"
  shows "(fs d \<noteq> fs c \<longrightarrow> authenticated c \<and> hasPermission c ''write'' (subject c cmd a) \<and>
            validatePath c (resolvePath c (subject c cmd a))) \<and>
         (data_out d \<noteq> data_out c \<longrightarrow> authenticated c \<and> may_send c cmd a)"
  using returnsD[OF dispatch_allowed[OF assms(2)] assms(1)] returnsD[OF dispatch_data[OF assms(2)] assms(1)]
    returnsD[OF dispatch_anonymous[OF _ assms(2)] assms(1)]
  by (auto simp: allowed_change_def may_write_def data_kept_def inert_def)

theorem commands_need_permission_witness:
  "\<exists>d. dispatch s_env ''MKD'' ''new'' s_alice = Some d \<and> fs d \<noteq> s_fs \<and> hasPermission s_alice ''write'' ''new'' \<and>
       validatePath s_alice ''/srv/alice/new''"
proof -
  obtain d where d: "dispatch s_env ''MKD'' ''new'' s_alice = Some d"
      "fs d = put_node s_fs [''srv'', ''alice'', ''new''] Directory 511"
    using s_alice_mkd by blast
  have "kind_at (tree s_fs) [''srv'', ''alice'', ''new''] = None"
    by code_simp
  moreover have "kind_at (tree (fs d)) [''srv'', ''alice'', ''new''] = Some Directory"
    by (simp add: d(2) kind_put)
  ultimately have "fs d \<noteq> s_fs"
    by auto
  then show ?thesis
    using commands_need_permission[OF d(1)] d(1) by (auto simp: subject_def s_alice_new)
qed



text \<open>C7. A connection that starts without a login and ends logged in has passed through a \<open>PASS\<close>
  whose password the selected account table or PAM accepted, under the session limits.\<close>

theorem login_needs_credentials:
  assumes "session (\<lambda>_. True) a b" "\<not> authenticated a" "authenticated b"
  shows "\<exists>c e p d. session (\<lambda>_. True) a c \<and> handlePASS e p c = Some d \<and> credentials_ok e p c \<and>
           session_limit_reply (snd (check_password e p c)) = None \<and> session (\<lambda>_. True) d b"
  using assms
proof (induction rule: session.induct)
  case (next_step a b cmd c)
  show ?case
  proof (cases "authenticated b")
    case True
    then show ?thesis
      using next_step session.next_step by blast
  next
    case False
    from next_step(2) show ?thesis
    proof cases
      case (command e p)
      have cmd: "cmd = ''PASS''"
        using returnsD[OF dispatch_login_kept command] False next_step.prems(2)
        by (auto simp: login_kept_def)
      then have "handlePASS e p b = Some c"
        using command dispatch_PASS by simp
      moreover from this have "credentials_ok e p b \<and> session_limit_reply (snd (check_password e p b)) = None"
        using handlePASS_rejected[of e p b c] False next_step.prems(2) by argo
      moreover have "session (\<lambda>_. True) c c"
        by (rule session.start)
      ultimately show ?thesis
        using next_step.hyps(1) by (intro exI[of _ b] exI[of _ e] exI[of _ p] exI[of _ c]) simp
    next
      case lost
      then show ?thesis
        using False next_step.prems(2) by simp
    qed
  qed
qed simp

theorem login_needs_credentials_witness:
  "\<exists>c e p. session (\<lambda>_. True) s_conn c \<and> credentials_ok e p c"
proof -
  obtain b where b: "session (\<lambda>_. True) s_conn b" "authenticated b"
    using s_login by blast
  then show ?thesis
    using login_needs_credentials[OF b(1) _ b(2)] by (auto simp: s_conn_def)
qed



text \<open>C9. Every command is answered: when a handler returns, it has called \<open>send\<close> at least once.\<close>

theorem commands_are_answered:
  assumes "socket_open c" "dispatch e cmd a c = Some d"
  shows "send_calls c < send_calls d \<and> socket_open d"
  using returnsD[OF dispatch_answers[OF assms(1)] assms(2)] by (simp add: answered_def)

theorem commands_are_answered_witness:
  "send_calls s_conn < send_calls (sendResponse s_env ''200 NOOP command successful'' s_conn)"
proof -
  have "socket_open s_conn"
    "dispatch s_env ''NOOP'' [] s_conn = Some (sendResponse s_env ''200 NOOP command successful'' s_conn)"
    by (simp_all add: s_conn_def dispatch_def)
  then show ?thesis
    using commands_are_answered by blast
qed



section \<open>Transfers\<close>





text \<open>C13. A download is complete: when the kernel takes whole buffers (\<open>full_io\<close>), the bytes on the data
  connection are the file from the restart position on.\<close>

theorem RETR_sends_file:
  assumes "handleRETR e a c = Some d" "data_out d \<noteq> data_out c"
    and "file_content (fs c) (resolvePath c a) = Some s" "\<not> transferModeZ c"
    and "0 \<le> resume_position c" "resume_position c \<le> int (length s)"
    and "full_io e (copy_buffer c) (length s)"
  shows "\<exists>fd. data_out d = data_out c @ [(fd, drop (nat (resume_position c)) s)]"
  by (rule RETR_complete[OF assms])

theorem RETR_sends_file_witness:
  "\<exists>d fd. handleRETR s_env ''notes'' s_alice = Some d \<and> data_out d = [(fd, ''hello world'')]"
proof -
  obtain d where d: "handleRETR s_env ''notes'' s_alice = Some d" "data_out d = [(6, ''hello world'')]"
    using s_retr by blast
  have "full_io s_env (copy_buffer s_alice) (length ''hello world'')"
    using s_full_io[of "length ''hello world''"] s_buffer[of s_alice] by simp
  then show ?thesis
    using RETR_sends_file[OF d(1), of "''hello world''"] d by (simp add: s_notes s_paths transferModeZ_def)
qed





section \<open>Sessions and limits\<close>



text \<open>C17. A login that is accepted and a later \<open>stop\<close> of the same connection leave the books as they
  were: the counts of all users and all hosts are those from before the login.\<close>

theorem login_then_stop:
  assumes "handlePASS e p c = Some c'" "credentials_ok e p c"
    and "session_limit_reply (snd (check_password e p c)) = None" "has_tracker c"
  shows "getCountForUser (tracker (stop c')) k = getCountForUser (tracker c) k \<and>
         getCountForHost (tracker (stop c')) h = getCountForHost (tracker c) h"
  using PASS_stop[OF assms] by simp

theorem login_then_stop_witness:
  "\<exists>c. handlePASS s_env ''wonder'' s_limited = Some c \<and> getCountForUser (tracker c) ''alice'' = 1 \<and>
       getCountForUser (tracker (stop c)) ''alice'' = 0"
proof -
  obtain c where c: "handlePASS s_env ''wonder'' s_limited = Some c"
      "getCountForUser (tracker c) ''alice'' = 1"
    using s_limited_login by blast
  have "has_tracker s_limited" "tracker s_limited = new_tracker"
    by (simp_all add: s_limited_def)
  then have "getCountForUser (tracker (stop c)) ''alice'' = 0"
    using login_then_stop[OF c(1) s_limited_credentials, of "''alice''" "[]"]
    by (simp add: tracker.start_empty)
  then show ?thesis
    using c by blast
qed

text \<open>C18. The tracker implements two bags: after any history of logins and logouts the count of a name
  is its multiplicity in the bag of the open sessions, where closing one that is not open is ignored.\<close>

theorem tracker_counts_sessions:
  assumes "k \<noteq> []"
  shows "getCountForUser (replay registerSession unregisterSession new_tracker es) k =
           count (bag (\<lambda>u h. u) {#} es) k \<and>
         getCountForHost (replay registerSession unregisterSession new_tracker es) k =
           count (bag (\<lambda>u h. h) {#} es) k"
  using tracker.replay_counts[OF assms] by simp

theorem tracker_counts_sessions_witness:
  "getCountForUser (replay registerSession unregisterSession new_tracker
     [Closed ''eve'' [], Opened ''eve'' ''h'', Opened ''eve'' [], Closed ''eve'' ''h'']) ''eve'' = 1"
  using tracker_counts_sessions[of "''eve''"
      "[Closed ''eve'' [], Opened ''eve'' ''h'', Opened ''eve'' [], Closed ''eve'' ''h'']"] by simp

text \<open>The tracker stays well formed: no entry for the empty name and none that counts nothing, so its
  maps are no larger than the number of open sessions.\<close>

theorem tracker_stays_ok: "tracker_ok (replay registerSession unregisterSession new_tracker es)"
proof -
  have "tracker_ok t \<Longrightarrow> tracker_ok (replay registerSession unregisterSession t es)" for t
    by (induction registerSession unregisterSession t es rule: replay.induct)
      (simp_all add: tracker_ok_register tracker_ok_unregister)
  then show ?thesis
    using tracker_ok_new by blast
qed

section \<open>Credentials\<close>

text \<open>C19. A stored hash accepts exactly the passwords that derive the same key from its salt: in
  particular the one it was made from.\<close>

theorem hash_then_verify:
  assumes "salt \<noteq> []" "n \<le> 100000000"
    and "derive kd p salt (if n = 0 then kDefaultIterations else n) = Some d"
  shows "verify kd q (hash kd (Some salt) p n) =
           (derive kd q salt (if n = 0 then kDefaultIterations else n) = Some d) \<and>
         isHashed (hash kd (Some salt) p n)"
proof -
  have "hash kd (Some salt) p n \<noteq> []"
    using assms(3) by (simp add: hash_def Let_def kPrefix_def)
  then show ?thesis
    using verify_hash[OF assms] isHashed_hash[of kd "Some salt" p n] by simp
qed

theorem hash_then_verify_witness:
  "verify s_kdf ''wonder'' (hash s_kdf (Some ''0123456789abcdef'') ''wonder'' 1000) \<and>
   \<not> verify s_kdf ''wander'' (hash s_kdf (Some ''0123456789abcdef'') ''wonder'' 1000)"
proof -
  have "derive s_kdf ''wonder'' ''0123456789abcdef'' 1000 = Some ''wonder0123456789abcdefxxxxxxxxxx''"
    "derive s_kdf ''wander'' ''0123456789abcdef'' 1000 = Some ''wander0123456789abcdefxxxxxxxxxx''"
    by (simp_all add: derive_def s_kdf_def kDigestBytes_def numeral_eq_Suc)
  then show ?thesis
    using hash_then_verify[of "''0123456789abcdef''" 1000 s_kdf "''wonder''"] by simp
qed

text \<open>The constant-time comparison is equality for strings shorter than 256 characters.\<close>

theorem compare_is_equality:
  assumes "length a < 256" "length b < 256"
  shows "constantTimeEquals a b = (a = b)"
  using constantTimeEquals_short[OF assms] .

theorem compare_is_equality_witness:
  "constantTimeEquals ''wonder'' ''wonder'' \<and> \<not> constantTimeEquals ''wonder'' ''wonderful''"
  using compare_is_equality[of "''wonder''" "''wonder''"] compare_is_equality[of "''wonder''" "''wonderful''"]
  by simp

text \<open>For longer strings it is not: the difference of the lengths is taken modulo 256 and characters
  past an end count as zero, so 256 zero characters may follow a legacy password.\<close>

theorem compare_ignores_zeros: "constantTimeEquals (p @ replicate 256 (CHR 0x00)) p"
  by (auto simp: constantTimeEquals_iff byte_or_0_def nth_append)

text \<open>Base64 as written decodes what it encodes, for every byte string.\<close>

theorem base64_round_trip: "base64Decode (base64Encode xs) = Some xs"
  by (rule decode_encode)




section \<open>The server\<close>

text \<open>C22. Whatever clients, commands, maintenance passes and shutdowns happen: the server never holds more
  connections than the configured maximum.\<close>

theorem connections_bounded:
  assumes "server_run s s'"
    and "getConnectionCount (sv_manager s) \<le> to_size_t (max_connections (connection (sv_config s)))"
  shows "getConnectionCount (sv_manager s') \<le> to_size_t (max_connections (connection (sv_config s)))"
  using server_run_limit[OF assms] by simp

theorem connections_bounded_witness:
  "\<exists>s'. server_run ((new_server default_config (\<lambda>_. s_conn))\<lparr>sv_running := True\<rparr>) s' \<and>
        getConnectionCount (sv_manager s') = 1 \<and> getConnectionCount (sv_manager s') \<le> 100"
proof -
  let ?s = "(new_server default_config (\<lambda>_. s_conn))\<lparr>sv_running := True\<rparr>"
  have m: "max_connections (connection default_config) = 100" "rate_limit_enabled (rate_limit default_config) = False"
    by (simp_all add: default_config_def)
  let ?t = "handleConnection 0 s_conn (?s\<lparr>sv_limiter := None, sv_recorded := 1\<rparr>)"
  have "serve_client 5 5 ''10.0.0.1'' 0 s_conn ?s = Some (Accepted, ?t)"
    by (simp add: serve_client_def new_server_def acl_allows_def limiter_step_def configured_limiter_def m
        getConnectionCount_def new_manager_def to_size_t_def)
  then have "server_step ?s ?t"
    by (rule client[rotated -1]) (simp_all add: new_server_def new_manager_def s_conn_def)
  then have run: "server_run ?s ?t"
    by (rule run_step[OF run_start])
  have "getConnectionCount (sv_manager ?t) \<le> to_size_t 100"
    using connections_bounded[OF run] by (simp add: new_server_def new_manager_def getConnectionCount_def m)
  then have "getConnectionCount (sv_manager ?t) \<le> 100"
    by (simp add: to_size_t_def)
  moreover have "getConnectionCount (sv_manager ?t) = 1"
    by (simp add: new_server_def new_manager_def getConnectionCount_def)
  ultimately show ?thesis
    using run by blast
qed

text \<open>C23. The rate limiter: in any stretch of one minute it lets through at most twice the configured
  number of connections of one address, whatever the others do.\<close>

theorem rate_bounded:
  assumes "clocked now rs" "0 \<le> now" "0 \<le> m" "0 < a"
  shows "int (length (filter (\<lambda>t. a \<le> t \<and> t < a + window_duration)
           (admitted k (setRateLimit m new_limiter) rs))) \<le> 2 * m"
proof -
  have e: "entry_of (setRateLimit m new_limiter) k = \<lparr>request_count = 0, window_start = 0\<rparr>"
    by (simp add: entry_of_def setRateLimit_def new_limiter_def)
  have "room m a now \<lparr>request_count = 0, window_start = 0\<rparr> \<le> 2 * m"
    using assms by (simp add: room_def)
  moreover have "entry_ok m now \<lparr>request_count = 0, window_start = 0\<rparr>"
    using assms by (simp add: entry_ok_def)
  moreover have mx: "rl_max_requests (setRateLimit m new_limiter) = m"
    by (simp add: setRateLimit_def)
  ultimately show ?thesis
    using admitted_room[of now rs "setRateLimit m new_limiter" k a, unfolded e mx, OF assms(1) _ assms(3,4)]
    by linarith
qed

theorem rate_bounded_witness:
  "length (filter (\<lambda>t. 50 * 10 ^ 9 \<le> t \<and> t < 50 * 10 ^ 9 + window_duration)
     (admitted ''a'' (setRateLimit 2 new_limiter)
        (map (\<lambda>t. (t * 10 ^ 9, t * 10 ^ 9, ''a'')) [1, 50, 55, 61, 62]))) = 3 \<and> int 3 \<le> 2 * 2"
proof -
  have adm: "admitted ''a'' (setRateLimit 2 new_limiter)
     (map (\<lambda>t. (t * 10 ^ 9, t * 10 ^ 9, ''a'')) [1, 50, 55, 61, 62]) =
     [1000000000, 50000000000, 61000000000, 62000000000]"
    by code_simp
  have "int (length (filter (\<lambda>t. 50 * 10 ^ 9 \<le> t \<and> t < 50 * 10 ^ 9 + window_duration)
     (admitted ''a'' (setRateLimit 2 new_limiter)
        (map (\<lambda>t. (t * 10 ^ 9, t * 10 ^ 9, ''a'')) [1, 50, 55, 61, 62])))) \<le> 2 * 2"
    by (rule rate_bounded[of 0]) simp_all
  then show ?thesis
    unfolding adm by (simp add: window_duration_def)
qed

text \<open>C24. The address lists, when they hold CIDR blocks: a client is let in when its first bits match no
  black block and, unless the white list is empty, match some white block.\<close>

theorem access_lists_decide:
  assumes "is_quad a" "\<forall>b\<in>set bs. is_block b" "\<forall>b\<in>set ws. is_block b"
  shows "acl_allows (dotted a) \<lparr>whitelist = map cidr_block ws, blacklist = map cidr_block bs\<rparr> =
         Answer ((\<forall>b\<in>set bs. \<not> in_block a b) \<and> (ws = [] \<or> (\<exists>b\<in>set ws. in_block a b)))"
  by (rule acl_blocks[OF assms])

theorem access_lists_decide_witness:
  "acl_allows (dotted [10, 1, 2, 3])
     \<lparr>whitelist = map cidr_block [([10, 0, 0, 0], 8)], blacklist = map cidr_block [([10, 1, 3, 0], 24)]\<rparr> =
   Answer True"
proof -
  have "\<not> in_block [10, 1, 2, 3] ([10, 1, 3, 0], 24)" "in_block [10, 1, 2, 3] ([10, 0, 0, 0], 8)"
    by (simp_all add: in_block_def address_def)
  then show ?thesis
    using access_lists_decide[of "[10, 1, 2, 3]" "[([10, 1, 3, 0], 24)]" "[([10, 0, 0, 0], 8)]"]
    by (simp add: is_quad_def is_block_def)
qed

text \<open>A block with a negative prefix length is not refused: it matches every address, so one such
  entry on the black list blocks all clients.\<close>

theorem negative_prefix_matches_all:
  assumes "is_quad a" "is_quad b" "0 < n" "n \<le> 2 ^ 31"
  shows "matchesCIDR (dotted a) (dotted b @ ''/'' @ ''-'' @ dec_of_nat n) = Answer True"
  by (rule negative_prefix[OF assms])

theorem negative_prefix_matches_all_witness:
  "matchesCIDR (dotted [8, 8, 8, 8]) (dotted [10, 0, 0, 0] @ ''/'' @ ''-'' @ dec_of_nat 24) = Answer True"
  by (rule negative_prefix_matches_all) (simp_all add: is_quad_def)

text \<open>C25. A pass of the cleanup thread keeps the books of the tracker: when the counts agree with the
  registered connections before, they agree after, and exactly the active connections stay.\<close>

theorem cleanup_keeps_books:
  assumes "accounted ids m" "cm_connections m = map Some ids"
  shows "accounted (filter (\<lambda>i. is_live m (Some i)) ids) (cleanup_pass m) \<and>
         cm_connections (cleanup_pass m) = map Some (filter (\<lambda>i. is_live m (Some i)) ids)"
  using cleanup_accounted[OF assms] by simp

theorem cleanup_keeps_books_witness:
  "\<exists>m. getCountForUser (cm_tracker m) ''alice'' = 1 \<and> getCountForUser (cm_tracker (cleanup_pass m)) ''alice'' = 0"
proof -
  let ?c = "s_conn\<lparr>active := False, session_registered := True, username := ''alice''\<rparr>"
  let ?m = "(new_manager (\<lambda>_. ?c) (registerSession new_tracker ''alice'' []))\<lparr>cm_connections := [Some 0]\<rparr>"
  have "accounted [0] ?m"
    by (auto simp: accounted_def new_manager_def registered_as_def tracker.reg_users tracker.start_empty)
  moreover have "cm_connections ?m = map Some [0]"
    by simp
  ultimately have "accounted (filter (\<lambda>i. is_live ?m (Some i)) [0]) (cleanup_pass ?m)"
    using cleanup_keeps_books by blast
  then have "getCountForUser (cm_tracker (cleanup_pass ?m)) ''alice'' = 0"
    by (simp add: is_live_def new_manager_def accounted_def)
  moreover have "getCountForUser (cm_tracker ?m) ''alice'' = 1"
    by (simp add: new_manager_def tracker.reg_users tracker.start_empty)
  ultimately show ?thesis
    by blast
qed

text \<open>The shutdown leaves no session counted: after \<open>stopAllConnections\<close> the tracker counts nobody.\<close>

theorem shutdown_clears_books:
  assumes "accounted ids m" "cm_connections m = map Some ids" "k \<noteq> []"
  shows "getCountForUser (cm_tracker (stopAllConnections m)) k = 0 \<and>
         cm_connections (stopAllConnections m) = []"
  using stopAll_clears[OF assms] by simp

theorem shutdown_clears_books_witness:
  "\<exists>m. getCountForUser (cm_tracker m) ''alice'' = 1 \<and>
       getCountForUser (cm_tracker (stopAllConnections m)) ''alice'' = 0"
proof -
  let ?c = "s_conn\<lparr>session_registered := True, username := ''alice''\<rparr>"
  let ?m = "(new_manager (\<lambda>_. ?c) (registerSession new_tracker ''alice'' []))\<lparr>cm_connections := [Some 0]\<rparr>"
  have "accounted [0] ?m"
    by (auto simp: accounted_def new_manager_def registered_as_def tracker.reg_users tracker.start_empty)
  then have "getCountForUser (cm_tracker (stopAllConnections ?m)) ''alice'' = 0"
    using shutdown_clears_books[of "[0]" ?m "''alice''"] by simp
  moreover have "getCountForUser (cm_tracker ?m) ''alice'' = 1"
    by (simp add: new_manager_def tracker.reg_users tracker.start_empty)
  ultimately show ?thesis
    by blast
qed

section \<open>Protocol corners\<close>

text \<open>C26. Once the control connection is protected it stays protected: whatever commands follow, every
  further reply of the session goes out through TLS.\<close>

theorem protected_stays_protected:
  assumes "session P c d" "tls_on c"
  shows "tls_on d \<and> (\<exists>rs. replies d = replies c @ rs \<and> list_all fst rs)"
proof -
  have "session (\<lambda>_. True) c d"
    using assms(1) by (rule session_weaken) simp
  then have "secure c d"
    by (rule tls.session_keeps) (rule secure_start[OF assms(2)])
  then show ?thesis
    by (auto simp: secure_def list_all_iff)
qed

theorem protected_stays_protected_witness:
  "\<exists>d. session (\<lambda>_. True) (s_alice\<lparr>ssl_active := True, ssl_session := True, ssl_context := True\<rparr>) d \<and>
       tls_on d \<and> replies d \<noteq> []"
proof -
  let ?c = "s_alice\<lparr>ssl_active := True, ssl_session := True, ssl_context := True\<rparr>"
  let ?d = "sendResponse s_env ''200 NOOP command successful'' ?c"
  have s: "session (\<lambda>_. True) ?c ?d"
    by (rule session_one[OF command[of s_env "''NOOP''" "[]"]]) (simp_all add: dispatch_def)
  have "replies ?d \<noteq> []"
    by (simp add: sendResponse_def Let_def s_alice_def s_conn_def s_env_def)
  moreover have "tls_on ?d"
    using protected_stays_protected[OF s] by (simp add: tls_on_def)
  ultimately show ?thesis
    using s by blast
qed

text \<open>C27. \<open>PASS\<close> selects the account before it checks the password and does not end the login when the check
  fails. A client that is logged in, asks for another host and sends any wrong password therefore
  goes on as the account of the same name of that host, in that account's home.\<close>

theorem wrong_password_changes_account:
  assumes "authenticated c" "username c \<noteq> []" "hostname \<noteq> []" "virtual_host_manager c = Some m"
    and "getVirtualHost m hostname = Some h" "vh_enabled h" "vh_users h = Some um" "getUser um (username c) = Some u"
    and "\<not> authenticate (kdf f) (clock f) u password" "\<not> (pam_auth c \<and> pam_available f)"
    and "dispatch e ''HOST'' hostname c = Some d" "dispatch f ''PASS'' password d = Some d'"
  shows "d' = sendResponse f ''530 Login incorrect'' (d\<lparr>current_user := Some u\<rparr>) \<and>
         authenticated d' \<and> current_user d' = Some u \<and> home_of d' = u_home u"
proof -
  have d: "authenticated d" "username d = username c" "pam_auth d = pam_auth c" "current_virtual_host d = Some h"
    using assms(1,3-6,11) by (auto simp: dispatch_def handleHOST_def)
  have "handlePASS f password d = Some d'"
    using assms(12) by (simp add: dispatch_def)
  then have "d' = sendResponse f ''530 Login incorrect'' (d\<lparr>current_user := Some u\<rparr>)"
    using assms(2,7-10) d by (auto simp: handlePASS_def check_password_def auth_manager_def Let_def)
  then show ?thesis
    using d(1) by (simp add: home_of_def)
qed

theorem wrong_password_changes_account_witness:
  "\<exists>c d d'. authenticated c \<and> dispatch s_env ''HOST'' ''two'' c = Some d \<and>
     dispatch s_env ''PASS'' ''wrong'' d = Some d' \<and> authenticated d' \<and> home_of c = ''/srv/alice'' \<and> home_of d' = ''/srv/bob''"
proof -
  let ?u = "s_user ''alice'' ''secret'' ''/srv/bob''"
  let ?um = "\<lparr>users = [(''alice'', ?u)], users_file = []\<rparr>"
  let ?h = "(new_virtual_host ''two'' ''/srv'')\<lparr>vh_users := Some ?um\<rparr>"
  let ?m = "\<lparr>virtual_hosts = [(''two'', ?h)], vhosts_file = []\<rparr>"
  let ?c = "s_alice\<lparr>virtual_host_manager := Some ?m\<rparr>"
  have h: "getVirtualHost ?m ''two'' = Some ?h" "vh_enabled ?h" "getUser ?um (username ?c) = Some ?u"
    by (simp_all add: getVirtualHost_def getUser_def new_virtual_host_def)
  have p: "\<not> authenticate (kdf s_env) (clock s_env) ?u ''wrong''" "\<not> (pam_auth ?c \<and> pam_available s_env)"
    by (simp add: s_env_def, code_simp) (simp add: s_env_def)
  obtain d where d: "dispatch s_env ''HOST'' ''two'' ?c = Some d"
    using h by (simp add: dispatch_def handleHOST_def)
  have v: "current_virtual_host d = Some ?h" "username d = ''alice''" "pam_auth d = pam_auth ?c"
    using d h by (auto simp: dispatch_def handleHOST_def)
  obtain d' where d': "dispatch s_env ''PASS'' ''wrong'' d = Some d'"
  proof -
    have "check_password s_env ''wrong'' d = (False, d\<lparr>current_user := Some ?u\<rparr>)"
      using v h(3) p by (auto simp: check_password_def auth_manager_def Let_def)
    then show ?thesis
      using that v(2) by (simp add: dispatch_def handlePASS_def)
  qed
  have r: "d' = sendResponse s_env ''530 Login incorrect'' (d\<lparr>current_user := Some ?u\<rparr>) \<and>
      authenticated d' \<and> current_user d' = Some ?u \<and> home_of d' = u_home ?u"
    by (rule wrong_password_changes_account[OF _ _ _ _ h(1,2) _ h(3) p(1) p(2) d d']) simp_all
  have "u_home ?u = ''/srv/bob''"
    by (simp add: s_user_def)
  with r have "authenticated d' \<and> home_of d' = ''/srv/bob''"
    by (elim conjE) (simp only:)
  then show ?thesis
    using d d' by (intro exI[of _ ?c] exI[of _ d] exI[of _ d']) (simp add: home_of_def s_user_def)
qed

text \<open>\<open>PORT\<close> stores the endpoint before it checks the port. With active mode on, a \<open>PORT\<close> that is answered
  501 because its port is below 1024 still decides where the next data connection goes.\<close>

theorem rejected_port_is_used:
  assumes "active_mode_enabled c" "\<not> epsv_all c" "parse_ints (getline_fields CHR '','' arg) = Some [i, j, k, l, hi, lo]"
    and "0 < hi * 256 + lo" "hi * 256 + lo < 1024" "handlePORT e arg c = Some d"
    and "0 \<le> connect_fd f" "inet_pton (active_mode_ip d) \<noteq> None"
  shows "(\<exists>c'. d = sendResponse e ''501 Invalid port number'' c') \<and>
         dialled (snd (acceptDataConnection f d)) = dialled c @ [(active_mode_ip d, hi * 256 + lo)]"
proof -
  have w: "wrap_int (hi * 256 + lo) = hi * 256 + lo" "(hi * 256 + lo) mod 65536 = hi * 256 + lo"
    using assms(4,5) by (simp_all add: wrap_int_def)
  define c' where "c' = c\<lparr>active_mode_ip := to_string i @ ''.'' @ to_string j @ ''.'' @ to_string k @ ''.'' @ to_string l,
      active_mode_port := hi * 256 + lo\<rparr>"
  have d: "d = sendResponse e ''501 Invalid port number'' c'"
    using assms(2-6) w(1) by (simp add: handlePORT_def Let_def c'_def numeral_eq_Suc)
  then have "active_mode_enabled d" "active_mode_port d = hi * 256 + lo" "dialled d = dialled c"
    using assms(1) by (simp_all add: c'_def)
  then have "dialled (snd (acceptDataConnection f d)) = dialled c @ [(active_mode_ip d, hi * 256 + lo)]"
    using assms(4,7,8) w(2)
    by (auto simp: acceptDataConnection_def connectActiveDataSocket_def active_mode_off_def close_fd_def Let_def inet_pton_def)
  then show ?thesis
    using d by blast
qed

theorem rejected_port_is_used_witness:
  "\<exists>c d. handlePORT s_env ''10,0,0,1,8,0'' s_alice = Some c \<and> handlePORT s_env ''10,0,0,9,0,25'' c = Some d \<and>
     dialled (snd (acceptDataConnection s_env d)) = [(''10.0.0.9'', 25)]"
proof -
  have p: "parse_ints (getline_fields CHR '','' ''10,0,0,1,8,0'') = Some [10, 0, 0, 1, 8, 0]"
    "parse_ints (getline_fields CHR '','' ''10,0,0,9,0,25'') = Some [10, 0, 0, 9, 0, 25]"
    "to_string 10 @ ''.'' @ to_string 0 @ ''.'' @ to_string 0 @ ''.'' @ to_string 9 = ''10.0.0.9''"
    "inet_pton ''10.0.0.9'' \<noteq> None"
    by code_simp+
  have w: "wrap_int 2048 = 2048" "wrap_int 25 = 25"
    by (simp_all add: wrap_int_def)
  have s: "\<not> epsv_all s_alice" "dialled s_alice = []" "0 \<le> connect_fd s_env"
    by (simp_all add: s_alice_def s_conn_def s_env_def)
  obtain c where c: "handlePORT s_env ''10,0,0,1,8,0'' s_alice = Some c" "active_mode_enabled c" "\<not> epsv_all c" "dialled c = []"
    using s by (auto simp: handlePORT_def p(1) w Let_def numeral_eq_Suc)
  obtain d where d: "handlePORT s_env ''10,0,0,9,0,25'' c = Some d" "active_mode_ip d = ''10.0.0.9''"
    using c(3) p(3) w(2) by (auto simp: handlePORT_def p(2) Let_def numeral_eq_Suc)
  have "dialled (snd (acceptDataConnection s_env d)) = [(''10.0.0.9'', 25)]"
    using rejected_port_is_used[OF c(2,3) p(2) _ _ d(1) s(3)] c(4) d(2) p(4) by simp
  then show ?thesis
    using c(1) d(1) by blast
qed

section \<open>Files of the installation\<close>

text \<open>C28. One configuration, two notations: settings both loaders know, written as an INI file and as a YAML
  file, give the same configuration (or the same exception), the one that applying the settings
  in order gives.\<close>

theorem config_notations_agree:
  assumes "read_file f p = Some (ini_text es)" "read_file f q = Some (yaml_text es)" "plain_settings es"
  shows "loadFromINI f p cfg = map_option (Pair True) (set_all es cfg) \<and> loadFromYAML f q cfg = loadFromINI f p cfg"
  using load_ini_text[OF assms(1,3)] load_yaml_text[OF assms(2,3)] by simp

theorem config_notations_agree_witness:
  "\<exists>f. (\<exists>cfg. loadFromYAML f ''a.yml'' default_config = Some (True, cfg) \<and> require_ssl (security cfg) \<and>
             max_connections (connection cfg) = 7) \<and>
       loadFromYAML f ''a.yml'' default_config = loadFromINI f ''a.ini'' default_config"
proof -
  let ?es = "[(''security'', [(''require_ssl'', ''true'')]), (''connection'', [(''max_connections'', ''7'')])]"
  let ?f = "s_fs\<lparr>tree := tree s_fs @ [([''a.ini''], file_node (ini_text ?es)), ([''a.yml''], file_node (yaml_text ?es))]\<rparr>"
  have r: "read_file ?f ''a.ini'' = Some (ini_text ?es)" "read_file ?f ''a.yml'' = Some (yaml_text ?es)" "plain_settings ?es"
    by code_simp+
  have n: "stoi ''7'' = Some 7"
    by code_simp
  have "\<exists>cfg. set_all ?es default_config = Some cfg \<and> require_ssl (security cfg) \<and> max_connections (connection cfg) = 7"
    by (simp add: set_all_def ini_entry_def set_security_def ini_connection_def int_value_def n is_true_def default_config_def)
  then show ?thesis
    using config_notations_agree[OF r, of default_config] by (intro exI[of _ ?f]) auto
qed

text \<open>An INI file with the line ends of Windows loads without an error and without its sections: a header
  that ends in a carriage return is not recognised, so nothing in the file reaches the security, the
  logging or the rate limiting settings.\<close>

theorem crlf_loses_sections:
  assumes "loadFromINI f p cfg = Some (b, cfg')" "read_file f p = Some (unlines (map (\<lambda>l. l @ [CHR 0x0D]) ls))"
    and "\<forall>l\<in>set ls. CHR 0x0A \<notin> set l \<and> CHR ''#'' \<notin> set l"
  shows "security cfg' = security cfg \<and> logging cfg' = logging cfg \<and> rate_limit cfg' = rate_limit cfg"
  by (rule crlf_load[OF assms])

theorem crlf_loses_sections_witness:
  "\<exists>f cfg. loadFromINI f ''a.ini'' default_config = Some (True, cfg) \<and> \<not> require_ssl (security cfg) \<and>
     read_file f ''a.ini'' = Some (''[security]'' @ [CHR 0x0D, CHR 0x0A] @ ''require_ssl = true'' @ [CHR 0x0D, CHR 0x0A])"
proof -
  let ?ls = "[''[security]'', ''require_ssl = true'']"
  let ?t = "unlines (map (\<lambda>l. l @ [CHR 0x0D]) ?ls)"
  let ?f = "s_fs\<lparr>tree := tree s_fs @ [([''a.ini''], file_node ?t)]\<rparr>"
  have r: "read_file ?f ''a.ini'' = Some ?t"
    by code_simp
  have g: "getline_fields CHR 0x0A ?t = map (\<lambda>l. l @ [CHR 0x0D]) ?ls"
    by (rule getline_unlines) simp
  have lines: "ini_line (''[security]'' @ [CHR 0x0D]) ([], cfg) = Some ([], cfg)"
    "ini_line (''require_ssl = true'' @ [CHR 0x0D]) ([], cfg) = Some ([], cfg)" for cfg
    using s_crlf_lines by (simp_all add: ini_line_def ini_entry_def ini_connection_def Let_def)
  have "loadFromINI ?f ''a.ini'' default_config = Some (True, default_config)"
    unfolding loadFromINI_def r option.case g by (simp only: list.map run_all.simps lines bind.bind_lunit prod.case)
  then obtain cfg where l: "loadFromINI ?f ''a.ini'' default_config = Some (True, cfg)"
    by (elim that)
  have "security cfg = security default_config"
    using crlf_loses_sections[OF l r] by simp
  then have "\<not> require_ssl (security cfg)"
    by (simp add: default_config_def)
  then show ?thesis
    using l r by (intro exI[of _ ?f] exI[of _ cfg]) (simp add: unlines_def)
qed

text \<open>C29. The user file: what \<open>saveUsers\<close> has written, \<open>loadUsers\<close> reads back, account for account, and does not
  rewrite. Relied on of jsoncpp: what its writer made, its reader parses, and each conversion gives
  back the value it was made of.\<close>

theorem users_round_trip:
  assumes "json_laws L" "saveUsers L now m file f = Some (True, g)" "file \<noteq> []"
    and "js_parse L (js_write L (users_document L now m)) = Some (users_document L now m)"
    and "sorted_map (users m)" "\<forall>e\<in>set (users m). storable e"
  shows "loadUsers L kd rnd t file n g = Some (True, n\<lparr>users := users m\<rparr>, g)"
  by (rule load_saved[OF assms])

theorem users_round_trip_witness:
  "\<exists>g. saveUsers s_json 0 s_store ''users.json'' s_fs = Some (True, g) \<and>
       loadUsers s_json s_kdf (\<lambda>_. None) 0 ''users.json'' s_users g = Some (True, s_users\<lparr>users := users s_store\<rparr>, g)"
proof -
  obtain g where g: "saveUsers s_json 0 s_store ''users.json'' s_fs = Some (True, g)"
    using s_users_saved by blast
  have "sorted_map (users s_store)" "\<forall>e\<in>set (users s_store). storable e"
    using s_storable by (simp_all add: s_store_def sorted_map_def)
  then show ?thesis
    using users_round_trip[OF s_json_laws g _ s_users_parse] g by blast
qed

text \<open>C30. No plain password stays in the table: as long as the random generator and the key derivation work,
  every account loaded from a file carries a hash, whatever the file holds.\<close>

theorem passwords_hashed_on_load:
  assumes "hashing_works kd rnd" "loadUsers L kd rnd now file m f = Some (b, n, g)" "hashed_table (users m)"
  shows "hashed_table (users n)"
  by (rule loadUsers_hashed[OF assms])

theorem passwords_hashed_on_load_witness:
  "\<exists>f b n g. loadUsers s_json s_kdf (\<lambda>_. Some ''0123456789abcdef'') 0 ''users.json'' \<lparr>users = [], users_file = []\<rparr> f =
       Some (b, n, g) \<and> map fst (users n) = [''alice'', ''bob''] \<and> hashed_table (users n)"
proof -
  let ?rnd = "\<lambda>_. Some ''0123456789abcdef''"
  let ?m = "\<lparr>users = [], users_file = []\<rparr>"
  let ?d = "users_document s_json 0 s_users"
  let ?f = "s_fs\<lparr>tree := tree s_fs @ [([''users.json''], file_node (js_write s_json ?d))]\<rparr>"
  have r: "read_file ?f ''users.json'' = Some (js_write s_json ?d)" "js_parse s_json (js_write s_json ?d) = Some ?d"
    by code_simp+
  have w: "open_write ?f ''users.json'' True \<noteq> None"
    by code_simp
  have e: "\<exists>b us. load_entries s_json s_kdf ?rnd 0 (map (\<lambda>e. user_json s_json (snd e)) (users s_users)) (False, []) = Some (b, us) \<and>
      map fst us = [''alice'', ''bob'']"
    using load_any_entries[OF s_json_laws, of "users s_users" s_kdf ?rnd 0 False "[]"] by (simp add: s_users_def s_user_def)
  have "\<exists>b n g. loadUsers s_json s_kdf ?rnd 0 ''users.json'' ?m ?f = Some (b, n, g) \<and> map fst (users n) = [''alice'', ''bob'']"
    using e w by (auto simp: loadUsers_def r load_document[OF s_json_laws] saveUsers_def s_parents Let_def split: option.splits)
  then obtain b n g where l: "loadUsers s_json s_kdf ?rnd 0 ''users.json'' ?m ?f = Some (b, n, g)"
      "map fst (users n) = [''alice'', ''bob'']"
    by (elim exE conjE)
  have "hashing_works s_kdf ?rnd"
    by (simp add: hashing_works_def derive_def s_kdf_def)
  then have "hashed_table (users n)"
    using passwords_hashed_on_load[OF _ l(1)] by (simp add: hashed_table_def)
  with l show ?thesis
    by (intro exI[of _ ?f] exI[of _ b] exI[of _ n] exI[of _ g] conjI)
qed

text \<open>The file of virtual hosts does not carry everything: hosts that are saved and loaded again have lost
  their custom replies, and keep all the rest (a negative session limit becomes none).\<close>

theorem hosts_lose_errors:
  assumes "json_laws L" "saveVirtualHosts L now m file f = (True, g)" "file \<noteq> []"
    and "js_parse L (js_write L (hosts_document L now m)) = Some (hosts_document L now m)"
    and "sorted_map (virtual_hosts m)" "\<forall>e\<in>set (virtual_hosts m). plain_host e"
  shows "loadVirtualHosts L kd rnd t file n g = Some (True, n\<lparr>virtual_hosts := forget_errors (virtual_hosts m)\<rparr>, g)"
  by (rule hosts_reloaded[OF assms])

theorem hosts_lose_errors_witness:
  "\<exists>g n. loadVirtualHosts s_json s_kdf (\<lambda>_ _. None) 0 ''hosts.json'' s_hosts g = Some (True, n, g) \<and>
     getCustomError s_host ''530'' = ''go away'' \<and> virtual_hosts n = [(''ftp.example.org'', s_host\<lparr>vh_custom_errors := []\<rparr>)]"
proof -
  obtain g where g: "saveVirtualHosts s_json 0 s_hosts ''hosts.json'' s_fs = (True, g)"
    using s_hosts_saved by blast
  have h: "virtual_hosts s_hosts = [(''ftp.example.org'', s_host)]" "vh_max_sessions s_host = 4"
    by (simp_all add: s_hosts_def s_host_def)
  have "sorted_map (virtual_hosts s_hosts)" "\<forall>e\<in>set (virtual_hosts s_hosts). plain_host e"
    using s_plain_host by (simp_all add: h sorted_map_def)
  then have l: "loadVirtualHosts s_json s_kdf (\<lambda>_ _. None) 0 ''hosts.json'' s_hosts g =
      Some (True, s_hosts\<lparr>virtual_hosts := forget_errors (virtual_hosts s_hosts)\<rparr>, g)"
    using hosts_lose_errors[OF s_json_laws g _ s_hosts_parse] by blast
  have "forget_errors (virtual_hosts s_hosts) = [(''ftp.example.org'', s_host\<lparr>vh_custom_errors := []\<rparr>)]"
    using h by (simp add: forget_errors_def without_errors_def)
  moreover have "getCustomError s_host ''530'' = ''go away''"
    by (simp add: s_host_def getCustomError_def setCustomError_def new_virtual_host_def)
  ultimately show ?thesis
    using l by (intro exI[of _ g] exI) auto
qed

section \<open>Utilities\<close>

text \<open>C31. A message in the JSON log cannot break out of its record: the escaped text holds no control
  character, and a JSON reader gives back the message byte for byte.\<close>

theorem log_escape_round_trip:
  "json_unescape (escapeJsonString s) = Some s \<and> list_all (\<lambda>c. 0x20 \<le> (of_char c :: nat)) (escapeJsonString s)"
  using unescape_escape escape_printable by blast

text \<open>C32. The file cache: after any sequence of look-ups, stores and invalidations at any times, with any
  sorting the standard allows, it holds at most its maximum of entries (one, if the maximum is
  zero), and every look-up is counted once as a hit or a miss.\<close>

theorem cache_bounded:
  assumes "time_order order"
  shows "cache_size (cache_run order ops (new_cache n ttl)) \<le> max 1 n \<and>
         fc_hits (cache_run order ops (new_cache n ttl)) + fc_misses (cache_run order ops (new_cache n ttl)) =
           of_nat (lookups ops)"
proof -
  have "cache_ok (cache_run order ops (new_cache n ttl))"
    using assms by (rule run_ok) (rule new_cache_ok)
  then have "cache_size (cache_run order ops (new_cache n ttl)) \<le> max 1 (fc_max_entries (new_cache n ttl))"
    by (simp add: cache_ok_def cache_size_def cache_run_settings)
  then show ?thesis
    by (simp add: lookups_counted new_cache_def)
qed

theorem cache_bounded_witness:
  "cache_size (cache_run (sort_key snd)
     [Put 1 ''a'' \<lparr>fm_path = [], fm_size = 0, fm_is_directory = False, fm_last_modified = 0, fm_cache_time = 0\<rparr>,
      Put 2 ''b'' \<lparr>fm_path = [], fm_size = 0, fm_is_directory = False, fm_last_modified = 0, fm_cache_time = 0\<rparr>,
      Get 3 ''b'', Get 3 ''a'']
     (new_cache 1 60)) \<le> 1"
  using cache_bounded[OF time_order_sort_key, where n = 1 and ttl = 60] by (metis max.idem)

text \<open>An eviction takes the oldest entries: an entry that is still valid and is dropped to make room is
  not younger than any entry that stays.\<close>

theorem eviction_takes_oldest:
  assumes "time_order order" "sorted_map (fc_cache c)" "map_of (fc_cache c) p = Some m" "\<not> cache_expired (fc_ttl c) now m"
    and "map_of (fc_cache (evictOldEntries order now c)) p = None"
    and "map_of (fc_cache (evictOldEntries order now c)) q = Some l"
  shows "fm_cache_time m \<le> fm_cache_time l"
  by (rule evict_oldest[OF assms])

theorem eviction_takes_oldest_witness:
  "\<exists>c m l. map_of (fc_cache c) ''a'' = Some m \<and> map_of (fc_cache (evictOldEntries (sort_key snd) 5 c)) ''a'' = None \<and>
     map_of (fc_cache (evictOldEntries (sort_key snd) 5 c)) ''b'' = Some l \<and> fm_cache_time m \<le> fm_cache_time l"
proof -
  let ?m = "\<lambda>t. \<lparr>fm_path = [], fm_size = 0, fm_is_directory = False, fm_last_modified = 0, fm_cache_time = t\<rparr>"
  let ?c = "(new_cache 2 60)\<lparr>fc_cache := [(''a'', ?m 1), (''b'', ?m 2)]\<rparr>"
  have e: "\<not> cache_expired 60 5 (?m 1)" "\<not> cache_expired 60 5 (?m 2)"
    by (simp_all add: cache_expired_def signed_divide_int_def)
  then have g: "fc_cache (evictOldEntries (sort_key snd) 5 ?c) = [(''b'', ?m 2)]"
    by (simp add: evictOldEntries_def new_cache_def map_erase_def sort_key_def)
  have "sorted_map (fc_cache ?c)"
    by code_simp
  then have "fm_cache_time (?m 1) \<le> fm_cache_time (?m 2)"
    using e by (intro eviction_takes_oldest[of "sort_key snd" ?c "''a''" _ 5 "''b''", OF time_order_sort_key])
      (simp_all only: g, simp_all add: new_cache_def)
  moreover have "map_of (fc_cache ?c) ''a'' = Some (?m 1)"
    by simp
  moreover have "map_of (fc_cache (evictOldEntries (sort_key snd) 5 ?c)) ''a'' = None"
    by (simp only: g) simp
  moreover have "map_of (fc_cache (evictOldEntries (sort_key snd) 5 ?c)) ''b'' = Some (?m 2)"
    by (simp only: g) simp
  ultimately show ?thesis
    by (intro exI[of _ ?c] exI[of _ "?m 1"] exI[of _ "?m 2"] conjI)
qed

text \<open>C33. Closing a compressed download ends: with a library that either finishes or fills the buffer, as
  \<open>deflate\<close> does, the loop returns all the bytes the library still had to write.\<close>

theorem closing_stream_returns:
  assumes "finishes call rest" "zs_valid z" "length input < 2 ^ 32"
  shows "\<exists>z'. zlib_process call input True z = Some (True, rest (zs_state z) input, z')"
  by (rule zlib_process_finishes[OF assms])

theorem closing_stream_returns_witness:
  "\<exists>z'. zlib_process (\<lambda>f s i. (Z_STREAM_END, length i, s @ i, [])) ''cd'' True (new_zstream Z_OK ''ab'') = Some (True, ''abcd'', z')"
  using closing_stream_returns[of "\<lambda>f s i. (Z_STREAM_END, length i, s @ i, [])" "\<lambda>s i. s @ i" "new_zstream Z_OK ''ab''" "''cd''"]
  by (simp add: finishes_def new_zstream_def)

text \<open>C34. Closing a compressed upload need not end: when the client closes the data connection before the
  compressed stream is complete, \<open>inflate\<close> has no input left, reports \<open>Z_BUF_ERROR\<close> and stays where it
  is, and the loop calls it again for ever.\<close>

theorem truncated_upload_hangs:
  assumes "starved call (zs_state z)" "zs_valid z"
  shows "zlib_process call [] True z = None"
  by (rule zlib_process_starved[OF assms])

theorem truncated_upload_hangs_witness:
  "zlib_process (\<lambda>f s i. if i = [] then (Z_BUF_ERROR, 0, [], s) else (Z_OK, length i, i, s + 1)) [] True (new_zstream Z_OK (0 :: nat)) = None"
  by (rule truncated_upload_hangs) (simp_all add: starved_def new_zstream_def)
section \<open>From the command line to the daemon\<close>

text \<open>C35. An account made with \<open>simple-sftpd user add\<close> can log in. When the program has ended with status 0
  and the file is written, every connection that is constructed afterwards over that file knows the
  account: \<open>USER\<close> and \<open>PASS\<close> with the given name and password log it in, in the given home. On the way
  are the parsing of the command line, the JSON library, the salted hash and its verification, and
  the table of the connection's constructor. None of the three values may be a global option.\<close>

theorem added_user_can_log_in:
  assumes "run_main L w k (prog # ''user'' # add_args name p home) pr f = Some (0, g)"
    and "passes name" "passes p" "passes home"
    and "default_user_file (op_place w) f = Some file" "file \<noteq> []"
    and "new_user_manager L (op_kdf w) (op_load_rand w 0) (op_now w) file f = Some (m, f')"
    and "saveUsers L (op_now w) (with_account w name p home m) [] f' = Some (True, g)"
    and "json_laws L" "js_parse L (js_write L (users_document L (op_now w) (with_account w name p home m))) =
       Some (users_document L (op_now w) (with_account w name p home m))"
    and "sorted_map (users m)" "\<forall>e\<in>set (users m). storable e"
    and "op_rand w = Some salt" "salt \<noteq> []" "derive (op_kdf w) p salt kDefaultIterations = Some key" "\<not> isHashed p"
    and "new_connection L b sock cfg hosts trk g = Some c" "user_file (security cfg) = file"
    and "max_sessions_per_user (security cfg) \<le> 0" "kdf e = op_kdf w"
    and "handleUSER e name c = Some d" "handlePASS e p d = Some d'"
  shows "authenticated d' \<and> home_of d' = home"
proof -
  obtain ls where "handleUserCommand L w (add_args name p home) f = Some (True, ls, g)"
    using user_command_line[OF add_args_pass[OF assms(2-4)] assms(1)] by (auto simp: exit_code_def split: if_splits)
  from add_command[OF this assms(5-7)] have n: "name \<noteq> []" "users_file m = file"
    by auto
  have "getUser (user_manager c) name = Some (added_account w name p home)"
    using added_account_found[OF added_loaded[OF assms(9) n(2) assms(6,8,10-13,15)] assms(6,17,18)] .
  moreover have "authenticate (kdf e) (clock e) (added_account w name p home) p"
    using added_account_authenticates[OF assms(16,13-15)] assms(20) by simp
  ultimately have "authenticated d' \<and> current_user d' = Some (added_account w name p home)"
    using new_connection_fields(4,5)[OF assms(17)] assms(19,21,22) n(1) by (intro login_succeeds) simp_all
  then show ?thesis
    by (simp add: home_of_def)
qed

theorem added_user_can_log_in_witness:
  "\<exists>g c d d'. run_main s_json s_operator s_kernel (''simple-sftpd'' # ''user'' # s_add) \<lparr>p_gid = 0, p_uid = 0\<rparr> s_installed =
       Some (0, g) \<and>
     new_connection s_json s_birth 1 s_config None None g = Some c \<and> handleUSER s_env ''alice'' c = Some d \<and>
     handlePASS s_env ''looking'' d = Some d' \<and> authenticated d' \<and> home_of d' = ''/srv/alice''"
proof -
  have e: "s_users_path \<noteq> []" "users_file s_empty = s_users_path" "sorted_map (users s_empty)"
      "\<forall>e\<in>set (users s_empty). storable e" "kdf s_env = s_kdf"
    by (simp_all add: s_empty_def sorted_map_def s_env_def)
  have h: "\<not> isHashed ''looking''"
    by (simp add: isHashed_def kPrefix_def)
  obtain g where g: "handleUserCommand s_json s_operator s_add s_installed = Some (True, [], g)"
      "saveUsers s_json 0 s_added [] s_installed = Some (True, g)"
    using s_add_command by blast
  note load = added_loaded[where w = s_operator and L = s_json and m = s_empty and now = 0, OF s_json_laws e(2,1) g(2)
      s_json_parse[OF s_added_plain] e(3,4) s_operator_fields(1)]
  obtain c where c: "new_connection s_json s_birth 1 s_config None None g = Some c"
    using s_connects[OF load] by (auto simp: s_derived s_empty_def)
  have pass: "passes ''alice''" "passes ''looking''" "passes ''/srv/alice''"
    by (simp_all add: passes_def)
  have r: "run_main s_json s_operator s_kernel (''simple-sftpd'' # ''user'' # s_add) \<lparr>p_gid = 0, p_uid = 0\<rparr> s_installed = Some (0, g)"
    using parse_command[of "''user''" s_add "''simple-sftpd''"] add_args_pass[OF pass] g(1)
    by (simp add: run_main_def run_command_def no_cli_def exit_code_def)
  obtain d d' where d: "handleUSER s_env ''alice'' c = Some d" "handlePASS s_env ''looking'' d = Some d'"
    using s_login_steps[OF c] by blast
  have "authenticated d' \<and> home_of d' = ''/srv/alice''"
    using g(2) s_json_parse[OF s_added_plain]
    by (intro added_user_can_log_in[OF r pass _ e(1) _ _ s_json_laws _ e(3,4) s_operator_fields(1) _ _ h c _ _ _ d])
      (simp_all add: s_default_path s_no_users s_derived e(5))
  then show ?thesis
    using r c d by blast
qed

text \<open>C36. On an installation without a user file anybody can log in: the constructor puts an account
  \<open>test\<close> with the password \<open>test\<close> and the home \<open>/tmp\<close> into the empty table, whatever the key derivation
  and the random generator do (short of an empty salt).\<close>

theorem fresh_installation_accepts_test:
  assumes "read_file f (user_file (security cfg)) = None" "user_file (security cfg) \<noteq> []"
    and "new_connection L b sock cfg hosts trk f = Some c" "max_sessions_per_user (security cfg) \<le> 0"
    and "b_test_rand b \<noteq> Some []" "kdf e = b_kdf b"
    and "handleUSER e ''test'' c = Some d" "handlePASS e ''test'' d = Some d'"
  shows "authenticated d' \<and> home_of d' = ''/tmp''"
proof -
  let ?t = "new_user (b_kdf b) (b_test_rand b) ''test'' ''test'' ''/tmp''"
  obtain m g where "connection_users L b cfg f = Some (m, g)" "user_manager c = m"
    using new_connection_fields(1)[OF assms(3)] by blast
  then have "getUser (user_manager c) ''test'' = Some ?t"
    using fresh_table[OF assms(1) _ _ assms(2)] by blast
  moreover have "authenticate (kdf e) (clock e) ?t ''test''"
    using test_account_authenticates[OF assms(5)] assms(6) by simp
  ultimately have "authenticated d' \<and> current_user d' = Some ?t"
    using new_connection_fields(4,5)[OF assms(3)] assms(4,7,8) by (intro login_succeeds) simp_all
  then show ?thesis
    by (simp add: home_of_def)
qed

theorem fresh_installation_accepts_test_witness:
  "\<exists>c d d'. new_connection s_json s_birth 1 s_config None None s_installed = Some c \<and>
     handleUSER s_env ''test'' c = Some d \<and> handlePASS s_env ''test'' d = Some d' \<and> authenticated d'"
proof -
  obtain c where c: "new_connection s_json s_birth 1 s_config None None s_installed = Some c"
    using s_fresh_connects by blast
  obtain d d' where d: "handleUSER s_env ''test'' c = Some d" "handlePASS s_env ''test'' d = Some d'"
    using s_login_steps[OF c] by blast
  have "authenticated d' \<and> home_of d' = ''/tmp''"
    by (rule fresh_installation_accepts_test[OF _ _ c _ _ _ d]) (simp_all add: s_installed_file s_env_def)
  then show ?thesis
    using c d by blast
qed
text \<open>C37. Two logins at once can take each other's verdict: the conversation structure that carries the
  password to PAM is one variable of the process. A thread whose own password is wrong is let in when
  another thread publishes a password that its account accepts between its publication and its
  \<open>pam_start\<close>; alone it is always refused.\<close>

theorem pam_verdicts_cross:
  assumes "i \<noteq> j" "pt_phase (ps_threads s i) = Idle" "pt_phase (ps_threads s j) = Idle"
    and "pl_start_ok L (pt_name (ps_threads s i))" "pl_acct_ok L (pt_name (ps_threads s i))"
    and "pl_accepts L (pt_name (ps_threads s i)) (pt_password (ps_threads s j))"
    and "\<not> pl_accepts L (pt_name (ps_threads s i)) (pt_password (ps_threads s i))"
  shows "(\<exists>t. pam_steps L s t \<and> pt_phase (ps_threads t i) = Done True \<and>
           pt_password (ps_threads t i) = pt_password (ps_threads s i)) \<and>
         (\<forall>u t b. lone i u \<and> ps_threads u i = ps_threads s i \<and> pam_steps L u t \<and>
            pt_phase (ps_threads t i) = Done b \<longrightarrow> \<not> b)"
proof (intro conjI allI impI)
  show "\<exists>t. pam_steps L s t \<and> pt_phase (ps_threads t i) = Done True \<and>
      pt_password (ps_threads t i) = pt_password (ps_threads s i)"
    using pam_race[OF assms(1-6)] by blast
next
  fix u t b
  assume u: "lone i u \<and> ps_threads u i = ps_threads s i \<and> pam_steps L u t \<and> pt_phase (ps_threads t i) = Done b"
  then have "b = (pl_start_ok L (pt_name (ps_threads u i)) \<and> pl_accepts L (pt_name (ps_threads u i)) (pt_password (ps_threads u i)) \<and>
      pl_acct_ok L (pt_name (ps_threads u i)))"
    using assms(2) by (intro lone_verdict[of L u t i]) auto
  then show "\<not> b"
    using u assms(7) by simp
qed

theorem pam_verdicts_cross_witness:
  "\<exists>L s t. pam_steps L s t \<and> pt_name (ps_threads s 0) = ''eve'' \<and> \<not> pl_accepts L ''eve'' (pt_password (ps_threads s 0)) \<and>
     pt_phase (ps_threads t 0) = Done True"
proof -
  let ?L = "\<lparr>pl_start_ok = (\<lambda>_. True), pl_accepts = (\<lambda>n p. n = ''eve'' \<and> p = ''apple''), pl_acct_ok = (\<lambda>_. True)\<rparr>"
  let ?s = "\<lparr>ps_conv = None, ps_threads = (\<lambda>i. \<lparr>pt_name = (if i = 0 then ''eve'' else ''adam''),
      pt_password = (if i = 0 then ''guess'' else ''apple''), pt_phase = Idle\<rparr>)\<rparr>"
  have "(\<exists>t. pam_steps ?L ?s t \<and> pt_phase (ps_threads t 0) = Done True \<and>
           pt_password (ps_threads t 0) = pt_password (ps_threads ?s 0)) \<and>
         (\<forall>u t b. lone 0 u \<and> ps_threads u 0 = ps_threads ?s 0 \<and> pam_steps ?L u t \<and>
            pt_phase (ps_threads t 0) = Done b \<longrightarrow> \<not> b)"
    by (rule pam_verdicts_cross[of 0 1]) simp_all
  then obtain t where "pam_steps ?L ?s t" "pt_phase (ps_threads t 0) = Done True"
    by blast
  then show ?thesis
    by (intro exI[of _ ?L] exI[of _ ?s] exI[of _ t]) simp
qed

text \<open>C38. \<open>start\<close> runs a server exactly when it answers success, and then on a configuration that the
  \<open>test\<close> command accepts: the server's configuration is the one that was loaded, checked by \<open>validate\<close>.\<close>

theorem start_follows_test:
  assumes "startServer L w k file p f = Some (ok, r, g)"
  shows "(ok \<longleftrightarrow> r \<noteq> None) \<and> (testConfiguration L file f \<noteq> Some True \<longrightarrow> r = None) \<and>
         (\<forall>s. r = Some s \<longrightarrow> 0 \<le> bind_port (connection (sv_config s)) \<and> bind_port (connection (sv_config s)) \<le> 65535 \<and>
            0 < max_connections (connection (sv_config s)) \<and> 0 < timeout_seconds (connection (sv_config s)))"
proof (intro conjI allI impI)
  show "ok \<longleftrightarrow> r \<noteq> None"
    using assms by (auto simp: startServer_def split: option.splits)
  show "r = None" if "testConfiguration L file f \<noteq> Some True"
    using that assms by (cases r) (auto dest: started_config)
  fix s
  assume "r = Some s"
  then obtain cfg where "fst (validate cfg)" "sv_config s = snd (validate cfg)"
    using assms by (auto dest!: started_config)
  then show "0 \<le> bind_port (connection (sv_config s))" "bind_port (connection (sv_config s)) \<le> 65535"
      "0 < max_connections (connection (sv_config s))" "0 < timeout_seconds (connection (sv_config s))"
    unfolding validate_iff by (simp_all add: validate_def clear_errors_def Let_def)
qed

theorem start_follows_test_witness:
  "\<exists>s. startServer s_json s_operator s_kernel ''my.conf'' \<lparr>p_gid = 0, p_uid = 0\<rparr> s_rooted = Some (True, Some s, s_rooted) \<and>
     bind_port (connection (sv_config s)) \<le> 65535"
proof -
  obtain s where s: "startServer s_json s_operator s_kernel ''my.conf'' \<lparr>p_gid = 0, p_uid = 0\<rparr> s_rooted = Some (True, Some s, s_rooted)"
    using s_started by blast
  show ?thesis
    using s start_follows_test[OF s] by simp
qed

text \<open>C39. A daemon does not read a configuration that was named by a relative path: it changes to the root
  directory first. When no file has that name there, it answers success and runs on the built-in
  settings, whatever the file says.\<close>

theorem daemon_ignores_relative_config:
  assumes "daemonize k f = Some g" "fs_exists (f\<lparr>cwd := root f\<rparr>) file = Some False"
    and "startServer L w k file p g = Some (ok, Some s, h)"
  shows "ok \<and> sv_config s = default_config"
proof -
  have "g = f\<lparr>cwd := root f\<rparr>"
    using assms(1) by (auto simp: daemonize_def split: if_splits)
  then have "sv_config s = default_config"
    using missing_config[OF _ assms(3)] assms(2) by simp
  moreover have ok
    using assms(3) by (auto simp: startServer_def split: option.splits)
  ultimately show ?thesis
    by simp
qed

theorem daemon_ignores_relative_config_witness:
  "\<exists>s. read_file s_workdir ''my.conf'' = Some (''[security]'' @ CHR 0x0A # ''require_ssl = true'' @ [CHR 0x0A]) \<and>
     daemonize s_kernel s_workdir = Some s_rooted \<and>
     startServer s_json s_operator s_kernel ''my.conf'' \<lparr>p_gid = 0, p_uid = 0\<rparr> s_rooted = Some (True, Some s, s_rooted) \<and>
     \<not> require_ssl (security (sv_config s))"
proof -
  have r: "read_file s_workdir ''my.conf'' = Some (''[security]'' @ CHR 0x0A # ''require_ssl = true'' @ [CHR 0x0A])"
    by code_simp
  obtain s where s: "startServer s_json s_operator s_kernel ''my.conf'' \<lparr>p_gid = 0, p_uid = 0\<rparr> s_rooted =
      Some (True, Some s, s_rooted)"
    using s_started by blast
  have "sv_config s = default_config"
    using daemon_ignores_relative_config[OF s_daemonize _ s] s_my_conf(2) by (simp add: s_rooted_def)
  then have "\<not> require_ssl (security (sv_config s))"
    by (simp add: default_config_def)
  then show ?thesis
    using r s s_daemonize by blast
qed

text \<open>C40. The transfer settings are typed: from the construction of a connection on, whatever commands
  follow, the type is \<open>A\<close> or \<open>I\<close>, the mode \<open>S\<close> or, only where compression is enabled, \<open>Z\<close>, the protection
  level one of the four letters, and the restart offset a signed 64-bit number.\<close>

theorem settings_stay_typed:
  assumes "new_connection L b sock cfg hosts trk f = Some c" "session P c d"
  shows "transfer_type d \<in> {''A'', ''I''} \<and> transfer_mode d \<in> {''S'', ''Z''} \<and>
         protection_level d \<in> {''C'', ''S'', ''E'', ''P''} \<and> (transferModeZ d \<longrightarrow> compressionEnabled d) \<and>
         - (2 ^ 63) \<le> resume_position d \<and> resume_position d < 2 ^ 63"
proof -
  have c: "typed c"
    using assms(1) by (auto simp: new_connection_def typed_def bind_eq_Some_conv Let_def)
  have "session (\<lambda>_. True) c d"
    using assms(2) by (rule session_weaken) simp
  then have "typed d"
    by (rule typed.session_keeps) (rule c)
  then show ?thesis
    by (simp add: typed_def transferModeZ_def)
qed

theorem settings_stay_typed_witness:
  "\<exists>c d. new_connection s_json s_birth 1 s_config None None s_installed = Some c \<and> session (\<lambda>_. True) c d \<and>
     username d = ''test'' \<and> protection_level d \<in> {''C'', ''S'', ''E'', ''P''}"
proof -
  obtain c where c: "new_connection s_json s_birth 1 s_config None None s_installed = Some c"
    using s_fresh_connects by blast
  obtain d where d: "dispatch s_env ''USER'' ''test'' c = Some d" "username d = ''test''"
    by (simp add: dispatch_def handleUSER_def)
  have s: "session (\<lambda>_. True) c d"
    by (rule session_one[OF command[OF d(1)]]) simp
  show ?thesis
    using c d(2) s settings_stay_typed[OF c s] by blast
qed
text \<open>\<open>reload\<close> does not reload: it sends \<open>SIGHUP\<close>, which has the handler of the shutdown signals. When the
  command answers success and the signal arrives, the daemon has stopped serving, with
  the configuration it had.\<close>

theorem reload_stops_daemon:
  assumes "reloadConfiguration k f = (True, signals)" "dm_server d = Some s" "dm_exit d = None" "\<not> dm_requested d"
    and "deliver (hd signals) (d, f) = Some (d', g)"
  shows "\<not> keeps_serving d' \<and> signals = [SIGHUP] \<and>
         (\<exists>t. dm_server d' = Some t \<and> \<not> sv_running t \<and> sv_config t = sv_config s)"
proof -
  have sig: "signals = [SIGHUP]"
    using assms(1) by (auto simp: reloadConfiguration_def Let_def split: if_splits)
  then have "SIGHUP \<in> set setupSignalHandlers" "deliver SIGHUP (d, f) = Some (d', g)"
    using assms(5) by (simp_all add: setupSignalHandlers_def)
  then have "\<not> keeps_serving d' \<and> dm_server d' = Some (server_stop s)"
    using handled_signal_stops[of SIGHUP d f d' g] assms(2-4) by simp
  then show ?thesis
    using sig server_stop_stops by simp
qed

theorem reload_stops_daemon_witness:
  "\<exists>k f d d' g. fst (reloadConfiguration k f) \<and> keeps_serving d \<and> deliver SIGHUP (d, f) = Some (d', g) \<and> \<not> keeps_serving d'"
proof -
  let ?f = "s_fs\<lparr>tree := tree s_fs @ [([''var''], dir_node), ([''var'', ''run''], dir_node),
      ([''var'', ''run'', ''simple-sftpd.pid''], file_node (''4711'' @ [CHR 0x0A]))]\<rparr>"
  let ?s = "(new_server default_config (\<lambda>_. s_conn))\<lparr>sv_running := True\<rparr>"
  let ?d = "\<lparr>dm_requested = False, dm_server = Some ?s, dm_exit = None\<rparr>"
  have "read_file ?f getPidFile = Some (''4711'' @ [CHR 0x0A])"
    by code_simp
  moreover have "extract_int 0 (''4711'' @ [CHR 0x0A]) = 4711"
    by code_simp
  ultimately have r: "reloadConfiguration s_kernel ?f = (True, [SIGHUP])"
    by (simp add: reloadConfiguration_def readPidFile_def isProcessRunning_def s_kernel_def)
  have "removePidFile ?f \<noteq> None"
    by code_simp
  then obtain d' g where d: "deliver (hd [SIGHUP]) (?d, ?f) = Some (d', g)"
    by (auto simp: deliver_def signalHandler_def setupSignalHandlers_def)
  have m: "dm_server ?d = Some ?s" "dm_exit ?d = None" "\<not> dm_requested ?d"
    by simp_all
  have "\<not> keeps_serving d'"
    using reload_stops_daemon[OF r m d] by blast
  then show ?thesis
    using r d by (intro exI[of _ s_kernel] exI[of _ ?f] exI[of _ ?d] exI[of _ d'] exI[of _ g]) (simp add: keeps_serving_def)
qed

end
